(* ===== verification/Prelude.thy ===== *)
theory Prelude
  imports Main "HOL-Library.Word" "HOL-Library.Monad_Syntax"
begin

text \<open>
  Shared vocabulary of the development: the C integer types of
  \<^verbatim>\<open>dbvm/vmm/common.h\<close> as machine words, a byte memory, little-endian encoding of
  words as byte lists, and the word and list facts the component theories use.
  The collection \<open>le_simps\<close> holds the encoding facts, \<open>word_fields\<close> the facts
  about the masked register updates that the emulator performs.
\<close>

unbundle bit_operations_syntax

named_theorems le_simps
named_theorems word_fields

type_synonym BYTE = "8 word"
type_synonym WORD = "16 word"
type_synonym DWORD = "32 word"
type_synonym ULONG = "32 word"
type_synonym UINT64 = "64 word"
type_synonym QWORD = "64 word"

text \<open>Byte-addressed memory, and the page an address lies in.\<close>

type_synonym pmem = "UINT64 \<Rightarrow> BYTE"

definition page_base :: "UINT64 \<Rightarrow> UINT64" where
  "page_base a = a AND 0xFFFFFFFFFFFFF000"

section \<open>Little-endian words\<close>

fun le_word :: "BYTE list \<Rightarrow> 'a::len word" where
  "le_word [] = 0"
| "le_word (b # bs) = push_bit 8 (le_word bs) OR ucast b"

definition le_bytes :: "nat \<Rightarrow> 'a::len word \<Rightarrow> BYTE list" where
  "le_bytes n w = map (\<lambda>i. ucast (drop_bit (8 * i) w)) [0..<n]"

lemma length_le_bytes [simp]: "length (le_bytes n w) = n"
  by (simp add: le_bytes_def)

lemma le_bytes_0 [simp]: "le_bytes 0 w = []"
  by (simp add: le_bytes_def)

lemma nth_le_bytes [le_simps]: "i < n \<Longrightarrow> le_bytes n w ! i = ucast (drop_bit (8 * i) w)"
  by (simp add: le_bytes_def)

lemma bit_le_word:
  "bit (le_word bs :: 'a::len word) k \<longleftrightarrow>
     k < LENGTH('a) \<and> k div 8 < length bs \<and> bit (bs ! (k div 8)) (k mod 8)"
proof (induction bs arbitrary: k)
  case Nil
  then show ?case by simp
next
  case (Cons b bs)
  show ?case
  proof (cases "k < 8")
    case True
    then show ?thesis
      by (auto simp: bit_simps Cons.IH)
  next
    case False
    then have "k div 8 = Suc ((k - 8) div 8)" and "(k - 8) mod 8 = k mod 8"
      by (simp_all add: le_div_geq le_mod_geq)
    moreover from False have "\<not> bit b k"
      using bit_imp_le_length [of b k] by auto
    ultimately show ?thesis
      using False by (auto simp: bit_simps Cons.IH)
  qed
qed

text \<open>Reading back what was encoded gives the word, when enough bytes were kept.\<close>

lemma le_word_le_bytes [le_simps]:
  fixes w :: "'a::len word"
  assumes "LENGTH('a) \<le> 8 * n"
  shows "le_word (le_bytes n w) = w"
proof (rule bit_word_eqI)
  fix k assume "k < LENGTH('a)"
  with assms have "k div 8 < n" by auto
  moreover have "8 * (k div 8) + k mod 8 = k" by simp
  ultimately show "bit (le_word (le_bytes n w) :: 'a word) k \<longleftrightarrow> bit w k"
    using \<open>k < LENGTH('a)\<close>
    by (auto simp: bit_le_word nth_le_bytes bit_simps)
qed

section \<open>Masked updates of a 64-bit register\<close>

text \<open>
  The emulator writes the low byte, word or doubleword of a register as
  \<open>(reg & ~mask) + value\<close>. The two operands have no bit in common, so the addition is a
  bitwise or, and the part outside the mask is kept.
\<close>

lemma and_zero_add_eq_or:
  fixes a b :: "'a::len word"
  assumes "a AND b = 0"
  shows "a + b = a OR b"
  using assms by (rule disjunctive_add_eq_or)

lemma masked_disjoint:
  fixes r :: UINT64 and v :: "'b::len word"
  assumes "LENGTH('b) \<le> n"
  shows "(r AND NOT (mask n)) AND ucast v = 0"
  by (rule bit_word_eqI) (use assms in \<open>auto simp: bit_simps dest: bit_imp_le_length\<close>)

lemma ucast_masked_add:
  fixes r :: UINT64 and v :: "'b::len word"
  assumes "LENGTH('b) \<le> 64"
  shows "ucast ((r AND NOT (mask LENGTH('b))) + ucast v) = v"
proof -
  have "(r AND NOT (mask LENGTH('b))) + ucast v = (r AND NOT (mask LENGTH('b))) OR ucast v"
    by (rule and_zero_add_eq_or, rule masked_disjoint) simp
  then show ?thesis
    by (simp, intro bit_word_eqI) (use assms in \<open>auto simp: bit_simps\<close>)
qed

lemma high_masked_add:
  fixes r :: UINT64 and v :: "'b::len word"
  assumes "LENGTH('b) \<le> 64"
  shows "((r AND NOT (mask LENGTH('b))) + ucast v) AND NOT (mask LENGTH('b))
    = r AND NOT (mask LENGTH('b))"
proof -
  have "(r AND NOT (mask LENGTH('b))) + ucast v = (r AND NOT (mask LENGTH('b))) OR ucast v"
    by (rule and_zero_add_eq_or, rule masked_disjoint) simp
  then show ?thesis
    by (simp, intro bit_word_eqI) (use assms in \<open>auto simp: bit_simps dest: bit_imp_le_length\<close>)
qed

lemma not_masks_hex:
  "NOT (mask 8) = (0xFFFFFFFFFFFFFF00 :: UINT64)"
  "NOT (mask 16) = (0xFFFFFFFFFFFF0000 :: UINT64)"
  "NOT (mask 32) = (0xFFFFFFFF00000000 :: UINT64)"
  by (simp_all add: mask_eq_exp_minus_1)

lemma set_low16 [word_fields]:
  "ucast ((r AND 0xFFFFFFFFFFFF0000) + ucast (v :: WORD) :: UINT64) = v"
  using ucast_masked_add [of r v] by (simp add: not_masks_hex)

lemma set_low32 [word_fields]:
  "ucast ((r AND 0xFFFFFFFF00000000) + ucast (v :: DWORD) :: UINT64) = v"
  using ucast_masked_add [of r v] by (simp add: not_masks_hex)

lemma set_low8 [word_fields]:
  "ucast ((r AND 0xFFFFFFFFFFFFFF00) + ucast (v :: BYTE) :: UINT64) = v"
  using ucast_masked_add [of r v] by (simp add: not_masks_hex)

lemma keep_high16 [word_fields]:
  "((r AND 0xFFFFFFFFFFFF0000) + ucast (v :: WORD) :: UINT64) AND 0xFFFFFFFFFFFF0000
    = r AND 0xFFFFFFFFFFFF0000"
  using high_masked_add [of r v] by (simp add: not_masks_hex)

lemma keep_high32 [word_fields]:
  "((r AND 0xFFFFFFFF00000000) + ucast (v :: DWORD) :: UINT64) AND 0xFFFFFFFF00000000
    = r AND 0xFFFFFFFF00000000"
  using high_masked_add [of r v] by (simp add: not_masks_hex)

section \<open>Casts to a wider word\<close>

lemma unat_ucast_up:
  fixes v :: "'b::len word"
  assumes "LENGTH('b) \<le> LENGTH('a::len)"
  shows "unat (ucast v :: 'a word) = unat v"
proof -
  have "unat v < 2 ^ LENGTH('b)" by (rule unsigned_less)
  also have "\<dots> \<le> 2 ^ LENGTH('a)" using assms by (intro power_increasing) simp_all
  finally have "take_bit LENGTH('a) (unat v) = unat v" by (simp add: take_bit_nat_eq_self_iff)
  then show ?thesis by (simp add: unsigned_ucast_eq)
qed

lemma unat_ucast16: "unat (ucast (v :: WORD) :: UINT64) = unat v"
  by (rule unat_ucast_up) simp

lemma unat_ucast32: "unat (ucast (v :: DWORD) :: UINT64) = unat v"
  by (rule unat_ucast_up) simp

section \<open>Shifts and bit fields as arithmetic\<close>

lemma unat_shr: "unat (drop_bit n w) = unat w div 2 ^ n"
  unfolding unat_drop_bit_eq by (rule drop_bit_eq_div)

lemma unat_low: "unat (take_bit n w) = unat w mod 2 ^ n"
  unfolding unsigned_take_bit_eq by (rule take_bit_eq_mod)

lemma take_bit_self:
  assumes "unat w < 2 ^ n"
  shows "take_bit n w = w"
  using assms by (simp add: word_unat_eq_iff unat_low)

lemma high_bits_zero:
  assumes "unat w < 2 ^ n" "n \<le> k"
  shows "\<not> bit w k"
  using take_bit_self [OF assms(1)] assms(2) by (metis bit_take_bit_iff not_less)

lemma and_1ff: "(a :: UINT64) AND 0x1ff = take_bit 9 a"
  using take_bit_eq_mask [of 9 a] by (simp add: mask_eq_exp_minus_1)

lemma mask_region: "(0xFFFFFFFFFFE00000 :: UINT64) = NOT (mask 21)"
  by (simp add: mask_eq_exp_minus_1)

section \<open>Options\<close>

lemma bind_Some_iff:
  "Option.bind x f = Some y \<longleftrightarrow> (\<exists>z. x = Some z \<and> f z = Some y)"
  by (cases x) simp_all

section \<open>Computations that have returned\<close>

text \<open>Elimination of the layers of a computation that has returned a value.\<close>

lemma bind_SomeE: "Option.bind x f = Some r \<Longrightarrow> (\<And>y. x = Some y \<Longrightarrow> f y = Some r \<Longrightarrow> P) \<Longrightarrow> P"
  by (auto simp: bind_Some_iff)

lemma if_SomeE: "(if b then x else y) = Some r \<Longrightarrow> (b \<Longrightarrow> x = Some r \<Longrightarrow> P) \<Longrightarrow> (\<not> b \<Longrightarrow> y = Some r \<Longrightarrow> P) \<Longrightarrow> P"
  by (auto split: if_split_asm)

lemma option_case_SomeE: "case_option x g z = Some r \<Longrightarrow> (z = None \<Longrightarrow> x = Some r \<Longrightarrow> P)
    \<Longrightarrow> (\<And>a. z = Some a \<Longrightarrow> g a = Some r \<Longrightarrow> P) \<Longrightarrow> P"
  by (auto split: option.split_asm)

lemma sum_case_SomeE: "case_sum f g z = Some r \<Longrightarrow> (\<And>a. z = Inl a \<Longrightarrow> f a = Some r \<Longrightarrow> P)
    \<Longrightarrow> (\<And>a. z = Inr a \<Longrightarrow> g a = Some r \<Longrightarrow> P) \<Longrightarrow> P"
  by (auto split: sum.split_asm)

lemma Some_pairE: "Some (a, b) = Some (r, t) \<Longrightarrow> (a = r \<Longrightarrow> b = t \<Longrightarrow> P) \<Longrightarrow> P"
  by simp

lemmas SomeE = bind_SomeE if_SomeE option_case_SomeE sum_case_SomeE Some_pairE

end
