(* ===== verification/Memory_Manager.thy ===== *)
theory Memory_Manager
  imports Prelude "HOL-Library.Multiset"
begin

text \<open>
  The allocator of the hypervisor, \<^verbatim>\<open>dbvm/vmm/mm.c\<close>: a doubly linked list of
  \<^verbatim>\<open>MemlistItem\<close> descriptors which lie in the memory they manage. The model keeps the
  pointers: \<open>items\<close> is the memory read as descriptors, so a descriptor that is placed in
  free memory starts with whatever that memory held. \<^verbatim>\<open>NULL\<close> is 0, \<open>None\<close> a search
  that does not end (a cyclic list). The critical section \<^verbatim>\<open>mallocCS\<close> around
  \<^verbatim>\<open>malloc\<close> is the subject of the theory of critical sections.
\<close>

unbundle bit_operations_syntax

section \<open>The code\<close>

record MemlistItem =
  ml_base :: UINT64
  ml_size :: ULONG
  ml_type :: ULONG
  ml_next :: UINT64
  ml_previous :: UINT64

record mm =
  memorylist :: UINT64
  items :: "UINT64 \<Rightarrow> MemlistItem"

definition item_upd :: "UINT64 \<Rightarrow> (MemlistItem \<Rightarrow> MemlistItem) \<Rightarrow> mm \<Rightarrow> mm" where
  "item_upd a f s = s\<lparr>items := (items s)(a := f (items s a))\<rparr>"

text \<open>\<^verbatim>\<open>(4096-(base % 4096)) % 4096\<close>, as an \<^verbatim>\<open>unsigned int\<close>.\<close>

definition page_difference :: "UINT64 \<Rightarrow> ULONG" where
  "page_difference b = ucast ((4096 - (b mod 4096)) mod 4096)"

text \<open>The test of \<^verbatim>\<open>findFreeRegion\<close>; \<^verbatim>\<open>sizeof(MemlistItem)\<close> is 32.\<close>

definition region_fits :: "ULONG \<Rightarrow> MemlistItem \<Rightarrow> bool" where
  "region_fits sz it =
     (ml_type it = 0 \<and> ml_size it \<ge> sz \<and>
      (sz \<ge> 4096 \<longrightarrow>
        (let d = page_difference (ml_base it);
             d = (if d < 48 then d + 4096 else d)
         in \<not> ml_size it - d < sz)))"

partial_function (option) find_from ::
  "(UINT64 \<Rightarrow> MemlistItem) \<Rightarrow> ULONG \<Rightarrow> UINT64 \<Rightarrow> UINT64 option" where
  "find_from h sz temp =
     (if temp = 0 then Some 0
      else if region_fits sz (h temp) then Some temp
      else find_from h sz (ml_next (h temp)))"

definition findFreeRegion :: "ULONG \<Rightarrow> mm \<Rightarrow> UINT64 option" where
  "findFreeRegion sz s = find_from (items s) sz (memorylist s)"

definition round_size :: "ULONG \<Rightarrow> ULONG" where
  "round_size sz = (let sz = sz + (4 - sz mod 4) mod 4 in if sz = 0 then 4 else sz)"

text \<open>The new descriptor \<open>nd\<close> is linked in before the region \<open>f\<close> it is cut from.\<close>

definition insert_descriptor :: "UINT64 \<Rightarrow> mm \<Rightarrow> mm" where
  "insert_descriptor f s =
     (let nd = ml_base (items s f);
          s1 = item_upd nd (\<lambda>i. i\<lparr>ml_previous := ml_previous (items s f), ml_next := f,
                               ml_type := 1\<rparr>) s;
          s2 = (if ml_previous (items s1 f) = 0 then s1\<lparr>memorylist := nd\<rparr>
                else item_upd (ml_previous (items s1 nd)) (\<lambda>i. i\<lparr>ml_next := nd\<rparr>) s1)
      in item_upd f (\<lambda>i. i\<lparr>ml_previous := nd, ml_base := ml_base i + 32,
                          ml_size := ml_size i - 32\<rparr>) s2)"

text \<open>
  The alignment step for blocks of a page and more: the new state and \<^verbatim>\<open>totalsize\<close>. A
  descriptor is made for the skipped bytes when they are enough for one.
\<close>

definition align_block :: "UINT64 \<Rightarrow> ULONG \<Rightarrow> mm \<Rightarrow> mm \<times> ULONG" where
  "align_block nd bsize s =
     (let b = ml_base (items s nd); difference = page_difference b;
          (s1, totalsize) =
            (if difference \<ge> 36 then
               (let t2 = b;
                    u = item_upd t2 (\<lambda>_. \<lparr>ml_base = b + 32, ml_size = difference - 32,
                          ml_type = 0, ml_next = nd, ml_previous = ml_previous (items s nd)\<rparr>) s;
                    v = (if ml_previous (items u nd) = 0 then u\<lparr>memorylist := t2\<rparr>
                         else item_upd (ml_previous (items u nd)) (\<lambda>i. i\<lparr>ml_next := t2\<rparr>) u)
                in (item_upd nd (\<lambda>i. i\<lparr>ml_previous := t2\<rparr>) v, bsize))
             else
               ((if ml_previous (items s nd) \<noteq> 0
                 then item_upd (ml_previous (items s nd))
                        (\<lambda>i. i\<lparr>ml_size := ml_size i + difference\<rparr>) s
                 else s), bsize + difference))
      in (item_upd nd (\<lambda>i. i\<lparr>ml_base := ml_base i + ucast difference\<rparr>) s1, totalsize))"

definition take_block :: "UINT64 \<Rightarrow> UINT64 \<Rightarrow> ULONG \<Rightarrow> mm \<Rightarrow> mm" where
  "take_block nd f bsize s =
     (let s1 = item_upd nd (\<lambda>i. i\<lparr>ml_base := ml_base (items s f), ml_size := bsize,
                               ml_type := 1\<rparr>) s;
          (s2, totalsize) = (if bsize \<ge> 4096 then align_block nd bsize s1 else (s1, bsize))
      in item_upd f (\<lambda>i. i\<lparr>ml_base := ml_base (items s2 nd) + ucast bsize, ml_type := 0,
                          ml_size := ml_size i - totalsize\<rparr>) s2)"

definition malloc :: "ULONG \<Rightarrow> mm \<Rightarrow> (UINT64 \<times> mm) option" where
  "malloc sz s = do {
     f \<leftarrow> findFreeRegion 32 s;
     if f = 0 then Some (0, s)
     else
       (let bsize = round_size sz; nd = ml_base (items s f); s1 = insert_descriptor f s in do {
          g \<leftarrow> findFreeRegion bsize s1;
          if g = 0 then Some (0, s1)
          else (let s2 = take_block nd g bsize s1 in Some (ml_base (items s2 nd), s2)) }) }"

partial_function (option) region_from ::
  "(UINT64 \<Rightarrow> MemlistItem) \<Rightarrow> UINT64 \<Rightarrow> UINT64 \<Rightarrow> UINT64 option" where
  "region_from h address region =
     (if region = 0 then Some 0
      else if ml_base (h region) = address then Some region
      else region_from h address (ml_next (h region)))"

definition getRegion :: "UINT64 \<Rightarrow> mm \<Rightarrow> UINT64 option" where
  "getRegion pointer s = region_from (items s) pointer (memorylist s)"

definition mm_free :: "UINT64 \<Rightarrow> mm \<Rightarrow> mm option" where
  "mm_free pointer s = do {
     region \<leftarrow> getRegion pointer s;
     Some (if region \<noteq> 0 then item_upd region (\<lambda>i. i\<lparr>ml_type := 0\<rparr>) s else s) }"

text \<open>\<^verbatim>\<open>maxsizeregion\<close> is \<open>None\<close> for the initial \<^verbatim>\<open>NULL\<close>; its final dereference then fails.\<close>

partial_function (option) max_from ::
  "(UINT64 \<Rightarrow> MemlistItem) \<Rightarrow> ULONG option \<Rightarrow> UINT64 \<Rightarrow> ULONG option" where
  "max_from h best region =
     (if region = 0 then best
      else max_from h
        (if ml_type (h region) = 0 \<and> (case best of None \<Rightarrow> True | Some m \<Rightarrow> m < ml_size (h region))
         then Some (ml_size (h region)) else best)
        (ml_next (h region)))"

definition maxAllocatableMemory :: "mm \<Rightarrow> ULONG option" where
  "maxAllocatableMemory s = max_from (items s) None (memorylist s)"

text \<open>
  \<^verbatim>\<open>memorylist\<close> points at the first descriptor already. \<^verbatim>\<open>MAX_STACK_SIZE\<close> (64 KB) is
  kept for the stack of each CPU.
\<close>

definition InitializeMM :: "UINT64 \<Rightarrow> ULONG \<Rightarrow> mm \<Rightarrow> mm" where
  "InitializeMM BaseVirtualAddress cpucount s =
     item_upd (memorylist s)
       (\<lambda>_. \<lparr>ml_base = BaseVirtualAddress + 32,
             ml_size = ucast (ucast (0x007fffff - cpucount * 0x10000)
                         - (BaseVirtualAddress + 32)),
             ml_type = 0, ml_next = 0, ml_previous = 0\<rparr>) s"

section \<open>The linked list\<close>

text \<open>\<open>chain h prev p xs\<close>: from \<open>p\<close> the list visits the descriptors \<open>xs\<close>, linked both ways.\<close>

fun chain :: "(UINT64 \<Rightarrow> MemlistItem) \<Rightarrow> UINT64 \<Rightarrow> UINT64 \<Rightarrow> UINT64 list \<Rightarrow> bool" where
  "chain h prev p [] = (p = 0)"
| "chain h prev p (a # as) =
     (p = a \<and> a \<noteq> 0 \<and> ml_previous (h a) = prev \<and> chain h a (ml_next (h a)) as)"

lemma chain_cong:
  "(\<And>a. a \<in> set xs \<Longrightarrow> ml_next (h' a) = ml_next (h a) \<and> ml_previous (h' a) = ml_previous (h a)) \<Longrightarrow>
    chain h' prev p xs = chain h prev p xs"
  by (induction xs arbitrary: prev p) auto

lemma chain_nonzero: "chain h prev p xs \<Longrightarrow> 0 \<notin> set xs"
  by (induction xs arbitrary: prev p) auto

lemma chain_start: "chain h prev p xs \<Longrightarrow> p = (case xs of [] \<Rightarrow> 0 | a # _ \<Rightarrow> a)"
  by (cases xs) auto

lemma chain_previous:
  "chain h prev p (xs @ f # ys) \<Longrightarrow> ml_previous (h f) = last (prev # xs)"
  by (induction xs arbitrary: prev p) auto

text \<open>The search ends on every well-formed list, at the first region that fits.\<close>

lemma find_from_chain:
  "chain h prev p xs \<Longrightarrow>
    find_from h sz p = Some (case find (\<lambda>a. region_fits sz (h a)) xs of None \<Rightarrow> 0 | Some a \<Rightarrow> a)"
proof (induction xs arbitrary: prev p)
  case Nil
  then show ?case by (subst find_from.simps) simp
next
  case (Cons a xs)
  then show ?case by (subst find_from.simps) auto
qed

lemma region_from_chain:
  "chain h prev p xs \<Longrightarrow>
    region_from h b p = Some (case find (\<lambda>a. ml_base (h a) = b) xs of None \<Rightarrow> 0 | Some a \<Rightarrow> a)"
proof (induction xs arbitrary: prev p)
  case Nil
  then show ?case by (subst region_from.simps) simp
next
  case (Cons a xs)
  then show ?case by (subst region_from.simps) auto
qed

text \<open>Linking in a descriptor before \<open>f\<close>.\<close>

lemma chain_insert:
  assumes "chain h prev p (xs @ f # ys)" "distinct (xs @ f # ys)" "nd \<noteq> 0"
    and "\<And>a. a \<in> set (xs @ f # ys) \<Longrightarrow>
      ml_next (h' a) = (if xs \<noteq> [] \<and> a = last xs then nd else ml_next (h a))"
    and "\<And>a. a \<in> set (xs @ f # ys) \<Longrightarrow>
      ml_previous (h' a) = (if a = f then nd else ml_previous (h a))"
    and "ml_previous (h' nd) = last (prev # xs)" "ml_next (h' nd) = f"
  shows "chain h' prev (if xs = [] then nd else p) (xs @ nd # f # ys)"
  using assms
proof (induction xs arbitrary: prev p)
  case Nil
  then have "chain h' f (ml_next (h f)) ys = chain h f (ml_next (h f)) ys"
    by (intro chain_cong) auto
  with Nil show ?case by auto
next
  case (Cons a xs)
  have "chain h' a (if xs = [] then nd else ml_next (h a)) (xs @ nd # f # ys)"
  proof (rule Cons.IH)
    show "chain h a (ml_next (h a)) (xs @ f # ys)" using Cons.prems(1) by simp
    show "ml_next (h' b) = (if xs \<noteq> [] \<and> b = last xs then nd else ml_next (h b))"
      if "b \<in> set (xs @ f # ys)" for b
    proof -
      have "b \<noteq> a" using that Cons.prems(2) by auto
      then show ?thesis using Cons.prems(4) [of b] that by auto
    qed
  qed (use Cons.prems in auto)
  moreover have "ml_next (h' a) = (if xs = [] then nd else ml_next (h a))"
  proof -
    have "xs \<noteq> [] \<Longrightarrow> a \<noteq> last xs" using Cons.prems(2) by auto
    then show ?thesis using Cons.prems(4) [of a] by auto
  qed
  moreover have "ml_previous (h' a) = prev"
    using Cons.prems(1,2) Cons.prems(5) [of a] by auto
  ultimately show ?case using Cons.prems(1) by simp
qed

section \<open>Extents\<close>

text \<open>An extent is a start address and a length.\<close>

definition ext_set :: "nat \<times> nat \<Rightarrow> nat set" where
  "ext_set e = {fst e ..< fst e + snd e}"

text \<open>No address belongs to two of the extents.\<close>

definition apart :: "(nat \<times> nat) multiset \<Rightarrow> bool" where
  "apart M \<longleftrightarrow> (\<forall>x. size {#e \<in># M. x \<in> ext_set e#} \<le> 1)"

lemma apart_empty [simp]: "apart {#}"
  by (simp add: apart_def)

lemma apart_add:
  "apart (add_mset e M) \<longleftrightarrow> apart M \<and> (\<forall>f \<in># M. ext_set e \<inter> ext_set f = {})"
proof
  assume l: "apart (add_mset e M)"
  have "size {#f \<in># M. x \<in> ext_set f#} \<le> size {#f \<in># add_mset e M. x \<in> ext_set f#}" for x
    by (intro size_mset_mono multiset_filter_mono) simp
  with l have "size {#f \<in># M. x \<in> ext_set f#} \<le> 1" for x
    unfolding apart_def using le_trans by blast
  moreover have "x \<notin> ext_set f" if "f \<in># M" "x \<in> ext_set e" for f x
  proof
    assume "x \<in> ext_set f"
    with l [unfolded apart_def, rule_format, of x] that show False by (cases f) auto
  qed
  ultimately show "apart M \<and> (\<forall>f \<in># M. ext_set e \<inter> ext_set f = {})"
    unfolding apart_def by blast
next
  assume r: "apart M \<and> (\<forall>f \<in># M. ext_set e \<inter> ext_set f = {})"
  have "{#f \<in># M. x \<in> ext_set f#} = {#}" if "x \<in> ext_set e" for x
    using r that by auto
  then show "apart (add_mset e M)"
    using r unfolding apart_def by auto
qed

lemma apart_split:
  assumes "apart (add_mset (b, n) M)" "k \<le> n"
  shows "apart (add_mset (b, k) (add_mset (b + k, n - k) M))"
  using assms unfolding apart_def
  by (auto simp: ext_set_def split: if_splits)

lemma apart_subset:
  assumes "apart M" "N \<subseteq># M"
  shows "apart N"
proof -
  have "size {#e \<in># N. x \<in> ext_set e#} \<le> size {#e \<in># M. x \<in> ext_set e#}" for x
    by (rule size_mset_mono) (rule multiset_filter_mono [OF assms(2)])
  with assms(1) show ?thesis unfolding apart_def using le_trans by blast
qed

section \<open>The invariant\<close>

text \<open>
  The extents of a list: the 32 bytes of every descriptor and the free regions. Together
  with the blocks \<open>L\<close> handed out they are disjoint and lie between \<open>lo\<close> and \<open>hi\<close>.
\<close>

definition item_exts :: "UINT64 \<Rightarrow> MemlistItem \<Rightarrow> (nat \<times> nat) multiset" where
  "item_exts a it = add_mset (unat a, 32)
     (if ml_type it = 0 then {#(unat (ml_base it), unat (ml_size it))#} else {#})"

fun mm_exts :: "(UINT64 \<Rightarrow> MemlistItem) \<Rightarrow> UINT64 list \<Rightarrow> (nat \<times> nat) multiset" where
  "mm_exts h [] = {#}"
| "mm_exts h (a # as) = item_exts a (h a) + mm_exts h as"

definition exts_ok :: "nat \<Rightarrow> nat \<Rightarrow> (nat \<times> nat) multiset \<Rightarrow> bool" where
  "exts_ok lo hi M \<longleftrightarrow> 0 < lo \<and> hi \<le> 2 ^ 63 \<and> apart M
     \<and> (\<forall>e \<in># M. lo \<le> fst e \<and> fst e + snd e \<le> hi)"

definition mm_inv :: "nat \<Rightarrow> nat \<Rightarrow> mm \<Rightarrow> UINT64 list \<Rightarrow> (nat \<times> nat) multiset \<Rightarrow> bool" where
  "mm_inv lo hi s xs L \<longleftrightarrow> chain (items s) 0 (memorylist s) xs \<and> distinct xs
     \<and> exts_ok lo hi (mm_exts (items s) xs + L)"

lemma mm_exts_append [simp]: "mm_exts h (xs @ ys) = mm_exts h xs + mm_exts h ys"
  by (induction xs) (simp_all add: add.assoc)

lemma mm_exts_cong:
  "(\<And>a. a \<in> set xs \<Longrightarrow> item_exts a (h' a) = item_exts a (h a)) \<Longrightarrow> mm_exts h' xs = mm_exts h xs"
  by (induction xs) simp_all

lemma exts_ok_split:
  assumes "exts_ok lo hi (add_mset (b, n) M)" "k \<le> n"
  shows "exts_ok lo hi (add_mset (b, k) (add_mset (b + k, n - k) M))"
  using assms apart_split [of b n M k] by (auto simp: exts_ok_def)

lemma exts_ok_add: "exts_ok lo hi (add_mset e M) \<Longrightarrow> exts_ok lo hi M"
  by (simp add: exts_ok_def apart_add)

text \<open>A free region of some length starts where no descriptor is.\<close>

lemma free_base_fresh:
  assumes "mm_inv lo hi s xs L" "f \<in> set xs" "ml_type (items s f) = 0" "0 < unat (ml_size (items s f))"
  shows "ml_base (items s f) \<notin> set xs" and "0 < unat (ml_base (items s f))"
    and "unat (ml_base (items s f)) + unat (ml_size (items s f)) \<le> 2 ^ 63"
proof -
  let ?b = "ml_base (items s f)" and ?n = "ml_size (items s f)"
  obtain ys zs where xs: "xs = ys @ f # zs" using assms(2) by (auto simp: in_set_conv_decomp)
  define M where "M = mm_exts (items s) ys + mm_exts (items s) zs + L"
  have ok: "exts_ok lo hi (add_mset (unat f, 32) (add_mset (unat ?b, unat ?n) M))"
    using assms(1,3) unfolding mm_inv_def xs M_def by (simp add: item_exts_def ac_simps)
  then show "0 < unat ?b" "unat ?b + unat ?n \<le> 2 ^ 63" by (simp_all add: exts_ok_def)
  have sep: "ext_set (unat a, 32) \<inter> ext_set (unat ?b, unat ?n) = {}" if "a \<in> set xs" for a
  proof (cases "a = f")
    case True
    then show ?thesis using ok by (auto simp: exts_ok_def apart_add)
  next
    case False
    have "a \<in> set as \<Longrightarrow> (unat a, 32) \<in># mm_exts (items s) as" for as
      by (induction as) (auto simp: item_exts_def)
    with False that have "(unat a, 32) \<in># M" by (auto simp: xs M_def)
    then show ?thesis using ok by (auto simp: exts_ok_def apart_add Int_commute)
  qed
  show "?b \<notin> set xs"
  proof
    assume "?b \<in> set xs"
    from sep [OF this] assms(4) show False by (auto simp: ext_set_def)
  qed
qed

lemma last_nonzero: "0 \<notin> set ys \<Longrightarrow> last (0 # ys) = (0 :: UINT64) \<longleftrightarrow> ys = []"
  by (metis last.simps last_in_set)

lemma insert_descriptor_items:
  assumes "chain (items s) 0 (memorylist s) (ys @ f # zs)" "distinct (ys @ f # zs)"
    and "nd = ml_base (items s f)" "nd \<notin> set (ys @ f # zs)" "nd \<noteq> 0"
  shows "items (insert_descriptor f s) =
      (\<lambda>a. if a = f then (items s f)\<lparr>ml_previous := nd, ml_base := nd + 32,
              ml_size := ml_size (items s f) - 32\<rparr>
           else if a = nd then (items s nd)\<lparr>ml_previous := last (0 # ys), ml_next := f, ml_type := 1\<rparr>
           else if ys \<noteq> [] \<and> a = last ys then (items s a)\<lparr>ml_next := nd\<rparr>
           else items s a)"
    and "memorylist (insert_descriptor f s) = (if ys = [] then nd else memorylist s)"
proof -
  have pv: "ml_previous (items s f) = last (0 # ys)" using assms(1) by (rule chain_previous)
  have z: "0 \<notin> set (ys @ f # zs)" using assms(1) by (rule chain_nonzero)
  then have pv0: "last (0 # ys) = 0 \<longleftrightarrow> ys = []" using last_nonzero [of ys] by simp
  have "f \<noteq> nd" using assms(4) by auto
  moreover have "ys \<noteq> [] \<Longrightarrow> last ys \<noteq> f \<and> last ys \<noteq> nd"
    using last_in_set [of ys] assms(2,4) by auto
  ultimately show "items (insert_descriptor f s) =
      (\<lambda>a. if a = f then (items s f)\<lparr>ml_previous := nd, ml_base := nd + 32,
              ml_size := ml_size (items s f) - 32\<rparr>
           else if a = nd then (items s nd)\<lparr>ml_previous := last (0 # ys), ml_next := f, ml_type := 1\<rparr>
           else if ys \<noteq> [] \<and> a = last ys then (items s a)\<lparr>ml_next := nd\<rparr>
           else items s a)"
    and "memorylist (insert_descriptor f s) = (if ys = [] then nd else memorylist s)"
    using pv pv0 assms(3)
    by (auto simp: insert_descriptor_def item_upd_def Let_def fun_eq_iff)
qed

lemma unat_sub_word: "(k :: 'a::len word) \<le> n \<Longrightarrow> unat (n - k) = unat n - unat k"
  by (rule unat_sub)

lemma unat_add_low: "unat (b :: UINT64) + k \<le> 2 ^ 63 \<Longrightarrow> unat (b + of_nat k) = unat b + k"
  by (simp add: unat_word_ariths unat_of_nat mod_add_right_eq)

lemma insert_descriptor_inv:
  assumes inv: "mm_inv lo hi s (ys @ f # zs) L"
    and free: "ml_type (items s f) = 0" "32 \<le> ml_size (items s f)"
  shows "mm_inv lo hi (insert_descriptor f s) (ys @ ml_base (items s f) # f # zs) L"
    and "ml_type (items (insert_descriptor f s) (ml_base (items s f))) = 1"
proof -
  let ?nd = "ml_base (items s f)" and ?n = "ml_size (items s f)" and ?t = "insert_descriptor f s"
  have n: "32 \<le> unat ?n" using free(2) by (simp add: word_le_nat_alt)
  then have pos: "0 < unat ?n" by simp
  note fresh = free_base_fresh [OF inv _ free(1) pos, simplified]
  have ch: "chain (items s) 0 (memorylist s) (ys @ f # zs)" and d: "distinct (ys @ f # zs)"
    using inv by (simp_all add: mm_inv_def)
  have nd0: "?nd \<noteq> 0" using fresh(2) by auto
  have ndx: "?nd \<notin> set (ys @ f # zs)" using fresh(1) by simp
  note it = insert_descriptor_items [OF ch d refl ndx nd0]
  have "f \<noteq> ?nd" using ndx by auto
  then show "ml_type (items ?t ?nd) = 1" by (simp add: it)
  have "chain (items ?t) 0 (memorylist ?t) (ys @ ?nd # f # zs)"
    unfolding it(2)
    by (rule chain_insert [OF ch d nd0]) (use ndx d last_in_set [of ys] in \<open>auto simp: it(1)\<close>)
  moreover have "exts_ok lo hi (mm_exts (items ?t) (ys @ ?nd # f # zs) + L)"
  proof -
    have ys: "mm_exts (items ?t) ys = mm_exts (items s) ys"
      by (rule mm_exts_cong) (use d ndx in \<open>auto simp: it(1) item_exts_def\<close>)
    have zs: "mm_exts (items ?t) zs = mm_exts (items s) zs"
      by (rule mm_exts_cong) (use d ndx in \<open>auto simp: it(1) item_exts_def\<close>)
    have "unat (?nd + 32) = unat ?nd + 32" "unat (?n - 32) = unat ?n - 32"
      using unat_add_low [of ?nd 32] fresh(3) n free(2) by (simp_all add: unat_sub_word)
    then have f: "item_exts f (items ?t f) = {#(unat f, 32), (unat ?nd + 32, unat ?n - 32)#}"
      using free(1) by (simp add: it(1) item_exts_def)
    have nd: "item_exts ?nd (items ?t ?nd) = {#(unat ?nd, 32)#}"
      using \<open>f \<noteq> ?nd\<close> by (simp add: it(1) item_exts_def)
    have "exts_ok lo hi (add_mset (unat ?nd, unat ?n)
        (add_mset (unat f, 32) (mm_exts (items s) ys + mm_exts (items s) zs + L)))"
      using inv free(1) by (simp add: mm_inv_def item_exts_def ac_simps add_mset_commute)
    from exts_ok_split [OF this n] show ?thesis
      by (simp add: ys zs f nd ac_simps add_mset_commute)
  qed
  ultimately show "mm_inv lo hi ?t (ys @ ?nd # f # zs) L"
    using d ndx by (simp add: mm_inv_def)
qed


section \<open>Allocation below a page\<close>

lemma take_block_small:
  assumes "bsize < 4096" "g \<noteq> nd"
  shows "items (take_block nd g bsize s) = (items s)
      (nd := (items s nd)\<lparr>ml_base := ml_base (items s g), ml_size := bsize, ml_type := 1\<rparr>,
       g := (items s g)\<lparr>ml_base := ml_base (items s g) + ucast bsize, ml_type := 0,
              ml_size := ml_size (items s g) - bsize\<rparr>)"
    and "memorylist (take_block nd g bsize s) = memorylist s"
  using assms by (auto simp: take_block_def item_upd_def Let_def)

lemma take_block_inv:
  assumes inv: "mm_inv lo hi s xs L" and small: "bsize < 4096"
    and nd: "nd \<in> set xs" "ml_type (items s nd) = 1"
    and g: "g \<in> set xs" "ml_type (items s g) = 0" "bsize \<le> ml_size (items s g)"
  shows "mm_inv lo hi (take_block nd g bsize s) xs
    (add_mset (unat (ml_base (items s g)), unat bsize) L)"
proof -
  let ?t = "take_block nd g bsize s" and ?b = "ml_base (items s g)" and ?n = "ml_size (items s g)"
  have ne: "g \<noteq> nd" using nd(2) g(2) by auto
  note it = take_block_small [OF small ne]
  have ch: "chain (items s) 0 (memorylist s) xs" and d: "distinct xs"
    using inv by (simp_all add: mm_inv_def)
  have "chain (items ?t) 0 (memorylist ?t) xs"
    unfolding it(2) using ch by (subst chain_cong) (auto simp: it(1))
  moreover have "exts_ok lo hi (mm_exts (items ?t) xs + add_mset (unat ?b, unat bsize) L)"
  proof -
    obtain ys zs where xs: "xs = ys @ g # zs" using g(1) by (auto simp: in_set_conv_decomp)
    have rest: "mm_exts (items ?t) as = mm_exts (items s) as" if "g \<notin> set as" for as
      by (rule mm_exts_cong) (use that nd(2) in \<open>auto simp: it(1) item_exts_def\<close>)
    have gs: "g \<notin> set ys" "g \<notin> set zs" using d by (auto simp: xs)
    have ok: "exts_ok lo hi (add_mset (unat ?b, unat ?n)
        (add_mset (unat g, 32) (mm_exts (items s) ys + mm_exts (items s) zs + L)))"
      using inv g(2) unfolding mm_inv_def xs by (simp add: item_exts_def ac_simps add_mset_commute)
    have k: "unat bsize \<le> unat ?n" using g(3) by (simp add: word_le_nat_alt)
    have "unat ?b + unat ?n \<le> 2 ^ 63" using ok by (simp add: exts_ok_def)
    then have "unat (?b + ucast bsize) = unat ?b + unat bsize"
      using k unat_add_low [of ?b "unat bsize"] by (simp add: unat_ucast32)
    then have "item_exts g (items ?t g) = {#(unat g, 32), (unat ?b + unat bsize, unat ?n - unat bsize)#}"
      using g(3) by (simp add: it(1) item_exts_def unat_sub_word)
    with exts_ok_split [OF ok k] show ?thesis
      by (simp add: xs rest [OF gs(1)] rest [OF gs(2)] ac_simps add_mset_commute)
  qed
  ultimately show ?thesis using d by (simp add: mm_inv_def)
qed

lemma find_result:
  assumes "mm_inv lo hi s xs L" "findFreeRegion sz s = Some g" "g \<noteq> 0"
  shows "g \<in> set xs" "ml_type (items s g) = 0" "sz \<le> ml_size (items s g)"
proof -
  have "chain (items s) 0 (memorylist s) xs" using assms(1) by (simp add: mm_inv_def)
  with assms(2,3) have "find (\<lambda>a. region_fits sz (items s a)) xs = Some g"
    by (auto simp: findFreeRegion_def find_from_chain split: option.splits)
  then show "g \<in> set xs" "ml_type (items s g) = 0" "sz \<le> ml_size (items s g)"
    by (auto simp: find_Some_iff region_fits_def in_set_conv_nth)
qed

lemma find_total: "mm_inv lo hi s xs L \<Longrightarrow> \<exists>g. findFreeRegion sz s = Some g"
  by (auto simp: findFreeRegion_def mm_inv_def find_from_chain)

text \<open>
  The central lemma: an allocation of less than a page returns, and keeps the invariant;
  the block it hands out was free before. (When it fails the descriptor it has linked in
  stays in the list, unused.)
\<close>

lemma malloc_inv:
  assumes inv: "mm_inv lo hi s xs L" and small: "round_size sz < 4096"
  shows "\<exists>p t ys. malloc sz s = Some (p, t) \<and>
    (if p = 0 then mm_inv lo hi t ys L else mm_inv lo hi t ys (add_mset (unat p, unat (round_size sz)) L))"
proof -
  obtain f where f: "findFreeRegion 32 s = Some f" using find_total [OF inv] by blast
  show ?thesis
  proof (cases "f = 0")
    case True
    with f inv show ?thesis by (auto simp: malloc_def)
  next
    case False
    note ff = find_result [OF inv f False]
    obtain ys zs where xs: "xs = ys @ f # zs" using ff(1) by (auto simp: in_set_conv_decomp)
    let ?nd = "ml_base (items s f)" and ?u = "insert_descriptor f s"
    note ins = insert_descriptor_inv [OF inv [unfolded xs] ff(2,3)]
    obtain g where g: "findFreeRegion (round_size sz) ?u = Some g"
      using find_total [OF ins(1)] by blast
    show ?thesis
    proof (cases "g = 0")
      case True
      with f g False ins(1) show ?thesis by (auto simp: malloc_def Let_def)
    next
      case g0: False
      note gg = find_result [OF ins(1) g g0]
      let ?t = "take_block ?nd g (round_size sz) ?u"
      have t: "mm_inv lo hi ?t (ys @ ?nd # f # zs)
          (add_mset (unat (ml_base (items ?u g)), unat (round_size sz)) L)"
        by (rule take_block_inv [OF ins(1) small _ ins(2) gg]) simp
      have ne: "g \<noteq> ?nd" using ins(2) gg(2) by auto
      have p: "ml_base (items ?t ?nd) = ml_base (items ?u g)"
        using take_block_small(1) [OF small ne, of ?u] ne by simp
      have "unat (ml_base (items ?u g)) \<noteq> 0"
        using t by (auto simp: mm_inv_def exts_ok_def)
      then have "ml_base (items ?u g) \<noteq> 0" by auto
      moreover have "malloc sz s = Some (ml_base (items ?u g), ?t)"
        using f g False g0 p by (simp add: malloc_def Let_def)
      ultimately show ?thesis using t by (intro exI) auto
    qed
  qed
qed

section \<open>The contract of an allocator\<close>

text \<open>
  What a client of \<^verbatim>\<open>malloc\<close> relies on: a request within bounds returns, either with 0 or
  with a block that was not handed out before, and blocks that are handed out are disjoint.
\<close>

fun alloc_seq :: "('r \<Rightarrow> 's \<Rightarrow> (UINT64 \<times> 's) option) \<Rightarrow> 'r list \<Rightarrow> 's \<Rightarrow> (UINT64 list \<times> 's) option" where
  "alloc_seq alloc [] s = Some ([], s)"
| "alloc_seq alloc (r # rs) s = do {
     (p, t) \<leftarrow> alloc r s;
     (ps, u) \<leftarrow> alloc_seq alloc rs t;
     Some (p # ps, u) }"

definition blocks :: "('r \<Rightarrow> nat) \<Rightarrow> 'r list \<Rightarrow> UINT64 list \<Rightarrow> (nat \<times> nat) multiset" where
  "blocks len rs ps = mset (map (\<lambda>(r, p). (unat p, len r)) (filter (\<lambda>(r, p). p \<noteq> 0) (zip rs ps)))"

locale allocator =
  fixes alloc :: "'r \<Rightarrow> 's \<Rightarrow> (UINT64 \<times> 's) option"
    and inv :: "'s \<Rightarrow> (nat \<times> nat) multiset \<Rightarrow> bool"
    and len :: "'r \<Rightarrow> nat"
    and fit :: "'r \<Rightarrow> bool"
  assumes alloc_total: "inv s L \<Longrightarrow> fit r \<Longrightarrow> \<exists>p t. alloc r s = Some (p, t)"
    and alloc_inv: "inv s L \<Longrightarrow> fit r \<Longrightarrow> alloc r s = Some (p, t) \<Longrightarrow>
      inv t (if p = 0 then L else add_mset (unat p, len r) L)"
    and inv_apart: "inv s L \<Longrightarrow> apart L"
begin

lemma seq_inv:
  assumes "inv s L" "\<forall>r \<in> set rs. fit r"
  shows "\<exists>ps t. alloc_seq alloc rs s = Some (ps, t) \<and> length ps = length rs
    \<and> inv t (blocks len rs ps + L)"
  using assms
proof (induction rs arbitrary: s L)
  case Nil
  then show ?case by (simp add: blocks_def)
next
  case (Cons r rs)
  then obtain p t where p: "alloc r s = Some (p, t)" using alloc_total by fastforce
  with Cons.prems have "inv t (if p = 0 then L else add_mset (unat p, len r) L)"
    by (intro alloc_inv) auto
  from Cons.IH [OF this] Cons.prems(2) obtain ps u where
    u: "alloc_seq alloc rs t = Some (ps, u)" "length ps = length rs"
    and i: "inv u (blocks len rs ps + (if p = 0 then L else add_mset (unat p, len r) L))"
    by auto
  have "inv u (blocks len (r # rs) (p # ps) + L)"
    using i by (cases "p = 0") (simp_all add: blocks_def)
  with p u show ?case by (intro exI [of _ "p # ps"] exI [of _ u]) simp
qed

lemma seq_apart:
  assumes "inv s {#}" "\<forall>r \<in> set rs. fit r" "alloc_seq alloc rs s = Some (ps, t)"
  shows "apart (blocks len rs ps)"
  using seq_inv [OF assms(1,2)] assms(3) inv_apart by fastforce

end

text \<open>\<^verbatim>\<open>malloc\<close> fulfils it for requests below a page.\<close>

definition small_request :: "ULONG \<Rightarrow> bool" where
  "small_request sz \<longleftrightarrow> round_size sz < 4096"

interpretation ma: allocator malloc "\<lambda>s L. \<exists>xs. mm_inv lo hi s xs L"
  "\<lambda>sz. unat (round_size sz)" small_request for lo hi
proof
  fix s L r p t
  show "\<exists>xs. mm_inv lo hi s xs L \<Longrightarrow> small_request r \<Longrightarrow> \<exists>p t. malloc r s = Some (p, t)"
    using malloc_inv unfolding small_request_def by blast
  show "\<exists>xs. mm_inv lo hi s xs L \<Longrightarrow> small_request r \<Longrightarrow> malloc r s = Some (p, t) \<Longrightarrow>
      \<exists>xs. mm_inv lo hi t xs (if p = 0 then L else add_mset (unat p, unat (round_size r)) L)"
    using malloc_inv unfolding small_request_def by fastforce
  show "\<exists>xs. mm_inv lo hi s xs L \<Longrightarrow> apart L"
    by (auto simp: mm_inv_def exts_ok_def elim: apart_subset)
qed

lemma blocks_in_arena:
  assumes "mm_inv lo hi s xs L" "e \<in># L"
  shows "lo \<le> fst e \<and> fst e + snd e \<le> hi"
  using assms by (auto simp: mm_inv_def exts_ok_def)

section \<open>The initial list\<close>

lemma InitializeMM_inv:
  assumes "memorylist s \<noteq> 0" "unat (memorylist s) \<le> unat b"
    and "unat b + 32 + unat cpucount * 0x10000 \<le> 0x7fffff"
  shows "mm_inv (unat (memorylist s)) 0x7fffff (InitializeMM b cpucount s) [memorylist s] {#}"
proof -
  let ?n = "0x007fffff - cpucount * 0x10000 :: ULONG"
  have "unat (cpucount * 0x10000) = unat cpucount * 0x10000"
    using assms(3) by (simp add: unat_word_ariths)
  then have n: "unat ?n = 0x7fffff - unat cpucount * 0x10000"
    using assms(3) by (subst unat_sub) (simp_all add: word_le_nat_alt)
  have b: "unat (b + 32) = unat b + 32" using assms(3) unat_add_low [of b 32] by simp
  have "b + 32 \<le> ucast ?n" using assms(3) n b by (simp add: word_le_nat_alt unat_ucast32)
  then have "unat (ucast ?n - (b + 32)) = 0x7fffff - unat cpucount * 0x10000 - (unat b + 32)"
    using n b by (simp add: unat_sub_word unat_ucast32)
  then have "unat (ucast (ucast ?n - (b + 32)) :: ULONG)
      = 0x7fffff - unat cpucount * 0x10000 - (unat b + 32)"
    by (simp add: unsigned_ucast_eq take_bit_nat_eq_self_iff)
  then show ?thesis
    using assms b
    by (auto simp: mm_inv_def InitializeMM_def item_upd_def exts_ok_def item_exts_def apart_add
        ext_set_def unat_gt_0 simp flip: unat_gt_0)
qed


section \<open>Properties\<close>

text \<open>A heap as the hypervisor starts with: the list descriptor at 6 MB, one CPU.\<close>

definition sample_mm :: mm where
  "sample_mm = InitializeMM 0x600000 1
     \<lparr>memorylist = 0x600000, items = (\<lambda>_. \<lparr>ml_base = 0, ml_size = 0, ml_type = 0, ml_next = 0,
        ml_previous = 0\<rparr>)\<rparr>"

lemma sample_mm_inv: "mm_inv 0x600000 0x7fffff sample_mm [0x600000] {#}"
  unfolding sample_mm_def
  using InitializeMM_inv [of "\<lparr>memorylist = 0x600000, items = (\<lambda>_. \<lparr>ml_base = 0, ml_size = 0,
      ml_type = 0, ml_next = 0, ml_previous = 0\<rparr>)\<rparr>" "0x600000" 1] by simp





text \<open>
  C32: the search of \<^verbatim>\<open>findFreeRegion\<close> ends on every well-formed list and returns the first
  descriptor that fits, \<^verbatim>\<open>NULL\<close> when none does.
\<close>

theorem findFreeRegion_first_fit:
  assumes "chain (items s) 0 (memorylist s) xs"
  shows "findFreeRegion sz s
    = Some (case find (\<lambda>a. region_fits sz (items s a)) xs of None \<Rightarrow> 0 | Some a \<Rightarrow> a)"
  using find_from_chain [OF assms] by (simp add: findFreeRegion_def)

theorem findFreeRegion_first_fit_witness:
  "findFreeRegion 64 sample_mm
    = Some (case find (\<lambda>a. region_fits 64 (items sample_mm a)) [0x600000] of None \<Rightarrow> 0 | Some a \<Rightarrow> a)"
  by (rule findFreeRegion_first_fit) (use sample_mm_inv in \<open>simp add: mm_inv_def\<close>)


definition sample_used :: mm where
  "sample_used = \<lparr>memorylist = 0x600000, items = (\<lambda>_. \<lparr>ml_base = 0x601000, ml_size = 16,
     ml_type = 1, ml_next = 0, ml_previous = 0\<rparr>)\<rparr>"

lemma sample_used_inv: "mm_inv 0x600000 0x7fffff sample_used [0x600000] {#(0x601000, 16)#}"
  by (simp add: mm_inv_def sample_used_def exts_ok_def item_exts_def apart_add ext_set_def)


text \<open>
  The size computation of \<^verbatim>\<open>malloc\<close> wraps. A request for one of the three largest sizes
  is rounded up to 0 and served as a request for 4 bytes.
\<close>

theorem malloc_size_wraps:
  assumes "0xfffffffc < sz"
  shows "malloc sz s = malloc 4 s"
proof -
  have "unat sz < 2 ^ LENGTH(32)" by (rule unsigned_less)
  then have lt: "unat sz < 0x100000000" by simp
  have "unat sz = 0xfffffffd \<or> unat sz = 0xfffffffe \<or> unat sz = 0xffffffff"
    using assms lt by (auto simp: word_less_nat_alt)
  then have "sz = 0xfffffffd \<or> sz = 0xfffffffe \<or> sz = 0xffffffff"
    by (auto simp: word_unat_eq_iff)
  then have "round_size sz = round_size 4"
    by (auto simp: round_size_def)
  then show ?thesis by (simp only: malloc_def)
qed

theorem malloc_size_wraps_witness: "malloc 0xffffffff sample_mm = malloc 4 sample_mm"
  by (rule malloc_size_wraps) simp


lemma Max_insert_max:
  "finite S \<Longrightarrow> Max (insert (max a b) S) = Max (insert a (insert (b :: 'a::linorder) S))"
  by (cases "S = {}") (simp_all add: max.assoc)

lemma max_from_chain:
  "chain h prev p xs \<Longrightarrow> max_from h best p =
    (let S = set_option best \<union> {ml_size (h a) | a. a \<in> set xs \<and> ml_type (h a) = 0}
     in if S = {} then None else Some (Max S))"
proof (induction xs arbitrary: prev p best)
  case Nil
  then show ?case by (subst max_from.simps) (cases best; simp)
next
  case (Cons a xs)
  let ?S = "{ml_size (h b) | b. b \<in> set xs \<and> ml_type (h b) = 0}"
  let ?best = "if ml_type (h a) = 0 \<and> (case best of None \<Rightarrow> True | Some m \<Rightarrow> m < ml_size (h a))
    then Some (ml_size (h a)) else best"
  let ?T = "{ml_size (h b) | b. b \<in> set (a # xs) \<and> ml_type (h b) = 0}"
  have fin: "finite ?S" by simp
  have T: "?T = (if ml_type (h a) = 0 then insert (ml_size (h a)) ?S else ?S)" by auto
  have "max_from h best p = max_from h ?best (ml_next (h a))"
    using Cons.prems by (subst max_from.simps) auto
  also have "\<dots> = (let S = set_option ?best \<union> ?S in if S = {} then None else Some (Max S))"
    using Cons.prems by (intro Cons.IH [of a]) simp
  also have "\<dots> = (let S = set_option best \<union> ?T in if S = {} then None else Some (Max S))"
  proof (cases "ml_type (h a) = 0")
    case True
    show ?thesis
    proof (cases best)
      case None
      with True T show ?thesis by (simp add: Let_def)
    next
      case (Some m)
      have "?best = Some (max m (ml_size (h a)))" using True Some by (auto simp: max_def)
      then have "set_option ?best \<union> ?S = insert (max m (ml_size (h a))) ?S"
        by (simp only: option.set) simp
      moreover have "set_option best \<union> ?T = insert m (insert (ml_size (h a)) ?S)"
        using True Some T by (simp add: insert_commute)
      ultimately show ?thesis
        using Max_insert_max [OF fin, of m "ml_size (h a)"] by (simp only: Let_def) simp
    qed
  next
    case False
    then have "?T = ?S" by auto
    with False show ?thesis by (simp only: simp_thms if_False)
  qed
  finally show ?case .
qed

text \<open>
  \<^verbatim>\<open>maxAllocatableMemory\<close> is the size of the largest free region; with no free region
  the code dereferences a null pointer.
\<close>

theorem maxAllocatableMemory_largest:
  assumes "chain (items s) 0 (memorylist s) xs"
  shows "maxAllocatableMemory s =
    (let S = {ml_size (items s a) | a. a \<in> set xs \<and> ml_type (items s a) = 0}
     in if S = {} then None else Some (Max S))"
  using max_from_chain [OF assms, of None] by (simp add: maxAllocatableMemory_def)

theorem maxAllocatableMemory_largest_witness:
  "maxAllocatableMemory sample_used = None"
  using maxAllocatableMemory_largest [of sample_used "[0x600000]"] sample_used_inv
  by (simp add: mm_inv_def sample_used_def)

text \<open>
  Blocks of a page and more. When the skipped bytes before the page boundary get a
  descriptor of their own, they are not subtracted from the free region the block is taken
  from: the end of that region moves up by their number, past the memory it had.
\<close>

theorem take_block_page_overruns:
  assumes "4096 \<le> bsize" "36 \<le> page_difference (ml_base (items s g))"
    and "g \<noteq> nd" "ml_previous (items s nd) \<noteq> g" "ml_previous (items s nd) \<noteq> nd"
    and "ml_base (items s g) \<noteq> g" "ml_base (items s g) \<noteq> nd" "bsize \<le> ml_size (items s g)"
  shows "ml_base (items (take_block nd g bsize s) g) + ucast (ml_size (items (take_block nd g bsize s) g))
    = ml_base (items s g) + ucast (ml_size (items s g)) + ucast (page_difference (ml_base (items s g)))"
proof -
  have "ucast (ml_size (items s g) - bsize) = (ucast (ml_size (items s g)) - ucast bsize :: UINT64)"
    using assms(8) by (simp add: word_unat_eq_iff unat_ucast32 unat_sub_word word_le_nat_alt)
  then show ?thesis
    using assms
    by (simp add: take_block_def align_block_def item_upd_def Let_def algebra_simps)
qed

definition sample_page :: mm where
  "sample_page = \<lparr>memorylist = 0x600000, items = (\<lambda>a. if a = 0x600000
     then \<lparr>ml_base = 0x600100, ml_size = 0x10000, ml_type = 0, ml_next = 0, ml_previous = 0x5f0000\<rparr>
     else \<lparr>ml_base = 0, ml_size = 0, ml_type = 1, ml_next = 0x600000, ml_previous = 0\<rparr>)\<rparr>"

theorem take_block_page_overruns_witness:
  "ml_base (items (take_block 0x5f0000 0x600000 0x1000 sample_page) 0x600000)
     + ucast (ml_size (items (take_block 0x5f0000 0x600000 0x1000 sample_page) 0x600000))
    = ml_base (items sample_page 0x600000) + ucast (ml_size (items sample_page 0x600000))
      + ucast (page_difference (ml_base (items sample_page 0x600000)))
    \<and> page_difference (ml_base (items sample_page 0x600000)) = 0xf00"
  by (rule conjI, rule take_block_page_overruns)
    (simp_all add: sample_page_def page_difference_def)

end
