(* ===== verification/Machine.thy ===== *)
theory Machine
  imports Memory_Manager
begin

text \<open>
  The state one virtual CPU of the hypervisor works on: the guest's general purpose
  registers (\<^verbatim>\<open>VMRegisters\<close> of \<^verbatim>\<open>dbvm/vmm/vmmhelper.h\<close>), the fields of
  \<^verbatim>\<open>cpuinfo\<close> that the modelled code uses, the VMCS, and physical memory.
  \<open>vmread\<close> and \<open>vmwrite\<close> are the instructions of the same name: a VMCS field is
  addressed by its encoding (\<^verbatim>\<open>dbvm/vmm/vmreadwrite.h\<close>), bits 13 and 14 of which give
  the width the processor keeps.
\<close>

unbundle bit_operations_syntax

record VMRegisters =
  r15 :: UINT64
  r14 :: UINT64
  r13 :: UINT64
  r12 :: UINT64
  r11 :: UINT64
  r10 :: UINT64
  r9 :: UINT64
  r8 :: UINT64
  rbp :: UINT64
  rsi :: UINT64
  rdi :: UINT64
  rdx :: UINT64
  rcx :: UINT64
  rbx :: UINT64
  rax :: UINT64

text \<open>The Ultimap tracer of one CPU (\<^verbatim>\<open>currentcpuinfo->Ultimap\<close>).\<close>

record Ultimap =
  um_Active :: int
  um_CR3 :: UINT64
  um_DEBUGCTL :: UINT64
  um_DS_AREA :: UINT64
  um_OriginalDebugCTL :: UINT64
  um_OriginalDS_AREA :: UINT64
  um_CR3_switchcount :: UINT64
  um_CR3_switchcount2 :: UINT64
  um_LastOldCR3 :: UINT64
  um_LastNewCR3 :: UINT64

text \<open>
  The AMD control block \<^verbatim>\<open>vmcb\<close>: the members the event handlers and the vmcall interface
  use (the event injection bit fields one by one). The control registers, EFER and the CS
  attributes, which the paging code reads, are in \<open>cpuinfo\<close>.
\<close>

record vmcb =
  vmcb_RAX :: UINT64
  vmcb_RIP :: UINT64
  vmcb_RSP :: UINT64
  vmcb_RFLAGS :: UINT64
  vmcb_CR2 :: UINT64
  inject_Vector :: BYTE
  inject_Type :: BYTE
  inject_EV :: bool
  inject_Valid :: bool
  inject_ERRORCODE :: DWORD
  VMCB_CLEAN_BITS :: DWORD
  InterceptExceptions :: DWORD
  vmcb_CPL :: BYTE
  vmcb_cs_selector :: WORD
  vmcb_cs_limit :: DWORD
  vmcb_cs_base :: UINT64
  vmcb_ss_selector :: WORD
  vmcb_ss_attrib :: WORD
  vmcb_ss_limit :: DWORD
  vmcb_ss_base :: UINT64
  vmcb_gdtr_base :: UINT64
  vmcb_ldtr_selector :: WORD
  vmcb_tr_base :: UINT64
  vmcb_es_base :: UINT64
  vmcb_DR7 :: UINT64
  EXITCODE :: UINT64
  EXITINFO1 :: UINT64
  EXITINFO2 :: UINT64
  nRIP :: UINT64

text \<open>
  The CR3 edit callback (\<^verbatim>\<open>currentcpuinfo->cr3_callback\<close>). The members that hold the
  guest state saved before the callback are \<open>saved_regs\<close> and \<open>saved_field\<close>, the latter by
  the encoding of the VMCS field they were read from.
\<close>

record cr3_callback =
  called_callback :: int
  calling_convention :: int
  callback_cs :: WORD
  callback_ss :: WORD
  callback_rip :: UINT64
  callback_rsp :: UINT64
  saved_regs :: VMRegisters
  saved_field :: "nat \<Rightarrow> UINT64"

text \<open>The members of \<^verbatim>\<open>cpuinfo\<close> that the event handlers and the vmcall interface share.\<close>

record event_info =
  cpunr :: DWORD
  int1happened :: int
  int3happened :: int
  int14happened :: int
  sysenter_CS :: UINT64
  sysenter_EIP :: UINT64
  sysenter_ESP :: UINT64
  hidden_sysenter_modification :: int
  actual_sysenter_CS :: UINT64
  actual_sysenter_EIP :: UINT64
  actual_sysenter_ESP :: UINT64
  Previous_Interuptability_State :: UINT64
  Previous_CLI :: int
  IgnorePageFaults_Active :: int
  LastIgnoredPageFault :: UINT64
  callback :: cr3_callback
  guest_VM_HSAVE_PA :: UINT64
  vmcb :: vmcb

text \<open>
  The pointers into the virtual TLB are the addresses they hold.
\<close>

record cpuinfo =
  hasIF :: DWORD
  guestCR0 :: UINT64
  guestCR3 :: UINT64
  TSsegment :: WORD
  TSbase :: UINT64
  TSlimit :: DWORD
  TSaccessRights :: DWORD
  efer :: UINT64
  vmcb_CR0 :: UINT64
  vmcb_CR3 :: UINT64
  vmcb_CR4 :: UINT64
  vmcb_EFER :: UINT64
  vmcb_cs_attrib :: WORD
  virtualTLB :: UINT64
  virtualTLB_FreeSpot :: UINT64
  virtualTLB_Max :: DWORD
  virtualTLB_whiped :: int
  RealMode_IDTBase :: UINT64
  RealMode_IDTLimit :: WORD
  RealMode_GDTBase :: UINT64
  RealMode_GDTLimit :: WORD
  LastInterrupt :: BYTE
  cr3_change_callback :: int
  callback_newcr3 :: UINT64
  callback_changedcr3 :: int
  ultimap :: Ultimap
  info :: event_info

text \<open>
  The processor under the hypervisor, as far as an exit handler uses it: the control and debug
  registers that are not switched by the VMCS, the extended control registers, what CPUID
  answers for a leaf and subleaf (EAX, EBX, ECX, EDX), which MSRs exist (an access to another
  one faults), and the exception XSETBV raises under a CR4, if any.
\<close>

record hostcpu =
  hostCR2 :: UINT64
  hostCR4 :: UINT64
  hostDR6 :: UINT64
  xcr :: "ULONG \<Rightarrow> UINT64"
  cpuid_leaf :: "ULONG \<Rightarrow> ULONG \<Rightarrow> ULONG \<times> ULONG \<times> ULONG \<times> ULONG"
  msr_exists :: "DWORD \<Rightarrow> bool"
  xsetbv_fault :: "UINT64 \<Rightarrow> ULONG \<Rightarrow> UINT64 \<Rightarrow> BYTE option"

text \<open>
  A redirected interrupt (\<^verbatim>\<open>int1redirection\<close>, \<^verbatim>\<open>int1redirection_idtbypass\<close> and so
  on), an address range descriptor of the BIOS memory map, and the globals of the hypervisor.
\<close>

record redirection =
  redir_int :: int
  redir_idtbypass :: int
  redir_cs :: UINT64
  redir_rip :: UINT64

record ARD =
  BaseAddrLow :: ULONG
  BaseAddrHigh :: ULONG
  LengthLow :: ULONG
  LengthHigh :: ULONG
  ARD_Type :: ULONG

record dbvm_globals =
  Password1 :: ULONG
  Password2 :: ULONG
  dbvmversion :: ULONG
  redirect1 :: redirection
  redirect3 :: redirection
  redirect14 :: redirection
  fakeARD :: "nat \<Rightarrow> ARD"
  ARDcount :: int
  AMD_hasNRIPS :: int
  AMD_hasDecodeAssists :: int

text \<open>
  \<open>irqs\<close> is the environment: one entry for each time the hypervisor opens the interrupt
  window, \<open>Some n\<close> when interrupt \<open>n\<close> is delivered in it, \<open>None\<close> when none is
  (also once the list is used up).

  \<open>msr\<close> are the processor's model specific registers. \<open>pagedir\<close> is the hypervisor's own
  page directory, the table at \<^verbatim>\<open>pagedirvirtual\<close>, as 8-byte entries by their byte offset.
  \<open>heap\<close> is the state of its memory manager. The remaining fields are the globals of the
  same names.
\<close>

record machine =
  vmcs :: "nat \<Rightarrow> UINT64"
  regs :: VMRegisters
  cpu :: cpuinfo
  mem :: pmem
  isAMD :: bool
  vmmstart :: UINT64
  irqs :: "BYTE option list"
  msr :: "DWORD \<Rightarrow> UINT64"
  pagedir :: "UINT64 \<Rightarrow> UINT64"
  heap :: mm
  MSRBitmap :: "nat \<Rightarrow> BYTE"
  memorycloak :: bool
  nonpagedEmulationPagedir :: UINT64
  IA32_VMX_PROCBASED_CTLS :: UINT64
  IA32_VMX_CR0_FIXED0 :: UINT64
  IA32_VMX_CR0_FIXED1 :: UINT64
  IA32_VMX_CR4_FIXED0 :: UINT64
  host :: hostcpu
  globals :: dbvm_globals

section \<open>VMCS fields\<close>

abbreviation vm_guest_es :: nat where "vm_guest_es \<equiv> 0x800"
abbreviation vm_guest_cs :: nat where "vm_guest_cs \<equiv> 0x802"
abbreviation vm_guest_ss :: nat where "vm_guest_ss \<equiv> 0x804"
abbreviation vm_guest_ds :: nat where "vm_guest_ds \<equiv> 0x806"
abbreviation vm_guest_fs :: nat where "vm_guest_fs \<equiv> 0x808"
abbreviation vm_guest_gs :: nat where "vm_guest_gs \<equiv> 0x80a"
abbreviation vm_guest_tr :: nat where "vm_guest_tr \<equiv> 0x80e"
abbreviation vm_guest_IA32_DEBUGCTL :: nat where "vm_guest_IA32_DEBUGCTL \<equiv> 0x2802"
abbreviation vm_execution_controls_cpu :: nat where "vm_execution_controls_cpu \<equiv> 0x4002"
abbreviation vm_exit_instructionlength :: nat where "vm_exit_instructionlength \<equiv> 0x440c"
abbreviation vm_guest_ss_limit :: nat where "vm_guest_ss_limit \<equiv> 0x4804"
abbreviation vm_guest_tr_limit :: nat where "vm_guest_tr_limit \<equiv> 0x480e"
abbreviation vm_guest_gdt_limit :: nat where "vm_guest_gdt_limit \<equiv> 0x4810"
abbreviation vm_guest_idt_limit :: nat where "vm_guest_idt_limit \<equiv> 0x4812"
abbreviation vm_guest_ss_access_rights :: nat where "vm_guest_ss_access_rights \<equiv> 0x4818"
abbreviation vm_guest_ds_access_rights :: nat where "vm_guest_ds_access_rights \<equiv> 0x481a"
abbreviation vm_guest_fs_access_rights :: nat where "vm_guest_fs_access_rights \<equiv> 0x481c"
abbreviation vm_guest_gs_access_rights :: nat where "vm_guest_gs_access_rights \<equiv> 0x481e"
abbreviation vm_guest_tr_access_rights :: nat where "vm_guest_tr_access_rights \<equiv> 0x4822"
abbreviation vm_exit_qualification :: nat where "vm_exit_qualification \<equiv> 0x6400"
abbreviation vm_guest_cr0 :: nat where "vm_guest_cr0 \<equiv> 0x6800"
abbreviation vm_guest_tr_base :: nat where "vm_guest_tr_base \<equiv> 0x6814"
abbreviation vm_guest_gdtr_base :: nat where "vm_guest_gdtr_base \<equiv> 0x6816"
abbreviation vm_guest_idtr_base :: nat where "vm_guest_idtr_base \<equiv> 0x6818"
abbreviation vm_entry_controls :: nat where "vm_entry_controls \<equiv> 0x4012"
abbreviation vm_guest_es_limit :: nat where "vm_guest_es_limit \<equiv> 0x4800"
abbreviation vm_guest_cs_limit :: nat where "vm_guest_cs_limit \<equiv> 0x4802"
abbreviation vm_guest_es_access_rights :: nat where "vm_guest_es_access_rights \<equiv> 0x4814"
abbreviation vm_guest_cs_access_rights :: nat where "vm_guest_cs_access_rights \<equiv> 0x4816"
abbreviation vm_guest_interruptability_state :: nat where
  "vm_guest_interruptability_state \<equiv> 0x4824"
abbreviation vm_cr0_fakeread :: nat where "vm_cr0_fakeread \<equiv> 0x6004"
abbreviation vm_cr4_fakeread :: nat where "vm_cr4_fakeread \<equiv> 0x6006"
abbreviation vm_guest_cr3 :: nat where "vm_guest_cr3 \<equiv> 0x6802"
abbreviation vm_guest_cr4 :: nat where "vm_guest_cr4 \<equiv> 0x6804"
abbreviation vm_guest_es_base :: nat where "vm_guest_es_base \<equiv> 0x6806"
abbreviation vm_guest_cs_base :: nat where "vm_guest_cs_base \<equiv> 0x6808"
abbreviation vm_guest_ss_base :: nat where "vm_guest_ss_base \<equiv> 0x680a"
abbreviation vm_guest_ds_base :: nat where "vm_guest_ds_base \<equiv> 0x680c"
abbreviation vm_guest_fs_base :: nat where "vm_guest_fs_base \<equiv> 0x680e"
abbreviation vm_guest_gs_base :: nat where "vm_guest_gs_base \<equiv> 0x6810"
abbreviation vm_guest_rsp :: nat where "vm_guest_rsp \<equiv> 0x681c"
abbreviation vm_guest_rip :: nat where "vm_guest_rip \<equiv> 0x681e"
abbreviation vm_guest_rflags :: nat where "vm_guest_rflags \<equiv> 0x6820"

definition vm_width :: "nat \<Rightarrow> nat" where
  "vm_width f = (let w = f div 8192 mod 4 in if w = 0 then 16 else if w = 2 then 32 else 64)"

definition vmread :: "machine \<Rightarrow> nat \<Rightarrow> UINT64" where
  "vmread s f = vmcs s f"

definition vmwrite :: "nat \<Rightarrow> UINT64 \<Rightarrow> machine \<Rightarrow> machine" where
  "vmwrite f v s = s\<lparr>vmcs := (vmcs s)(f := take_bit (vm_width f) v)\<rparr>"

lemma vmread_vmwrite [simp]:
  "vmread (vmwrite f v s) g = (if f = g then take_bit (vm_width f) v else vmread s g)"
  by (simp add: vmread_def vmwrite_def)

lemma vmread_updates [simp]:
  "vmread (s\<lparr>regs := r\<rparr>) f = vmread s f"
  "vmread (s\<lparr>cpu := c\<rparr>) f = vmread s f"
  "vmread (s\<lparr>mem := m\<rparr>) f = vmread s f"
  "vmread (s\<lparr>irqs := i\<rparr>) f = vmread s f"
  "vmread (s\<lparr>msr := ms\<rparr>) f = vmread s f"
  "vmread (s\<lparr>pagedir := d\<rparr>) f = vmread s f"
  "vmread (s\<lparr>heap := h\<rparr>) f = vmread s f"
  "vmread (s\<lparr>MSRBitmap := mb\<rparr>) f = vmread s f"
  "vmread (s\<lparr>nonpagedEmulationPagedir := p\<rparr>) f = vmread s f"
  "vmread (s\<lparr>memorycloak := k\<rparr>) f = vmread s f"
  "vmread (s\<lparr>host := hc\<rparr>) f = vmread s f"
  "vmread (s\<lparr>globals := gl\<rparr>) f = vmread s f"
  by (simp_all add: vmread_def)

lemma vmwrite_fields [simp]:
  "regs (vmwrite f v s) = regs s"
  "cpu (vmwrite f v s) = cpu s"
  "mem (vmwrite f v s) = mem s"
  "isAMD (vmwrite f v s) = isAMD s"
  "vmmstart (vmwrite f v s) = vmmstart s"
  "irqs (vmwrite f v s) = irqs s"
  "msr (vmwrite f v s) = msr s"
  "pagedir (vmwrite f v s) = pagedir s"
  "heap (vmwrite f v s) = heap s"
  "MSRBitmap (vmwrite f v s) = MSRBitmap s"
  "memorycloak (vmwrite f v s) = memorycloak s"
  "nonpagedEmulationPagedir (vmwrite f v s) = nonpagedEmulationPagedir s"
  "IA32_VMX_PROCBASED_CTLS (vmwrite f v s) = IA32_VMX_PROCBASED_CTLS s"
  "IA32_VMX_CR0_FIXED0 (vmwrite f v s) = IA32_VMX_CR0_FIXED0 s"
  "IA32_VMX_CR0_FIXED1 (vmwrite f v s) = IA32_VMX_CR0_FIXED1 s"
  "IA32_VMX_CR4_FIXED0 (vmwrite f v s) = IA32_VMX_CR4_FIXED0 s"
  "host (vmwrite f v s) = host s"
  "globals (vmwrite f v s) = globals s"
  by (simp_all add: vmwrite_def)

text \<open>The natural-width fields keep all 64 bits.\<close>

lemma vm_width_natural [simp]:
  "vm_width 0x6004 = 64" "vm_width 0x6006 = 64" "vm_width 0x6802 = 64" "vm_width 0x6804 = 64"
  "vm_width 0x6806 = 64" "vm_width 0x6808 = 64" "vm_width 0x680a = 64" "vm_width 0x680c = 64"
  "vm_width 0x680e = 64" "vm_width 0x6810 = 64"
  "vm_width 0x6800 = 64" "vm_width 0x6814 = 64" "vm_width 0x6816 = 64" "vm_width 0x6818 = 64"
  "vm_width 0x681c = 64" "vm_width 0x681e = 64" "vm_width 0x6820 = 64"
  by (simp_all add: vm_width_def)

lemma vm_width_narrow [simp]:
  "vm_width 0x800 = 16" "vm_width 0x802 = 16" "vm_width 0x804 = 16" "vm_width 0x806 = 16"
  "vm_width 0x808 = 16" "vm_width 0x80a = 16"
  "vm_width 0x4824 = 32" "vm_width 0x4802 = 32" "vm_width 0x4012 = 32"
  by (simp_all add: vm_width_def)

lemma take_bit_64_word [simp]: "take_bit 64 (w :: UINT64) = w"
  by (rule bit_word_eqI) (auto simp: bit_simps)

section \<open>Processor mode\<close>

text \<open>\<^verbatim>\<open>ISREALMODE\<close>, \<^verbatim>\<open>IS64BITPAGING\<close> and \<^verbatim>\<open>IS64BITCODE\<close> of \<^verbatim>\<open>vmmhelper.c\<close>.\<close>

definition ISREALMODE :: "machine \<Rightarrow> bool" where
  "ISREALMODE s =
     (if isAMD s then \<not> bit (vmcb_CR0 (cpu s)) 0
      else vmread s vm_cr0_fakeread AND 1 = 0)"

definition IS64BITPAGING :: "machine \<Rightarrow> bool" where
  "IS64BITPAGING s =
     (if isAMD s then bit (vmcb_EFER (cpu s)) 10
      else vmread s vm_entry_controls AND push_bit 9 1 \<noteq> 0)"

definition IS64BITCODE :: "machine \<Rightarrow> bool" where
  "IS64BITCODE s =
     (if isAMD s then bit (vmcb_cs_attrib (cpu s)) 9
      else IS64BITPAGING s \<and> drop_bit 13 (vmread s vm_guest_cs_access_rights) AND 1 \<noteq> 0)"

end
