(* ===== verification/Paging.thy ===== *)
theory Paging
  imports Machine
begin

text \<open>
  Access to guest memory, \<^verbatim>\<open>dbvm/vmm/vmpaging.c\<close>: the walk of the guest's page tables
  (\<^verbatim>\<open>getPhysicalAddressVM\<close>), the copy loops \<^verbatim>\<open>ReadBytesFromPage\<close> and
  \<^verbatim>\<open>ReadVMMemory\<close>, and \<^verbatim>\<open>mapVMmemory\<close>, which maps guest pages into the
  hypervisor's own address space. The host page table that \<^verbatim>\<open>mapVMmemory\<close> fills is
  represented by the window it returns: the physical frames behind the returned pointer.

  Results are options: \<open>None\<close> is an access of the hypervisor outside the memory it has
  mapped (a fault in the hypervisor itself), or a loop that does not end.
\<close>

unbundle bit_operations_syntax

section \<open>Paging structures\<close>

text \<open>
  \<open>PFN_base n e\<close> is \<^verbatim>\<open>(UINT64)e.PFN << 12\<close> for an entry whose \<^verbatim>\<open>PFN\<close> bit field,
  which starts at bit 12, has \<open>n\<close> bits: 28 in \<^verbatim>\<open>_PDE_PAE\<close> and \<^verbatim>\<open>_PDPTE_PAE\<close>,
  24 in \<^verbatim>\<open>_PTE_PAE\<close>, 20 in the 32-bit \<^verbatim>\<open>_PDE\<close> and \<^verbatim>\<open>_PTE\<close>.
\<close>

definition PFN_base :: "nat \<Rightarrow> UINT64 \<Rightarrow> UINT64" where
  "PFN_base n e = push_bit 12 (take_bit n (drop_bit 12 e))"

definition entry_P :: "UINT64 \<Rightarrow> bool" where
  "entry_P e = bit e 0"

definition entry_PS :: "UINT64 \<Rightarrow> bool" where
  "entry_PS e = bit e 7"

text \<open>
  Entry \<open>idx\<close> of a table of 8-byte (4-byte) entries at physical address \<open>base\<close>, read
  through \<^verbatim>\<open>MapPhysicalMemory\<close>, which maps the 4 MB from \<open>base\<close> rounded down to 2 MB.
\<close>

definition tbl_entry64 :: "pmem \<Rightarrow> UINT64 \<Rightarrow> UINT64 \<Rightarrow> UINT64 option" where
  "tbl_entry64 m base idx =
     (if unat base mod 0x200000 + 8 * unat idx + 8 \<le> 0x400000
      then Some (le_word (map (\<lambda>j. m (base + 8 * idx + of_nat j)) [0..<8]))
      else None)"

definition tbl_entry32 :: "pmem \<Rightarrow> UINT64 \<Rightarrow> UINT64 \<Rightarrow> UINT64 option" where
  "tbl_entry32 m base idx =
     (if unat base mod 0x200000 + 4 * unat idx + 4 \<le> 0x400000
      then Some (le_word (map (\<lambda>j. m (base + 4 * idx + of_nat j)) [0..<4]))
      else None)"

section \<open>The page walk\<close>

text \<open>\<open>Some None\<close> is \<^verbatim>\<open>notpaged=1\<close>.\<close>

definition walk_64 :: "pmem \<Rightarrow> UINT64 \<Rightarrow> UINT64 \<Rightarrow> UINT64 option option" where
  "walk_64 m pagebase address = do {
     pml4e \<leftarrow> tbl_entry64 m pagebase (drop_bit 39 address AND 0x1ff);
     if \<not> entry_P pml4e then Some None else do {
       pdpte \<leftarrow> tbl_entry64 m (PFN_base 28 pml4e) (drop_bit 30 address AND 0x1ff);
       if \<not> entry_P pdpte then Some None else do {
         pde \<leftarrow> tbl_entry64 m (PFN_base 28 pdpte) (drop_bit 21 address AND 0x1ff);
         if \<not> entry_P pde then Some None
         else if entry_PS pde then Some (Some (PFN_base 28 pde + (address AND 0x1FFFFF)))
         else do {
           pte \<leftarrow> tbl_entry64 m (PFN_base 28 pde) (drop_bit 12 address AND 0x1ff);
           if entry_P pte then Some (Some (PFN_base 24 pte + (address AND 0xFFF)))
           else Some None }}}}"

definition walk_PAE :: "pmem \<Rightarrow> UINT64 \<Rightarrow> UINT64 \<Rightarrow> UINT64 option option" where
  "walk_PAE m pagebase address = do {
     pdpte \<leftarrow> tbl_entry64 m pagebase (drop_bit 30 address);
     if \<not> entry_P pdpte then Some None else do {
       pde \<leftarrow> tbl_entry64 m (PFN_base 28 pdpte) (drop_bit 21 address AND 0x1ff);
       if \<not> entry_P pde then Some None
       else if entry_PS pde then Some (Some (PFN_base 28 pde + (address AND 0x1FFFFF)))
       else do {
         pte \<leftarrow> tbl_entry64 m (PFN_base 28 pde) (drop_bit 12 address AND 0x1ff);
         if entry_P pte then Some (Some (PFN_base 24 pte + (address AND 0xFFF)))
         else Some None }}}"

definition walk_nonPAE :: "pmem \<Rightarrow> UINT64 \<Rightarrow> UINT64 \<Rightarrow> UINT64 option option" where
  "walk_nonPAE m pagebase address = do {
     pde \<leftarrow> tbl_entry32 m pagebase (take_bit 32 (drop_bit 22 address));
     if \<not> entry_P pde then Some None
     else if entry_PS pde then Some (Some (PFN_base 20 pde + (address AND 0x3FFFFF)))
     else do {
       pte \<leftarrow> tbl_entry32 m (PFN_base 20 pde) (drop_bit 12 address AND 0x3ff);
       if entry_P pte then Some (Some (PFN_base 20 pte + (address AND 0xFFF)))
       else Some None }}"

text \<open>
  The page table base: on Intel the guest's CR3 under protected mode with paging, else
  the emulated table; on AMD the address itself is physical when paging is off.
\<close>

definition getPhysicalAddressVM :: "machine \<Rightarrow> UINT64 \<Rightarrow> UINT64 option option" where
  "getPhysicalAddressVM s address =
     (let cr4 = (if isAMD s then vmcb_CR4 (cpu s) else vmread s vm_guest_cr4);
          cr0 = take_bit 32 (if isAMD s then vmcb_CR0 (cpu s) else vmread s vm_cr0_fakeread);
          pagebase = (if isAMD s then vmcb_CR3 (cpu s)
                      else if cr0 AND 0x80000001 = 0x80000001 then guestCR3 (cpu s)
                      else vmread s vm_guest_cr3)
      in if isAMD s \<and> \<not> bit cr0 31 then Some (Some address)
         else if IS64BITPAGING s then walk_64 (mem s) pagebase address
         else if bit cr4 5 then walk_PAE (mem s) pagebase address
         else walk_nonPAE (mem s) pagebase address)"

section \<open>Copying guest memory\<close>

text \<open>The bytes copied into \<^verbatim>\<open>buf\<close>; their number is the C result.\<close>

definition ReadBytesFromPage :: "machine \<Rightarrow> UINT64 \<Rightarrow> nat \<Rightarrow> BYTE list option" where
  "ReadBytesFromPage s address sz =
     (case getPhysicalAddressVM s address of
        None \<Rightarrow> None
      | Some None \<Rightarrow> Some []
      | Some (Some physicalAddress) \<Rightarrow>
          (let leftforthispage = min (0x1000 - unat (address AND 0xfff)) sz
           in Some (map (\<lambda>i. mem s (physicalAddress + of_nat i)) [0..<leftforthispage])))"

lemma ReadBytesFromPage_le: "ReadBytesFromPage s a sz = Some bs \<Longrightarrow> length bs \<le> sz"
  by (auto simp: ReadBytesFromPage_def Let_def split: option.splits)

function ReadVMMemory :: "machine \<Rightarrow> UINT64 \<Rightarrow> nat \<Rightarrow> BYTE list option" where
  "ReadVMMemory s address sz =
     (if sz = 0 then Some []
      else case ReadBytesFromPage s address sz of
        None \<Rightarrow> None
      | Some [] \<Rightarrow> Some []
      | Some (b # bs) \<Rightarrow>
          map_option (\<lambda>rest. (b # bs) @ rest)
            (ReadVMMemory s (address + of_nat (length (b # bs))) (sz - length (b # bs))))"
  by pat_completeness auto
termination
  by (relation "measure (\<lambda>(s, address, sz). sz)") auto

declare ReadVMMemory.simps [simp del]

section \<open>Windows on guest memory\<close>

text \<open>
  \<open>HostPtr p\<close> is a plain pointer into the hypervisor's address space, of which 0 to 4 MB
  is identity mapped (\<^verbatim>\<open>vmloaderc.c\<close>, \<^verbatim>\<open>main.c\<close>). \<open>Mapped off fs\<close> is the pointer
  \<^verbatim>\<open>VirtualAddress+off\<close> with the frames \<open>fs\<close> mapped from \<^verbatim>\<open>VirtualAddress\<close> on, in
  a page table of 512 entries.
\<close>

datatype window = HostPtr UINT64 | Mapped nat "UINT64 list"

fun win_pa :: "window \<Rightarrow> nat \<Rightarrow> UINT64 option" where
  "win_pa (HostPtr p) k = (if unat p + k < 0x400000 then Some (p + of_nat k) else None)"
| "win_pa (Mapped off fs) k =
     (let p = off + k; i = p div 4096
      in if i < length fs \<and> i < 512 then Some (fs ! i + of_nat (p mod 4096)) else None)"

definition win_read :: "pmem \<Rightarrow> window \<Rightarrow> nat \<Rightarrow> nat \<Rightarrow> BYTE list option" where
  "win_read m w k n = those (map (\<lambda>j. map_option m (win_pa w (k + j))) [0..<n])"

fun win_write :: "pmem \<Rightarrow> window \<Rightarrow> nat \<Rightarrow> BYTE list \<Rightarrow> pmem option" where
  "win_write m w k [] = Some m"
| "win_write m w k (b # bs) =
     (case win_pa w k of None \<Rightarrow> None | Some pa \<Rightarrow> win_write (m(pa := b)) w (Suc k) bs)"

text \<open>
  The fill loop of \<^verbatim>\<open>mapVMmemory\<close>. Its 64-bit cursor can wrap at the top of the address
  space, so it is given fuel; \<open>map_pages_enough\<close> below says the fuel suffices.
\<close>

fun map_pages :: "nat \<Rightarrow> machine \<Rightarrow> UINT64 \<Rightarrow> UINT64 \<Rightarrow> UINT64 list
    \<Rightarrow> (UINT64 option \<times> UINT64 list) option" where
  "map_pages 0 s cur lst fs = None"
| "map_pages (Suc n) s cur lst fs =
     (if cur < lst then
        (case getPhysicalAddressVM s cur of
           None \<Rightarrow> None
         | Some None \<Rightarrow> Some (Some cur, fs)
         | Some (Some pa) \<Rightarrow> map_pages n s (cur + 4096) lst (fs @ [page_base pa]))
      else Some (None, fs))"

text \<open>
  \<^verbatim>\<open>mapVMmemory\<close> takes a page of the virtual TLB for its page table, and starts the TLB
  over when fewer than two pages are left. The result is \<^verbatim>\<open>*error\<close>,
  \<^verbatim>\<open>*pagefaultaddress\<close>, the window and the new state. The state before
  \<^verbatim>\<open>allocateVirtualTLB\<close> has run (a NULL \<^verbatim>\<open>virtualTLB\<close>) is outside the model.
\<close>

definition mapVMmemory ::
  "machine \<Rightarrow> UINT64 \<Rightarrow> int \<Rightarrow> (int \<times> UINT64 \<times> window \<times> machine) option" where
  "mapVMmemory s address sz =
     (if virtualTLB (cpu s) = 0 then None
      else
        (let c = cpu s;
             availablememory = virtualTLB_Max c - ucast (virtualTLB_FreeSpot c - virtualTLB c)
         in if sz \<ge> 0x00200000 then Some (3, 0, HostPtr 0, s)
            else if virtualTLB_Max c < 4096 then Some (1, 0, HostPtr 0, s)
            else
              (let c1 = (if availablememory < 4096 * 2
                         then c\<lparr>virtualTLB_FreeSpot := virtualTLB c + 4096,
                                virtualTLB_whiped := 1\<rparr>
                         else c);
                   s2 = s\<lparr>cpu := c1\<lparr>virtualTLB_FreeSpot := virtualTLB_FreeSpot c1 + 4096\<rparr>\<rparr>
               in case map_pages 514 s2 (page_base address) (address + of_int sz) [] of
                    None \<Rightarrow> None
                  | Some (Some pf, fs) \<Rightarrow>
                      Some (2, pf, Mapped (unat (address AND 0xfff)) fs, s2)
                  | Some (None, fs) \<Rightarrow>
                      Some (0, 0, Mapped (unat (address AND 0xfff)) fs, s2))))"

section \<open>The walk, page by page\<close>

text \<open>
  Two addresses of one page are translated alike up to the offset in the page, and the
  start of a page is translated to the start of a frame.
\<close>

lemma mask_hex [simp]:
  "(a :: UINT64) AND 0xFFF = take_bit 12 a"
  "(a :: UINT64) AND 0x1FFFFF = take_bit 21 a"
  "(a :: UINT64) AND 0x3FFFFF = take_bit 22 a"
  by (simp_all add: take_bit_eq_mask mask_eq_exp_minus_1)

lemma page_base_alt: "page_base a = push_bit 12 (drop_bit 12 a)"
proof -
  have "(0xFFFFFFFFFFFFF000 :: UINT64) = NOT (mask 12)"
    by (simp add: mask_eq_exp_minus_1)
  then have "page_base a = a AND NOT (mask 12)"
    by (simp add: page_base_def)
  also have "\<dots> = push_bit 12 (drop_bit 12 a)"
    by (rule bit_word_eqI) (auto simp: bit_simps)
  finally show ?thesis .
qed

lemma drop_bit_page_base: "12 \<le> k \<Longrightarrow> drop_bit k (page_base a) = drop_bit k a"
  by (rule bit_word_eqI) (auto simp: page_base_alt bit_simps dest: bit_imp_le_length)

lemma take_bit_12_page_base [simp]: "take_bit 12 (page_base a) = 0"
  by (rule bit_word_eqI) (auto simp: page_base_alt bit_simps)

lemma take_bit_split:
  assumes "12 \<le> k"
  shows "take_bit k (a::UINT64) = take_bit k (page_base a) + take_bit 12 a"
proof -
  have "take_bit k (page_base a) AND take_bit 12 a = 0"
    by (rule bit_word_eqI) (auto simp: page_base_alt bit_simps)
  then have "take_bit k (page_base a) + take_bit 12 a = take_bit k (page_base a) OR take_bit 12 a"
    by (rule and_zero_add_eq_or)
  also have "\<dots> = take_bit k a"
    by (rule bit_word_eqI) (use assms in \<open>auto simp: page_base_alt bit_simps\<close>)
  finally show ?thesis by simp
qed

lemma page_base_split: "a = page_base a + take_bit 12 a"
  using take_bit_split [of 64 a] by simp

lemma page_base_eq_iff: "page_base p = p \<longleftrightarrow> take_bit 12 p = 0"
  using page_base_split [of p] by auto

lemma take_bit_12_PFN_base [simp]: "take_bit 12 (PFN_base n e) = 0"
  by (rule bit_word_eqI) (auto simp: PFN_base_def bit_simps)

lemma aligned_add: "take_bit 12 (x::UINT64) = 0 \<Longrightarrow> take_bit 12 y = 0 \<Longrightarrow> take_bit 12 (x + y) = 0"
proof -
  assume "take_bit 12 x = 0" and "take_bit 12 y = 0"
  then have "x + y = push_bit 12 (drop_bit 12 x + drop_bit 12 y)"
    by (simp add: push_bit_add flip: page_base_alt) (simp flip: page_base_eq_iff)
  then show ?thesis by (simp add: take_bit_push_bit)
qed

lemma aligned_take: "take_bit 12 (take_bit k (page_base a)) = 0"
  by (rule bit_word_eqI) (auto simp: page_base_alt bit_simps)

abbreviation offset_by :: "UINT64 \<Rightarrow> UINT64 option option \<Rightarrow> UINT64 option option" where
  "offset_by d \<equiv> map_option (map_option (\<lambda>p. p + d))"

lemma offset_bind: "offset_by d (Option.bind x f) = Option.bind x (\<lambda>y. offset_by d (f y))"
  by (cases x) simp_all

lemma offset_if: "offset_by d (if c then x else y) = (if c then offset_by d x else offset_by d y)"
  by simp

lemma walk_64_page: "walk_64 m b a = offset_by (take_bit 12 a) (walk_64 m b (page_base a))"
  using take_bit_split [of 21 a]
  by (simp add: walk_64_def drop_bit_page_base offset_bind offset_if add.assoc cong: if_cong)

lemma walk_PAE_page: "walk_PAE m b a = offset_by (take_bit 12 a) (walk_PAE m b (page_base a))"
  using take_bit_split [of 21 a]
  by (simp add: walk_PAE_def drop_bit_page_base offset_bind offset_if add.assoc cong: if_cong)

lemma walk_nonPAE_page:
  "walk_nonPAE m b a = offset_by (take_bit 12 a) (walk_nonPAE m b (page_base a))"
  using take_bit_split [of 22 a]
  by (simp add: walk_nonPAE_def drop_bit_page_base offset_bind offset_if add.assoc cong: if_cong)

lemma getPhysicalAddressVM_page:
  "getPhysicalAddressVM s a
    = offset_by (take_bit 12 a) (getPhysicalAddressVM s (page_base a))"
  using page_base_split [of a]
  by (simp add: getPhysicalAddressVM_def Let_def walk_64_page [of _ _ a]
      walk_PAE_page [of _ _ a] walk_nonPAE_page [of _ _ a])

lemma walk_aligned:
  "walk_64 m b (page_base a) = Some (Some p) \<Longrightarrow> take_bit 12 p = 0"
  "walk_PAE m b (page_base a) = Some (Some p) \<Longrightarrow> take_bit 12 p = 0"
  "walk_nonPAE m b (page_base a) = Some (Some p) \<Longrightarrow> take_bit 12 p = 0"
  by (auto simp: walk_64_def walk_PAE_def walk_nonPAE_def bind_Some_iff aligned_take
      intro!: aligned_add split: if_splits)

lemma getPhysicalAddressVM_aligned:
  assumes "getPhysicalAddressVM s (page_base a) = Some (Some p)"
  shows "page_base p = p"
  using assms
  by (auto simp: getPhysicalAddressVM_def Let_def page_base_eq_iff
      dest: walk_aligned split: if_splits)

section \<open>Reading guest memory\<close>

lemma unat_take_bit_12: "unat (take_bit 12 (a::UINT64)) = unat a mod 4096"
proof -
  have "unat (take_bit 12 a) = take_bit 12 (unat a)"
    by (rule unsigned_take_bit_eq)
  then show ?thesis by (simp add: take_bit_eq_mod)
qed

lemma unat_less_64: "unat (a::UINT64) < 18446744073709551616"
  using unsigned_less [of a] by simp

lemma unat_page_base: "unat (page_base a) = 4096 * (unat a div 4096)"
proof -
  have "take_bit 64 (unat a) = unat a"
    using unat_less_64 [of a] by (simp add: take_bit_nat_eq_self_iff)
  then have "unat (page_base a) = take_bit 64 (push_bit 12 (drop_bit 12 (unat a)))"
    by (simp add: page_base_alt unsigned_push_bit_eq unsigned_drop_bit_eq)
  also have "\<dots> = 4096 * (unat a div 4096) mod 18446744073709551616"
    by (simp add: push_bit_eq_mult drop_bit_eq_div take_bit_eq_mod mult.commute)
  also have "\<dots> = 4096 * (unat a div 4096)"
  proof (rule mod_less)
    have "4096 * (unat a div 4096) \<le> unat a" by simp
    with unat_less_64 [of a] show "4096 * (unat a div 4096) < 18446744073709551616"
      by (rule le_less_trans [rotated])
  qed
  finally show ?thesis .
qed

lemma page_no_overflow:
  assumes "unat (a::UINT64) mod 4096 + i < 4096"
  shows "unat a + i < 18446744073709551616"
proof -
  have "unat a div 4096 < 4503599627370496"
    using unat_less_64 [of a] by (simp add: div_less_iff_less_mult)
  moreover have "unat a = 4096 * (unat a div 4096) + unat a mod 4096" by simp
  ultimately show ?thesis using assms by linarith
qed

lemma page_base_same:
  assumes "unat a mod 4096 + i < 4096"
  shows "page_base (a + of_nat i) = page_base a"
    and "take_bit 12 (a + of_nat i) = take_bit 12 a + of_nat i"
    and "unat (a + of_nat i) = unat a + i"
proof -
  from assms have lt: "unat a + i < 18446744073709551616" by (rule page_no_overflow)
  then show u: "unat (a + of_nat i) = unat a + i"
    by (simp add: unat_word_ariths unat_of_nat mod_add_right_eq)
  have "unat a + i = (unat a mod 4096 + i) + (unat a div 4096) * 4096" by simp
  then have dv: "(unat a + i) div 4096 = unat a div 4096"
    and md: "(unat a + i) mod 4096 = unat a mod 4096 + i"
    using assms by (simp_all only: div_mult_self1 mod_mult_self1) simp_all
  show "page_base (a + of_nat i) = page_base a"
    by (simp add: word_unat_eq_iff unat_page_base u dv)
  have "unat (take_bit 12 (a + of_nat i)) = unat a mod 4096 + i"
    by (simp add: unat_take_bit_12 u md)
  moreover have "unat (take_bit 12 a + of_nat i) = unat a mod 4096 + i"
    using assms by (simp add: unat_word_ariths unat_take_bit_12 unat_of_nat mod_add_right_eq)
  ultimately show "take_bit 12 (a + of_nat i) = take_bit 12 a + of_nat i"
    by (simp add: word_unat_eq_iff)
qed

lemma getPhysicalAddressVM_in_page:
  assumes "getPhysicalAddressVM s a = Some (Some p)" and "unat a mod 4096 + i < 4096"
  shows "getPhysicalAddressVM s (a + of_nat i) = Some (Some (p + of_nat i))"
  using assms getPhysicalAddressVM_page [of s a] getPhysicalAddressVM_page [of s "a + of_nat i"]
  by (auto simp: page_base_same)

text \<open>The reference for a read: translate the address of every byte on its own.\<close>

definition guest_byte :: "machine \<Rightarrow> UINT64 \<Rightarrow> BYTE option" where
  "guest_byte s a = (case getPhysicalAddressVM s a of Some (Some p) \<Rightarrow> Some (mem s p) | _ \<Rightarrow> None)"

lemma ReadBytesFromPage_bytes:
  assumes "ReadBytesFromPage s a n = Some bs" and "i < length bs"
  shows "guest_byte s (a + of_nat i) = Some (bs ! i)"
  using assms
  by (auto simp: ReadBytesFromPage_def guest_byte_def Let_def unat_take_bit_12
      getPhysicalAddressVM_in_page split: option.splits)

lemma ReadBytesFromPage_Nil:
  assumes "ReadBytesFromPage s a n = Some []" and "0 < n"
  shows "getPhysicalAddressVM s a = Some None"
proof (rule ccontr)
  assume "getPhysicalAddressVM s a \<noteq> Some None"
  with assms(1) obtain p where "getPhysicalAddressVM s a = Some (Some p)"
    by (auto simp: ReadBytesFromPage_def split: option.splits)
  with assms(1) have "min (4096 - unat a mod 4096) n = 0"
    by (simp add: ReadBytesFromPage_def Let_def unat_take_bit_12)
  moreover have "unat a mod 4096 < 4096" by simp
  ultimately show False using assms(2) by (simp add: min_def split: if_splits)
qed

lemma ReadVMMemory_spec:
  assumes "ReadVMMemory s a n = Some bs"
  shows "length bs \<le> n
    \<and> (\<forall>i < length bs. guest_byte s (a + of_nat i) = Some (bs ! i))
    \<and> (length bs < n \<longrightarrow> getPhysicalAddressVM s (a + of_nat (length bs)) = Some None)"
  using assms
proof (induction s a n arbitrary: bs rule: ReadVMMemory.induct)
  case (1 s a n)
  show ?case
  proof (cases "n = 0")
    case True
    with "1.prems" show ?thesis by (simp add: ReadVMMemory.simps [of s a 0])
  next
    case False
    with "1.prems" obtain cs where cs: "ReadBytesFromPage s a n = Some cs"
      by (auto simp: ReadVMMemory.simps [of s a n] split: option.splits)
    show ?thesis
    proof (cases cs)
      case Nil
      with False "1.prems" cs show ?thesis
        by (simp add: ReadVMMemory.simps [of s a n] ReadBytesFromPage_Nil)
    next
      case (Cons b cs')
      with False "1.prems" cs obtain ds where
        ds: "ReadVMMemory s (a + of_nat (length cs)) (n - length cs) = Some ds"
        and bs: "bs = cs @ ds"
        by (auto simp: ReadVMMemory.simps [of s a n])
      have le: "length cs \<le> n" using cs by (rule ReadBytesFromPage_le)
      from "1.IH" [OF False cs Cons] ds Cons have IH:
        "length ds \<le> n - length cs"
        "\<forall>i < length ds. guest_byte s (a + of_nat (length cs) + of_nat i) = Some (ds ! i)"
        "length ds < n - length cs \<longrightarrow>
           getPhysicalAddressVM s (a + of_nat (length cs) + of_nat (length ds)) = Some None"
        by auto
      have "guest_byte s (a + of_nat i) = Some (bs ! i)" if "i < length bs" for i
      proof (cases "i < length cs")
        case True
        then show ?thesis using ReadBytesFromPage_bytes [OF cs] by (simp add: bs nth_append)
      next
        case False
        then have eq: "a + of_nat (length cs) + of_nat (i - length cs) = a + of_nat i"
          by simp
        have "guest_byte s (a + of_nat (length cs) + of_nat (i - length cs))
            = Some (ds ! (i - length cs))"
          by (rule IH(2) [rule_format]) (use that False bs in simp)
        moreover have "bs ! i = ds ! (i - length cs)"
          using False by (simp add: bs nth_append)
        ultimately show ?thesis by (simp only: eq)
      qed
      with IH(1,3) le show ?thesis by (auto simp: bs add.assoc)
    qed
  qed
qed

section \<open>Mapping guest memory\<close>

lemma those_eq_Some: "those xs = Some ys \<longleftrightarrow> xs = map Some ys"
proof (induction xs arbitrary: ys)
  case (Cons x xs)
  then show ?case by (cases ys) (auto split: option.splits)
qed auto

lemma getPhysicalAddressVM_cong:
  assumes "vmcs s = vmcs t" "mem s = mem t" "isAMD s = isAMD t"
    and "guestCR3 (cpu s) = guestCR3 (cpu t)"
    and "vmcb_CR0 (cpu s) = vmcb_CR0 (cpu t)" "vmcb_CR3 (cpu s) = vmcb_CR3 (cpu t)"
    and "vmcb_CR4 (cpu s) = vmcb_CR4 (cpu t)" "vmcb_EFER (cpu s) = vmcb_EFER (cpu t)"
  shows "getPhysicalAddressVM s = getPhysicalAddressVM t"
  by (rule ext)
    (simp add: getPhysicalAddressVM_def IS64BITPAGING_def vmread_def assms cong: if_cong)

lemma map_pages_frames:
  assumes "map_pages n s cur lst fs = Some (None, fs')"
    and "unat lst \<le> 18446744073709547520"
  shows "\<exists>gs. fs' = fs @ gs \<and> (\<forall>i. unat cur + 4096 * i < unat lst \<longrightarrow>
      i < length gs \<and> (\<exists>p. getPhysicalAddressVM s (cur + of_nat (4096 * i)) = Some (Some p)
        \<and> gs ! i = page_base p))"
  using assms(1)
proof (induction n arbitrary: cur fs)
  case 0
  then show ?case by simp
next
  case (Suc n)
  show ?case
  proof (cases "cur < lst")
    case False
    then have "unat lst \<le> unat cur" by (simp add: word_less_nat_alt)
    with False Suc.prems show ?thesis by auto
  next
    case True
    with Suc.prems obtain p where p: "getPhysicalAddressVM s cur = Some (Some p)"
      and rec: "map_pages n s (cur + 4096) lst (fs @ [page_base p]) = Some (None, fs')"
      by (auto split: option.splits)
    have "unat cur < unat lst" using True by (simp add: word_less_nat_alt)
    with assms(2) have u: "unat (cur + 4096) = unat cur + 4096"
      by (simp add: unat_word_ariths)
    from Suc.IH [OF rec] obtain gs where gs: "fs' = (fs @ [page_base p]) @ gs"
      and all: "\<And>i. unat cur + 4096 + 4096 * i < unat lst \<Longrightarrow> i < length gs \<and>
        (\<exists>q. getPhysicalAddressVM s (cur + 4096 + of_nat (4096 * i)) = Some (Some q)
          \<and> gs ! i = page_base q)"
      by (auto simp: u)
    have "i < length (page_base p # gs) \<and>
        (\<exists>q. getPhysicalAddressVM s (cur + of_nat (4096 * i)) = Some (Some q)
          \<and> (page_base p # gs) ! i = page_base q)"
      if "unat cur + 4096 * i < unat lst" for i
    proof (cases i)
      case 0
      with p show ?thesis by simp
    next
      case (Suc j)
      with that have "unat cur + 4096 + 4096 * j < unat lst" by simp
      from all [OF this] Suc show ?thesis by (simp add: add.assoc)
    qed
    with gs show ?thesis by (intro exI [of _ "page_base p # gs"]) simp
  qed
qed

lemma map_pages_not_paged:
  "map_pages n s cur lst fs = Some (Some pf, fs') \<Longrightarrow> getPhysicalAddressVM s pf = Some None"
  by (induction n arbitrary: cur fs) (auto split: if_splits option.splits)

text \<open>The fuel of \<^const>\<open>mapVMmemory\<close> is enough.\<close>

lemma map_pages_enough:
  assumes "unat lst \<le> unat cur + 4096 * n" and "unat lst \<le> 18446744073709547520"
    and "\<And>a. getPhysicalAddressVM s a \<noteq> None"
  shows "map_pages (Suc n) s cur lst fs \<noteq> None"
  using assms(1)
proof (induction n arbitrary: cur fs)
  case 0
  then show ?case using assms(3) by (auto simp: word_less_nat_alt)
next
  case (Suc n)
  show ?case
  proof (cases "cur < lst")
    case True
    then have "unat cur < unat lst" by (simp add: word_less_nat_alt)
    with assms(2) have "unat (cur + 4096) = unat cur + 4096"
      by (simp add: unat_word_ariths)
    with Suc.prems have "unat lst \<le> unat (cur + 4096) + 4096 * n" by simp
    from Suc.IH [OF this] assms(3) [of cur] True show ?thesis
      by (auto split: option.splits simp del: map_pages.simps(2) simp: map_pages.simps(2) [of "Suc n" s cur])
  qed simp
qed

definition window_ok :: "window \<Rightarrow> bool" where
  "window_ok w = (case w of HostPtr p \<Rightarrow> True | Mapped off fs \<Rightarrow> \<forall>f \<in> set fs. take_bit 12 f = 0)"

lemma page_base_idem [simp]: "page_base (page_base a) = page_base a"
  by (simp add: page_base_eq_iff)

lemma map_pages_window_ok:
  "map_pages n s cur lst fs = Some (r, fs') \<Longrightarrow> \<forall>f \<in> set fs. take_bit 12 f = 0 \<Longrightarrow>
    \<forall>f \<in> set fs'. take_bit 12 f = 0"
proof (induction n arbitrary: cur fs)
  case (Suc n)
  consider "fs' = fs" | pa where "map_pages n s (cur + 4096) lst (fs @ [page_base pa]) = Some (r, fs')"
    using Suc.prems(1) unfolding map_pages.simps
    by (auto simp only: option.inject prod.inject split: if_split_asm option.split_asm)
  then show ?case
  proof cases
    case (2 pa)
    have "\<forall>f \<in> set (fs @ [page_base pa]). take_bit 12 f = 0"
      using Suc.prems(2) take_bit_12_page_base [of pa] by auto
    with 2 show ?thesis by (rule Suc.IH)
  qed (use Suc.prems in simp)
qed simp

lemma aligned_offset:
  assumes "take_bit 12 (f::UINT64) = 0" and "j < 4096"
  shows "unat (f + of_nat j) mod 4096 = j"
proof -
  have "unat f mod 4096 = 0"
    using assms(1) unat_take_bit_12 [of f] by simp
  with assms(2) have "take_bit 12 (f + of_nat j) = take_bit 12 f + of_nat j"
    by (intro page_base_same(2)) simp
  then have "unat (take_bit 12 (f + of_nat j)) = j"
    using assms by (simp add: unat_of_nat)
  then show ?thesis by (simp only: unat_take_bit_12)
qed

lemma win_pa_Mapped_offset:
  assumes "window_ok (Mapped off fs)" and "win_pa (Mapped off fs) i = Some p"
  shows "unat p mod 4096 = (off + i) mod 4096"
  using assms
  by (auto simp: window_ok_def Let_def aligned_offset split: if_splits)

lemma mod_close_le:
  assumes "(a + i) mod 4096 = (a + j) mod (4096::nat)" "i \<le> j" "j < i + 4096"
  shows "i = j"
proof -
  have "4096 dvd (a + j) - (a + i)"
    using assms(1,2) by (subst mod_eq_dvd_iff_nat [symmetric]) simp_all
  then have "4096 dvd j - i" by simp
  with assms(2,3) show ?thesis using dvd_imp_le [of 4096 "j - i"] by linarith
qed

lemma mod_close:
  "(a + i) mod 4096 = (a + j) mod (4096::nat) \<Longrightarrow> i < j + 4096 \<Longrightarrow> j < i + 4096 \<Longrightarrow> i = j"
  using mod_close_le [of a i j] mod_close_le [of a j i] by (cases "i \<le> j") auto

lemma win_pa_inj:
  assumes "window_ok w" "win_pa w i = Some p" "win_pa w j = Some p"
    and "i < j + 4096" "j < i + 4096"
  shows "i = j"
proof (cases w)
  case (HostPtr q)
  with assms(2,3) have "unat q + i < 4194304" "unat q + j < 4194304"
    and "q + of_nat i = q + of_nat j"
    by (auto split: if_splits)
  then have "unat (of_nat i :: UINT64) = unat (of_nat j :: UINT64)" by simp
  with \<open>unat q + i < 4194304\<close> \<open>unat q + j < 4194304\<close> show ?thesis
    by (simp add: unat_of_nat)
next
  case (Mapped off fs)
  with assms(1-3) have "(off + i) mod 4096 = (off + j) mod 4096"
    using win_pa_Mapped_offset by metis
  then show ?thesis using assms(4,5) by (rule mod_close)
qed

lemma win_write_spec:
  assumes "win_write m w k bs = Some m'" and "window_ok w" and "length bs \<le> 4096"
  shows "(\<forall>j < length bs. \<exists>p. win_pa w (k + j) = Some p \<and> m' p = bs ! j)
    \<and> (\<forall>p. (\<forall>j < length bs. win_pa w (k + j) \<noteq> Some p) \<longrightarrow> m' p = m p)"
  using assms(1,3)
proof (induction bs arbitrary: m k)
  case Nil
  then show ?case by simp
next
  case (Cons b bs)
  then obtain q where q: "win_pa w k = Some q"
    and rec: "win_write (m(q := b)) w (Suc k) bs = Some m'"
    by (auto split: option.splits)
  have IH: "\<forall>j < length bs. \<exists>p. win_pa w (Suc k + j) = Some p \<and> m' p = bs ! j"
    and frame: "\<And>p. (\<forall>j < length bs. win_pa w (Suc k + j) \<noteq> Some p) \<Longrightarrow> m' p = (m(q := b)) p"
    using Cons.IH [OF rec] Cons.prems(2) by auto
  have fresh: "win_pa w (Suc k + j) \<noteq> Some q" if "j < length bs" for j
    using win_pa_inj [OF assms(2) q, of "Suc k + j"] that Cons.prems(2) by fastforce
  then have "m' q = b" using frame [of q] by simp
  then have "\<exists>p. win_pa w (k + j) = Some p \<and> m' p = (b # bs) ! j" if "j < length (b # bs)" for j
    using IH q that by (cases j) auto
  moreover have "m' p = m p" if out: "\<forall>j < length (b # bs). win_pa w (k + j) \<noteq> Some p" for p
  proof -
    have "p \<noteq> q" using out [rule_format, of 0] q by auto
    moreover have "win_pa w (Suc k + j) \<noteq> Some p" if "j < length bs" for j
      using out [rule_format, of "Suc j"] that by simp
    ultimately show ?thesis using frame [of p] by simp
  qed
  ultimately show ?case by blast
qed

lemma win_read_write:
  assumes "win_write m w k bs = Some m'" "window_ok w" "length bs \<le> 4096"
  shows "win_read m' w k (length bs) = Some bs"
  unfolding win_read_def those_eq_Some
  by (rule nth_equalityI) (use win_write_spec [OF assms] in fastforce)+


lemma mapVMmemory_state:
  assumes "mapVMmemory s a sz = Some (e, pf, w, s')"
  shows "getPhysicalAddressVM s' = getPhysicalAddressVM s" and "mem s' = mem s"
    and "vmcs s' = vmcs s" and "regs s' = regs s" and "irqs s' = irqs s"
    and "isAMD s' = isAMD s" and "vmmstart s' = vmmstart s"
  using assms
  by (auto simp: mapVMmemory_def Let_def split: if_splits option.splits
      intro!: getPhysicalAddressVM_cong)

lemma mapVMmemory_window_ok:
  assumes "mapVMmemory s a sz = Some (e, pf, w, s')"
  shows "window_ok w"
  using assms
  by (auto simp: mapVMmemory_def Let_def window_ok_def
      dest!: map_pages_window_ok split: if_splits option.splits)

lemma mapVMmemory_ok_cases:
  assumes "mapVMmemory s a sz = Some (0, pf, w, s')"
  obtains fs where "w = Mapped (unat a mod 4096) fs"
    and "map_pages 514 s' (page_base a) (a + of_int sz) [] = Some (None, fs)"
  using assms
  by (auto simp: mapVMmemory_def Let_def unat_take_bit_12 split: if_splits option.splits)

lemma page_base_add_page:
  assumes "unat (a::UINT64) + k < 18446744073709551616"
  shows "page_base (a + of_nat k) = page_base a + of_nat (4096 * ((unat a mod 4096 + k) div 4096))"
    and "take_bit 12 (a + of_nat k) = of_nat ((unat a mod 4096 + k) mod 4096)"
proof -
  let ?i = "(unat a mod 4096 + k) div 4096"
  from assms have u: "unat (a + of_nat k) = unat a + k"
    by (simp add: unat_word_ariths unat_of_nat mod_add_right_eq)
  have "unat a + k = (unat a mod 4096 + k) + (unat a div 4096) * 4096" by simp
  then have dv: "(unat a + k) div 4096 = unat a div 4096 + ?i"
    by (simp only: div_mult_self1)
  have le: "4096 * (unat a div 4096) + 4096 * ?i \<le> unat a + k"
    using dv [symmetric] by (simp add: distrib_left [symmetric])
  then have "unat (page_base a + of_nat (4096 * ?i)) = 4096 * (unat a div 4096) + 4096 * ?i"
    using assms by (simp add: unat_word_ariths unat_of_nat unat_page_base mod_add_right_eq
        del: of_nat_mult)
  then show "page_base (a + of_nat k) = page_base a + of_nat (4096 * ?i)"
    by (simp add: word_unat_eq_iff unat_page_base u dv distrib_left)
  have "unat (take_bit 12 (a + of_nat k)) = (unat a mod 4096 + k) mod 4096"
    by (simp add: unat_take_bit_12 u mod_add_left_eq)
  then show "take_bit 12 (a + of_nat k) = of_nat ((unat a mod 4096 + k) mod 4096)"
    by (simp add: word_unat_eq_iff unat_of_nat)
qed

lemma mapVMmemory_translates:
  assumes ok: "mapVMmemory s a sz = Some (0, pf, w, s')"
    and sz: "sz \<le> 0x1ff000" and lim: "unat a + nat sz \<le> 18446744073709547520"
    and k: "k < nat sz"
  shows "\<exists>p. getPhysicalAddressVM s (a + of_nat k) = Some (Some p) \<and> win_pa w k = Some p"
proof -
  let ?i = "(unat a mod 4096 + k) div 4096"
  obtain fs where w: "w = Mapped (unat a mod 4096) fs"
    and mp: "map_pages 514 s' (page_base a) (a + of_int sz) [] = Some (None, fs)"
    using ok by (rule mapVMmemory_ok_cases)
  have "a + of_int sz = a + of_nat (nat sz)" using k by simp
  then have last: "unat (a + of_int sz) = unat a + nat sz"
    using lim by (simp add: unat_word_ariths unat_of_nat mod_add_right_eq del: of_nat_nat)
  have "4096 * (unat a div 4096) + 4096 * ?i \<le> unat a + k"
  proof -
    have "4096 * ?i \<le> unat a mod 4096 + k" by simp
    moreover have "4096 * (unat a div 4096) + unat a mod 4096 = unat a" by simp
    ultimately show ?thesis by linarith
  qed
  with k have "unat (page_base a) + 4096 * ?i < unat (a + of_int sz)"
    by (simp add: last unat_page_base)
  with map_pages_frames [OF mp] lim obtain p where i: "?i < length fs"
    and p: "getPhysicalAddressVM s' (page_base a + of_nat (4096 * ?i)) = Some (Some p)"
    and fsi: "fs ! ?i = page_base p"
    by (auto simp: last)
  have lt: "unat a + k < 18446744073709551616" using lim k by linarith
  note pg = page_base_add_page [OF lt]
  from p pg(1) have p': "getPhysicalAddressVM s (page_base (a + of_nat k)) = Some (Some p)"
    by (simp add: mapVMmemory_state(1) [OF ok])
  then have "page_base p = p" by (rule getPhysicalAddressVM_aligned)
  moreover have "unat a mod 4096 < 4096" by simp
  then have "?i < 512" using sz k by linarith
  ultimately show ?thesis
    using getPhysicalAddressVM_page [of s "a + of_nat k"] p' pg(2) i fsi
    by (simp add: w Let_def)
qed

definition tlb_ready :: "machine \<Rightarrow> bool" where
  "tlb_ready s = (virtualTLB (cpu s) \<noteq> 0 \<and> 4096 \<le> virtualTLB_Max (cpu s))"

definition guest_mapped :: "machine \<Rightarrow> UINT64 \<Rightarrow> nat \<Rightarrow> bool" where
  "guest_mapped s a n \<longleftrightarrow> unat a + n \<le> 18446744073709547520 \<and>
     (\<forall>k < n. \<exists>p. getPhysicalAddressVM s (a + of_nat k) = Some (Some p))"

lemma map_pages_total:
  assumes "unat lst \<le> unat cur + 4096 * n" and "unat lst \<le> 18446744073709547520"
    and "\<And>i. unat cur + 4096 * i < unat lst \<Longrightarrow>
      \<exists>p. getPhysicalAddressVM s (cur + of_nat (4096 * i)) = Some (Some p)"
  shows "\<exists>fs'. map_pages (Suc n) s cur lst fs = Some (None, fs')"
  using assms(1,3)
proof (induction n arbitrary: cur fs)
  case 0
  then show ?case by (simp add: word_less_nat_alt)
next
  case (Suc n)
  show ?case
  proof (cases "cur < lst")
    case True
    then have lt: "unat cur < unat lst" by (simp add: word_less_nat_alt)
    with assms(2) have u: "unat (cur + 4096) = unat cur + 4096"
      by (simp add: unat_word_ariths)
    obtain p where p: "getPhysicalAddressVM s cur = Some (Some p)"
      using Suc.prems(2) [of 0] lt by auto
    have "\<exists>fs'. map_pages (Suc n) s (cur + 4096) lst (fs @ [page_base p]) = Some (None, fs')"
    proof (rule Suc.IH)
      show "unat lst \<le> unat (cur + 4096) + 4096 * n" using Suc.prems(1) u by simp
      fix i assume "unat (cur + 4096) + 4096 * i < unat lst"
      then have "unat cur + 4096 * Suc i < unat lst" by (simp add: u)
      from Suc.prems(2) [OF this]
      show "\<exists>p. getPhysicalAddressVM s (cur + 4096 + of_nat (4096 * i)) = Some (Some p)"
        by (simp add: add.assoc)
    qed
    then show ?thesis
      by (simp only: map_pages.simps(2) [of "Suc n" s cur] p True if_True option.case)
  qed simp
qed

lemma guest_mapped_page:
  assumes "guest_mapped s a n" and "0 < n" and "unat (page_base a) + 4096 * i < unat a + n"
  shows "\<exists>p. getPhysicalAddressVM s (page_base a + of_nat (4096 * i)) = Some (Some p)"
proof (cases "i = 0")
  case True
  have "\<exists>p. getPhysicalAddressVM s (a + of_nat 0) = Some (Some p)"
    using assms(1,2) unfolding guest_mapped_def by blast
  with True getPhysicalAddressVM_page [of s a] show ?thesis by auto
next
  case False
  let ?k = "unat (page_base a) + 4096 * i - unat a"
  have "unat a = 4096 * (unat a div 4096) + unat a mod 4096" by simp
  moreover have "unat a mod 4096 < 4096" by simp
  ultimately have ge: "unat a < unat (page_base a) + 4096 * i"
    using False unat_page_base [of a] by (cases i) auto
  with assms(3) have "?k < n" by simp
  with assms(1) obtain p where "getPhysicalAddressVM s (a + of_nat ?k) = Some (Some p)"
    unfolding guest_mapped_def by blast
  moreover have "a + of_nat ?k = page_base a + of_nat (4096 * i)"
    using ge by (simp add: of_nat_diff)
  ultimately show ?thesis by (simp only: ) blast
qed

text \<open>Mapping a range of guest memory that is paged in succeeds.\<close>

lemma mapVMmemory_total:
  assumes "tlb_ready s" "guest_mapped s a n" "0 < n" "n \<le> 0x1ff000"
  shows "\<exists>w s'. mapVMmemory s a (int n) = Some (0, 0, w, s') \<and> tlb_ready s'"
proof -
  have lim: "unat a + n \<le> 18446744073709547520"
    using assms(2) by (simp add: guest_mapped_def)
  then have last: "unat (a + of_nat n) = unat a + n"
    by (simp add: unat_word_ariths unat_of_nat mod_add_right_eq)
  have pages: "\<exists>fs. map_pages 514 t (page_base a) (a + of_nat n) [] = Some (None, fs)"
    if "getPhysicalAddressVM t = getPhysicalAddressVM s" for t
  proof -
    have "\<exists>fs. map_pages (Suc 513) t (page_base a) (a + of_nat n) [] = Some (None, fs)"
    proof (rule map_pages_total)
      have "unat a = 4096 * (unat a div 4096) + unat a mod 4096" by simp
      moreover have "unat a mod 4096 < 4096" by simp
      ultimately show "unat (a + of_nat n) \<le> unat (page_base a) + 4096 * 513"
        using assms(4) unat_page_base [of a] last by linarith
      show "unat (a + of_nat n) \<le> 18446744073709547520" using lim last by simp
      show "\<exists>p. getPhysicalAddressVM t (page_base a + of_nat (4096 * i)) = Some (Some p)"
        if "unat (page_base a) + 4096 * i < unat (a + of_nat n)" for i
        using guest_mapped_page [OF assms(2,3)] that last \<open>getPhysicalAddressVM t = _\<close> by simp
    qed
    then show ?thesis by simp
  qed
  have [simp]: "\<And>c. getPhysicalAddressVM (s\<lparr>cpu := (cpu s)\<lparr>virtualTLB_FreeSpot := c\<rparr>\<rparr>)
      = getPhysicalAddressVM s"
    "\<And>c b. getPhysicalAddressVM (s\<lparr>cpu := (cpu s)\<lparr>virtualTLB_whiped := b,
        virtualTLB_FreeSpot := c\<rparr>\<rparr>) = getPhysicalAddressVM s"
    by (rule getPhysicalAddressVM_cong; simp)+
  show ?thesis
    using assms(1,4)
      pages [of "s\<lparr>cpu := (cpu s)\<lparr>virtualTLB_FreeSpot := virtualTLB_FreeSpot (cpu s) + 4096\<rparr>\<rparr>"]
      pages [of "s\<lparr>cpu := (cpu s)\<lparr>virtualTLB_whiped := 1,
        virtualTLB_FreeSpot := 8192 + virtualTLB (cpu s)\<rparr>\<rparr>"]
    by (auto simp: mapVMmemory_def tlb_ready_def Let_def not_less)
qed

lemma mapVMmemory_bytes:
  assumes ok: "mapVMmemory s a (int n) = Some (0, pf, w, s')" and "guest_mapped s a n"
    and "n \<le> 0x1ff000" and "k < n"
  shows "win_pa w k = (case getPhysicalAddressVM s (a + of_nat k) of Some x \<Rightarrow> x | None \<Rightarrow> None)"
    and "\<exists>p. win_pa w k = Some p"
proof -
  have "unat a + nat (int n) \<le> 18446744073709547520"
    using assms(2) by (simp add: guest_mapped_def)
  with mapVMmemory_translates [OF ok _ this, of k] assms(3,4)
  obtain p where "getPhysicalAddressVM s (a + of_nat k) = Some (Some p)" "win_pa w k = Some p"
    by auto
  then show "win_pa w k = (case getPhysicalAddressVM s (a + of_nat k) of Some x \<Rightarrow> x | None \<Rightarrow> None)"
    and "\<exists>p. win_pa w k = Some p" by simp_all
qed

lemma win_write_total:
  "(\<And>j. j < length bs \<Longrightarrow> \<exists>p. win_pa w (k + j) = Some p) \<Longrightarrow> \<exists>m'. win_write m w k bs = Some m'"
proof (induction bs arbitrary: m k)
  case (Cons b bs)
  from Cons.prems [of 0] obtain p where p: "win_pa w k = Some p" by auto
  have "\<exists>m'. win_write (m(p := b)) w (Suc k) bs = Some m'"
  proof (rule Cons.IH)
    fix j assume "j < length bs"
    with Cons.prems [of "Suc j"] show "\<exists>p. win_pa w (Suc k + j) = Some p" by simp
  qed
  with p show ?case by simp
qed simp

text \<open>
  The paging structures that translate a range do not lie in the memory the range maps to.
\<close>

definition tables_apart :: "machine \<Rightarrow> UINT64 \<Rightarrow> nat \<Rightarrow> bool" where
  "tables_apart s a n \<longleftrightarrow>
     (\<forall>m'. (\<forall>p. (\<forall>k < n. getPhysicalAddressVM s (a + of_nat k) \<noteq> Some (Some p)) \<longrightarrow> m' p = mem s p)
        \<longrightarrow> (\<forall>k < n. getPhysicalAddressVM (s\<lparr>mem := m'\<rparr>) (a + of_nat k)
                 = getPhysicalAddressVM s (a + of_nat k)))"

text \<open>
  Writing a range through a window and reading the range back, through the page tables as
  they are after the write.
\<close>

lemma guest_write_read:
  assumes ok: "mapVMmemory s a (int n) = Some (0, pf, w, s1)"
    and mapped: "guest_mapped s a n" and apart: "tables_apart s a n"
    and n: "length bs = n" "n \<le> 4096"
    and wr: "win_write (mem s1) w 0 bs = Some m'"
    and k: "k < n"
  shows "getPhysicalAddressVM (s\<lparr>mem := m'\<rparr>) (a + of_nat k) = getPhysicalAddressVM s (a + of_nat k)"
    and "guest_byte (s\<lparr>mem := m'\<rparr>) (a + of_nat k) = Some (bs ! k)"
proof -
  have n': "n \<le> 0x1ff000" using n(2) by simp
  note wb = mapVMmemory_bytes [OF ok mapped n']
  note spec = win_write_spec [OF wr mapVMmemory_window_ok [OF ok]]
  have "m' p = mem s p"
    if "\<forall>k < n. getPhysicalAddressVM s (a + of_nat k) \<noteq> Some (Some p)" for p
  proof -
    have "\<forall>j < n. win_pa w j \<noteq> Some p"
      using that wb by (auto split: option.splits)
    then show ?thesis
      using spec n mapVMmemory_state(2) [OF ok] by simp
  qed
  with apart k show st: "getPhysicalAddressVM (s\<lparr>mem := m'\<rparr>) (a + of_nat k)
      = getPhysicalAddressVM s (a + of_nat k)"
    unfolding tables_apart_def by blast
  obtain p where p: "win_pa w k = Some p" using wb(2) [OF k] by blast
  then have "getPhysicalAddressVM s (a + of_nat k) = Some (Some p)"
    using wb(1) [OF k] by (auto split: option.splits)
  moreover have "m' p = bs ! k" using spec n k p by fastforce
  ultimately show "guest_byte (s\<lparr>mem := m'\<rparr>) (a + of_nat k) = Some (bs ! k)"
    by (simp add: guest_byte_def st)
qed

lemma win_read_guest:
  assumes ok: "mapVMmemory s a (int n) = Some (0, pf, w, s1)"
    and mapped: "guest_mapped s a n" and n: "n \<le> 0x1ff000"
    and bytes: "\<And>k. k < n \<Longrightarrow> guest_byte s (a + of_nat k) = Some (bs ! k)"
    and len: "length bs = n"
  shows "win_read (mem s1) w 0 n = Some bs"
  unfolding win_read_def those_eq_Some
proof (rule nth_equalityI)
  fix k assume "k < length (map (\<lambda>j. map_option (mem s1) (win_pa w (0 + j))) [0..<n])"
  then have k: "k < n" by simp
  obtain p where p: "win_pa w k = Some p"
    using mapVMmemory_bytes(2) [OF ok mapped n k] by blast
  then have "getPhysicalAddressVM s (a + of_nat k) = Some (Some p)"
    using mapVMmemory_bytes(1) [OF ok mapped n k] by (auto split: option.splits)
  with bytes [OF k] have "mem s p = bs ! k" by (simp add: guest_byte_def)
  with p k len show "map (\<lambda>j. map_option (mem s1) (win_pa w (0 + j))) [0..<n] ! k = map Some bs ! k"
    by (simp add: mapVMmemory_state(2) [OF ok])
qed (simp add: len)

section \<open>A sample machine\<close>

text \<open>
  A real-mode guest on Intel hardware before paging is enabled: the emulated page directory
  at \<open>0x100000\<close> maps the first 4 MB onto themselves with one large page. It is the
  concrete input of the instances below and in the emulator theories.
\<close>

definition sample_mem :: pmem where
  "sample_mem = (\<lambda>_. 0)(0x100000 := 0x83)"

definition sample_vmcb :: vmcb where
  "sample_vmcb = \<lparr>vmcb_RAX = 0, vmcb_RIP = 0, vmcb_RSP = 0, vmcb_RFLAGS = 2, vmcb_CR2 = 0,
     inject_Vector = 0, inject_Type = 0, inject_EV = False, inject_Valid = False,
     inject_ERRORCODE = 0, VMCB_CLEAN_BITS = 0, InterceptExceptions = 0, vmcb_CPL = 0,
     vmcb_cs_selector = 0, vmcb_cs_limit = 0, vmcb_cs_base = 0, vmcb_ss_selector = 0,
     vmcb_ss_attrib = 0, vmcb_ss_limit = 0, vmcb_ss_base = 0, vmcb_gdtr_base = 0,
     vmcb_ldtr_selector = 0, vmcb_tr_base = 0, vmcb_es_base = 0, vmcb_DR7 = 0x400,
     EXITCODE = 0, EXITINFO1 = 0, EXITINFO2 = 0, nRIP = 0\<rparr>"

definition sample_info :: event_info where
  "sample_info = \<lparr>cpunr = 0, int1happened = 0, int3happened = 0, int14happened = 0, sysenter_CS = 0,
     sysenter_EIP = 0, sysenter_ESP = 0, hidden_sysenter_modification = 0, actual_sysenter_CS = 0,
     actual_sysenter_EIP = 0, actual_sysenter_ESP = 0, Previous_Interuptability_State = 0,
     Previous_CLI = 0, IgnorePageFaults_Active = 0, LastIgnoredPageFault = 0,
     callback = \<lparr>called_callback = 0, calling_convention = 0, callback_cs = 0, callback_ss = 0,
       callback_rip = 0, callback_rsp = 0,
       saved_regs = \<lparr>r15 = 0, r14 = 0, r13 = 0, r12 = 0, r11 = 0, r10 = 0, r9 = 0, r8 = 0,
         rbp = 0, rsi = 0, rdi = 0, rdx = 0, rcx = 0, rbx = 0, rax = 0\<rparr>,
       saved_field = (\<lambda>_. 0)\<rparr>,
     guest_VM_HSAVE_PA = 0, vmcb = sample_vmcb\<rparr>"

definition sample_host :: hostcpu where
  "sample_host = \<lparr>hostCR2 = 0, hostCR4 = 0x2020, hostDR6 = 0xffff0ff0, xcr = (\<lambda>_. 1),
     cpuid_leaf = (\<lambda>_ _. (0, 0, 0, 0)), msr_exists = (\<lambda>m. m < 0x2000),
     xsetbv_fault = (\<lambda>_ _ _. None)\<rparr>"

definition sample_globals :: dbvm_globals where
  "sample_globals = \<lparr>Password1 = 0x76543210, Password2 = 0xfedcba98, dbvmversion = 9,
     redirect1 = \<lparr>redir_int = 1, redir_idtbypass = 0, redir_cs = 0, redir_rip = 0\<rparr>,
     redirect3 = \<lparr>redir_int = 3, redir_idtbypass = 0, redir_cs = 0, redir_rip = 0\<rparr>,
     redirect14 = \<lparr>redir_int = 14, redir_idtbypass = 0, redir_cs = 0, redir_rip = 0\<rparr>,
     fakeARD = (\<lambda>_. \<lparr>BaseAddrLow = 0x100000, BaseAddrHigh = 0, LengthLow = 0x3f00000,
       LengthHigh = 0, ARD_Type = 1\<rparr>), ARDcount = 1, AMD_hasNRIPS = 1,
     AMD_hasDecodeAssists = 1\<rparr>"

definition sample :: machine where
  "sample = \<lparr>vmcs = (\<lambda>_. 0)(vm_guest_cr3 := 0x100000, vm_guest_rsp := 0x8000,
       vm_guest_rip := 0x7c00, vm_guest_rflags := 0x202),
     regs = \<lparr>r15 = 0, r14 = 0, r13 = 0, r12 = 0, r11 = 0, r10 = 0, r9 = 0, r8 = 0,
       rbp = 0, rsi = 0, rdi = 0, rdx = 0x80, rcx = 0, rbx = 0x1234, rax = 0x55aa\<rparr>,
     cpu = \<lparr>hasIF = 0, guestCR0 = 0, guestCR3 = 0, TSsegment = 0, TSbase = 0,
       TSlimit = 0, TSaccessRights = 0, efer = 0, vmcb_CR0 = 0, vmcb_CR3 = 0, vmcb_CR4 = 0,
       vmcb_EFER = 0, vmcb_cs_attrib = 0, virtualTLB = 0x300000, virtualTLB_FreeSpot = 0x301000,
       virtualTLB_Max = 0x100000, virtualTLB_whiped = 0, RealMode_IDTBase = 0,
       RealMode_IDTLimit = 0x3ff, RealMode_GDTBase = 0, RealMode_GDTLimit = 0,
       LastInterrupt = 0, cr3_change_callback = 0, callback_newcr3 = 0, callback_changedcr3 = 0,
       ultimap = \<lparr>um_Active = 0, um_CR3 = 0, um_DEBUGCTL = 0, um_DS_AREA = 0,
         um_OriginalDebugCTL = 0, um_OriginalDS_AREA = 0, um_CR3_switchcount = 0,
         um_CR3_switchcount2 = 0, um_LastOldCR3 = 0, um_LastNewCR3 = 0\<rparr>,
       info = sample_info\<rparr>,
     mem = sample_mem, isAMD = False, vmmstart = 0x200000, irqs = [], msr = (\<lambda>_. 0),
     pagedir = (\<lambda>i. push_bit 18 i OR 0x87),
     heap = \<lparr>memorylist = 0, items = (\<lambda>_. \<lparr>ml_base = 0, ml_size = 0, ml_type = 0, ml_next = 0,
       ml_previous = 0\<rparr>)\<rparr>,
     MSRBitmap = (\<lambda>_. 0), memorycloak = False, nonpagedEmulationPagedir = 0x310000,
     IA32_VMX_PROCBASED_CTLS = 0x0401e172, IA32_VMX_CR0_FIXED0 = 0x80000021,
     IA32_VMX_CR0_FIXED1 = 0xffffffff, IA32_VMX_CR4_FIXED0 = 0x2000,
     host = sample_host, globals = sample_globals\<rparr>"

lemma upt_4_8 [simp]: "[0..<4] = [0, 1, 2, Suc (Suc (Suc 0))]"
  "[0..<8] = [0, 1, 2, 3, 4, 5, 6, Suc (Suc (Suc (Suc (Suc (Suc (Suc 0))))))]"
  by (simp_all add: upt_rec)

lemma drop_bit_22_low: "a < 0x400000 \<Longrightarrow> drop_bit 22 (a :: UINT64) = 0"
proof -
  assume "a < 0x400000"
  then have "unat a < 4194304" by (simp add: word_less_nat_alt)
  then have "unat (drop_bit 22 a) = 0"
    by (simp add: drop_bit_eq_div unat_div)
  then show ?thesis by (simp add: unsigned_eq_0_iff)
qed

lemma take_bit_22_low: "a < 0x400000 \<Longrightarrow> take_bit 22 (a :: UINT64) = a"
proof -
  assume "a < 0x400000"
  then have "unat a < 4194304" by (simp add: word_less_nat_alt)
  then have "unat (take_bit 22 a) = unat a"
    by (simp add: take_bit_eq_mod unat_mod)
  then show ?thesis by (simp only: word_unat_eq_iff)
qed

lemma sample_translate:
  assumes "isAMD s = False" "vmcs s vm_cr0_fakeread = 0" "vmcs s vm_guest_cr3 = 0x100000"
    "vmcs s vm_entry_controls = 0" "vmcs s vm_guest_cr4 = 0"
    and "mem s 0x100000 = 0x83" "mem s 0x100001 = 0" "mem s 0x100002 = 0" "mem s 0x100003 = 0"
    and "a < 0x400000"
  shows "getPhysicalAddressVM s a = Some (Some a)"
  using assms
  by (simp add: getPhysicalAddressVM_def IS64BITPAGING_def vmread_def walk_nonPAE_def
      tbl_entry32_def drop_bit_22_low take_bit_22_low entry_P_def entry_PS_def PFN_base_def
      bit_simps)


lemma sample_identity [simp]: "a < 0x400000 \<Longrightarrow> getPhysicalAddressVM sample a = Some (Some a)"
  by (rule sample_translate) (simp_all add: sample_def sample_mem_def)

lemma sample_tlb_ready [simp]: "tlb_ready sample"
  by (simp add: tlb_ready_def sample_def)

lemma low_add:
  assumes "unat (a :: UINT64) + n \<le> 0x400000" "k < n"
  shows "a + of_nat k < 0x400000" and "unat (a + of_nat k) = unat a + k"
proof -
  from assms show "unat (a + of_nat k) = unat a + k"
    by (simp add: unat_word_ariths unat_of_nat mod_add_right_eq)
  with assms show "a + of_nat k < 0x400000" by (simp add: word_less_nat_alt)
qed

lemma sample_mapped: "unat a + n \<le> 0x400000 \<Longrightarrow> guest_mapped sample a n"
  using low_add [of a n] by (auto simp: guest_mapped_def)

lemma sample_apart:
  assumes "unat a + n \<le> 0x100000"
  shows "tables_apart sample a n"
  unfolding tables_apart_def
proof (intro allI impI)
  fix m' :: pmem and k
  assume m': "\<forall>p. (\<forall>k<n. getPhysicalAddressVM sample (a + of_nat k) \<noteq> Some (Some p))
    \<longrightarrow> m' p = mem sample p" and k: "k < n"
  have lim: "unat a + n \<le> 0x400000" using assms by simp
  have keep: "m' p = mem sample p" if "0x100000 \<le> p" for p
  proof (rule m' [rule_format])
    fix j assume j: "j < n"
    with assms low_add [OF lim j] that have "a + of_nat j \<noteq> p" by (auto simp: word_le_nat_alt)
    with low_add [OF lim j] show "getPhysicalAddressVM sample (a + of_nat j) \<noteq> Some (Some p)" by simp
  qed
  have "getPhysicalAddressVM (sample\<lparr>mem := m'\<rparr>) (a + of_nat k) = Some (Some (a + of_nat k))"
    using low_add [OF lim k] keep by (intro sample_translate) (simp_all add: sample_def sample_mem_def)
  with low_add [OF lim k] show "getPhysicalAddressVM (sample\<lparr>mem := m'\<rparr>) (a + of_nat k)
      = getPhysicalAddressVM sample (a + of_nat k)" by simp
qed

section \<open>Properties\<close>

lemma ReadVMMemory_total:
  "(\<And>i. i < n \<Longrightarrow> getPhysicalAddressVM s (a + of_nat i) \<noteq> None) \<Longrightarrow> ReadVMMemory s a n \<noteq> None"
proof (induction s a n rule: ReadVMMemory.induct)
  case (1 s a n)
  show ?case
  proof (cases "n = 0")
    case False
    with "1.prems" [of 0] have "ReadBytesFromPage s a n \<noteq> None"
      by (simp add: ReadBytesFromPage_def Let_def split: option.splits)
    then obtain r where r: "ReadBytesFromPage s a n = Some r" by blast
    show ?thesis
    proof (cases r)
      case (Cons b bs)
      have "ReadVMMemory s (a + of_nat (length r)) (n - length r) \<noteq> None"
        unfolding Cons
      proof (rule "1.IH" [OF False r [unfolded Cons] refl])
        fix i assume "i < n - length (b # bs)"
        with "1.prems" [of "length (b # bs) + i"]
        show "getPhysicalAddressVM s (a + of_nat (length (b # bs)) + of_nat i) \<noteq> None"
          by (simp add: ac_simps)
      qed
      with False r Cons show ?thesis by (simp add: ReadVMMemory.simps [of s a n])
    qed (use False r in \<open>simp add: ReadVMMemory.simps [of s a n]\<close>)
  qed (simp add: ReadVMMemory.simps)
qed

text \<open>
  C5: reading guest memory. The page-wise copy loop of \<^verbatim>\<open>ReadVMMemory\<close> returns, its result is
  exactly what translating each byte on its own gives, and it stops short of the requested
  size only at a byte whose page is not present.
\<close>

theorem ReadVMMemory_bytewise:
  assumes "\<And>i. i < n \<Longrightarrow> getPhysicalAddressVM s (a + of_nat i) \<noteq> None"
  shows "\<exists>bs. ReadVMMemory s a n = Some bs \<and> length bs \<le> n
    \<and> (\<forall>i < length bs. guest_byte s (a + of_nat i) = Some (bs ! i))
    \<and> (length bs < n \<longrightarrow> getPhysicalAddressVM s (a + of_nat (length bs)) = Some None)"
  using ReadVMMemory_total [OF assms] ReadVMMemory_spec [of s a n] by fastforce

theorem ReadVMMemory_bytewise_witness:
  "\<exists>bs. ReadVMMemory sample 0x7c00 30 = Some bs \<and> length bs \<le> 30
    \<and> (\<forall>i < length bs. guest_byte sample (0x7c00 + of_nat i) = Some (bs ! i))
    \<and> (length bs < 30 \<longrightarrow> getPhysicalAddressVM sample (0x7c00 + of_nat (length bs)) = Some None)"
proof (rule ReadVMMemory_bytewise)
  fix i :: nat assume "i < 30"
  then show "getPhysicalAddressVM sample (0x7c00 + of_nat i) \<noteq> None"
    using low_add [of "0x7c00" 30 i] by simp
qed

text \<open>
  Mapping guest memory. With the virtual TLB allocated, \<^verbatim>\<open>mapVMmemory\<close> of a range that is
  paged in succeeds, and offset \<open>k\<close> of the pointer it returns is the physical address the
  page walk gives for \<open>a + k\<close>, across page boundaries.
\<close>

theorem mapVMmemory_window:
  assumes "tlb_ready s" "guest_mapped s a n" "0 < n" "n \<le> 0x1ff000"
  shows "\<exists>w s'. mapVMmemory s a (int n) = Some (0, 0, w, s') \<and> mem s' = mem s
    \<and> (\<forall>k < n. Some (win_pa w k) = getPhysicalAddressVM s (a + of_nat k))"
proof -
  obtain w s' where ok: "mapVMmemory s a (int n) = Some (0, 0, w, s')"
    using mapVMmemory_total [OF assms] by blast
  moreover have "Some (win_pa w k) = getPhysicalAddressVM s (a + of_nat k)" if "k < n" for k
    using mapVMmemory_bytes [OF ok assms(2,4) that] by (auto split: option.splits)
  ultimately show ?thesis using mapVMmemory_state(2) [OF ok] by blast
qed

theorem mapVMmemory_window_witness:
  "\<exists>w s'. mapVMmemory sample 0x7fffe (int 4) = Some (0, 0, w, s') \<and> mem s' = mem sample
    \<and> (\<forall>k < 4. Some (win_pa w k) = getPhysicalAddressVM sample (0x7fffe + of_nat k))"
  by (rule mapVMmemory_window) (simp_all add: sample_mapped)

text \<open>
  C6: a range written through \<^verbatim>\<open>mapVMmemory\<close> is read back by \<^verbatim>\<open>ReadVMMemory\<close>, through the
  page tables as they are after the write, when those do not lie in the range itself.
\<close>

theorem guest_write_read_back:
  assumes "tlb_ready s" "guest_mapped s a n" "tables_apart s a n" "0 < n" "n \<le> 4096"
    and "length bs = n"
  shows "\<exists>w s1 m'. mapVMmemory s a (int n) = Some (0, 0, w, s1)
    \<and> win_write (mem s1) w 0 bs = Some m' \<and> ReadVMMemory (s\<lparr>mem := m'\<rparr>) a n = Some bs"
proof -
  have n': "n \<le> 0x1ff000" using assms(5) by simp
  obtain w s1 where ok: "mapVMmemory s a (int n) = Some (0, 0, w, s1)"
    using mapVMmemory_total [OF assms(1,2,4) n'] by blast
  have "\<exists>m'. win_write (mem s1) w 0 bs = Some m'"
    using mapVMmemory_bytes(2) [OF ok assms(2) n'] assms(6) by (intro win_write_total) simp
  then obtain m' where wr: "win_write (mem s1) w 0 bs = Some m'" by blast
  note rd = guest_write_read [OF ok assms(2,3,6,5) wr]
  have mapped: "\<exists>p. getPhysicalAddressVM (s\<lparr>mem := m'\<rparr>) (a + of_nat k) = Some (Some p)"
    if "k < n" for k
    using rd(1) [OF that] assms(2) that by (auto simp: guest_mapped_def)
  then have "ReadVMMemory (s\<lparr>mem := m'\<rparr>) a n \<noteq> None"
    by (intro ReadVMMemory_total) fastforce
  then obtain r where r: "ReadVMMemory (s\<lparr>mem := m'\<rparr>) a n = Some r" by blast
  note spec = ReadVMMemory_spec [OF r]
  have "length r = n"
    using spec mapped [of "length r"] by fastforce
  moreover have "r ! k = bs ! k" if "k < n" for k
    using spec rd(2) [OF that] that \<open>length r = n\<close> by (metis option.inject)
  ultimately have "r = bs" using assms(6) by (simp add: list_eq_iff_nth_eq)
  with ok wr r show ?thesis by blast
qed

theorem guest_write_read_back_witness:
  "\<exists>w s1 m'. mapVMmemory sample 0x7ffe (int 4) = Some (0, 0, w, s1)
    \<and> win_write (mem s1) w 0 [1, 2, 3, 4] = Some m'
    \<and> ReadVMMemory (sample\<lparr>mem := m'\<rparr>) 0x7ffe 4 = Some [1, 2, 3, 4]"
  by (rule guest_write_read_back) (simp_all add: sample_mapped sample_apart)

text \<open>
  The error path of \<^verbatim>\<open>mapVMmemory\<close>: a request of 2 MB or more is refused with error 3,
  and error 2 reports an address whose page is not present.
\<close>

theorem mapVMmemory_errors:
  assumes "mapVMmemory s a sz = Some (e, pf, w, s')"
  shows "(e = 3 \<longleftrightarrow> 0x200000 \<le> sz)
    \<and> (e = 2 \<longrightarrow> getPhysicalAddressVM s pf = Some None)"
  using assms mapVMmemory_state(1) [OF assms]
  by (auto simp: mapVMmemory_def Let_def dest!: map_pages_not_paged
      split: if_splits option.splits)

theorem mapVMmemory_errors_witness:
  "mapVMmemory sample 0x7c00 0x200000 = Some (3, 0, HostPtr 0, sample)
    \<and> ((3 :: int) = 3 \<longleftrightarrow> (0x200000 :: int) \<le> 0x200000)"
proof -
  have m: "mapVMmemory sample 0x7c00 0x200000 = Some (3, 0, HostPtr 0, sample)"
    by (simp add: mapVMmemory_def sample_def)
  with mapVMmemory_errors [OF m] show ?thesis by simp
qed

end
