(* ===== verification/Host_Paging.thy ===== *)
theory Host_Paging
  imports Paging
begin

text \<open>
  The hypervisor's own address space, \<^verbatim>\<open>dbvm/vmm/mm.c\<close>: \<^verbatim>\<open>MapPhysicalMemory\<close>,
  \<^verbatim>\<open>MapPhysicalMemoryEx\<close>, \<^verbatim>\<open>VirtualToPhysical\<close> and \<^verbatim>\<open>SetPageToWriteThrough\<close>, which
  edit and read the page directory at \<^verbatim>\<open>pagedirvirtual\<close> (the field \<open>pagedir\<close> of the
  machine). The flush of the translation cache (\<^verbatim>\<open>_invlpg\<close>) has no effect on this state.
\<close>

unbundle bit_operations_syntax

section \<open>Mapping\<close>

text \<open>
  The offset in \<^verbatim>\<open>pagedirvirtual\<close> of the directory entry of an address:
  \<^verbatim>\<open>int Dirptr=VirtualAddress >> 30\<close> is converted back with its sign.
\<close>

definition map_slot :: "UINT64 \<Rightarrow> UINT64" where
  "map_slot va = push_bit 12 (scast (ucast (drop_bit 30 va) :: DWORD))
     + 8 * (drop_bit 21 va AND 0x1ff)"

definition big_entry :: "UINT64 \<Rightarrow> int \<Rightarrow> UINT64" where
  "big_entry address writable =
     (let e0 = address AND 0xFFFFFFFFFFE00000;
          e1 = set_bit 0 e0;
          e2 = set_bit 7 e1;
          e3 = (if odd writable then set_bit 1 e2 else unset_bit 1 e2)
      in set_bit 2 e3)"

definition MapPhysicalMemoryEx :: "UINT64 \<Rightarrow> UINT64 \<Rightarrow> int \<Rightarrow> machine \<Rightarrow> UINT64 \<times> machine" where
  "MapPhysicalMemoryEx address VirtualAddress writable s =
     (let d1 = (pagedir s)(map_slot VirtualAddress := big_entry address writable);
          d2 = d1(map_slot (VirtualAddress + 0x00200000) := big_entry (address + 0x00200000) writable)
      in (VirtualAddress + address mod 0x00200000, s\<lparr>pagedir := d2\<rparr>))"

definition MapPhysicalMemory :: "UINT64 \<Rightarrow> UINT64 \<Rightarrow> machine \<Rightarrow> UINT64 \<times> machine" where
  "MapPhysicalMemory address VirtualAddress s = MapPhysicalMemoryEx address VirtualAddress 0 s"

section \<open>Translation\<close>

definition dir_slot :: "UINT64 \<Rightarrow> UINT64" where
  "dir_slot address = 0x1000 * (drop_bit 30 address AND 0x1ff) + 8 * (drop_bit 21 address AND 0x1ff)"

text \<open>
  A page table is read through the mapping \<^verbatim>\<open>VirtualToPhysical\<close> makes of it at
  \<^verbatim>\<open>0x0fc00000\<close>.
\<close>

definition page_entry :: "UINT64 \<Rightarrow> UINT64 \<Rightarrow> machine \<Rightarrow> UINT64" where
  "page_entry e address s =
     le_word (map (\<lambda>j. mem s (PFN_base 28 e + 8 * (drop_bit 12 address AND 0x1ff) + of_nat j)) [0..<8])"

definition VirtualToPhysical :: "UINT64 \<Rightarrow> machine \<Rightarrow> UINT64 \<times> machine" where
  "VirtualToPhysical address s =
     (let e = pagedir s (dir_slot address) in
      if entry_P e then
        (if entry_PS e then
           (push_bit 13 (take_bit 27 (drop_bit 13 e)) + (address AND 0x1fffff), s)
         else
           (let s1 = snd (MapPhysicalMemory (PFN_base 28 e) 0x0fc00000 s);
                pte = page_entry e address s1
            in (if entry_P pte then PFN_base 24 pte + (address AND 0xfff)
                else 0xffffffffffffffff, s1)))
      else (0xffffffffffffffff, s))"

definition SetPageToWriteThrough :: "UINT64 \<Rightarrow> machine \<Rightarrow> machine" where
  "SetPageToWriteThrough address s =
     (let e = pagedir s (dir_slot address) in
      if entry_P e then
        (if entry_PS e then s\<lparr>pagedir := (pagedir s)(dir_slot address := set_bit 3 e)\<rparr>
         else
           (let s1 = snd (MapPhysicalMemory (PFN_base 28 e) 0x0fc00000 s) in
            if entry_P (page_entry e address s1)
            then s1\<lparr>pagedir := (pagedir s1)
              (dir_slot address := set_bit 3 (pagedir s1 (dir_slot address)))\<rparr>
            else s1))
      else s)"

section \<open>Directory slots\<close>

text \<open>Below 512 GB both computations number the 2 MB regions in sequence.\<close>

lemma dir_slot_linear:
  assumes "unat va < 2 ^ 39"
  shows "unat (dir_slot va) = 8 * (unat va div 2 ^ 21)"
proof -
  define n where "n = unat va div 2 ^ 21"
  have n: "n < 2 ^ 18" using assms by (simp add: n_def less_mult_imp_div_less)
  have "unat va div 2 ^ 30 = n div 512" by (simp add: n_def div_mult2_eq [symmetric])
  then have "unat (drop_bit 30 va AND 0x1ff) = n div 512 mod 512"
    by (simp only: and_1ff unat_low unat_shr) simp
  moreover have "unat (drop_bit 21 va AND 0x1ff) = n mod 512"
    by (simp only: and_1ff unat_low unat_shr n_def) simp
  moreover have "n div 512 mod 512 = n div 512" using n by simp
  ultimately have "unat (dir_slot va) = 4096 * (n div 512) + 8 * (n mod 512)"
    using n by (simp add: dir_slot_def unat_word_ariths)
  also have "\<dots> = 8 * n" using mult_div_mod_eq [of 512 n] by linarith
  finally show ?thesis by (simp only: n_def)
qed

lemma map_slot_dir_slot:
  assumes "unat va < 2 ^ 39"
  shows "map_slot va = dir_slot va"
proof -
  let ?d = "drop_bit 30 va"
  have d: "unat ?d < 2 ^ 9" using assms by (simp add: unat_shr less_mult_imp_div_less)
  have "scast (ucast ?d :: DWORD) = ?d"
  proof (rule bit_word_eqI)
    fix k assume "k < LENGTH(64)"
    then show "bit (scast (ucast ?d :: DWORD) :: UINT64) k = bit ?d k"
      using high_bits_zero [OF d, of k] high_bits_zero [OF d, of 31]
      by (cases "k < 31") (auto simp: bit_signed_iff bit_ucast_iff min_def)
  qed
  then show ?thesis
    using take_bit_self [OF d]
    by (simp add: map_slot_def dir_slot_def and_1ff push_bit_eq_mult mult.commute)
qed

lemma big_entry_fields:
  assumes "unat a < 2 ^ 40"
  shows "entry_P (big_entry a w)" "entry_PS (big_entry a w)"
    "push_bit 13 (take_bit 27 (drop_bit 13 (big_entry a w))) = a - take_bit 21 a"
proof -
  show "entry_P (big_entry a w)" "entry_PS (big_entry a w)"
    by (auto simp: big_entry_def entry_P_def entry_PS_def Let_def bit_simps)
  have "push_bit 13 (take_bit 27 (drop_bit 13 (big_entry a w))) = a AND NOT (mask 21)"
  proof (rule bit_word_eqI)
    fix k assume "k < LENGTH(64)"
    then show "bit (push_bit 13 (take_bit 27 (drop_bit 13 (big_entry a w)))) k
        = bit (a AND NOT (mask 21)) k"
      using high_bits_zero [OF assms, of k]
      unfolding big_entry_def Let_def mask_region
      by (cases "13 \<le> k"; cases "k < 40") (auto simp: bit_simps)
  qed
  also have "\<dots> = a - take_bit 21 a"
  proof -
    have "(a AND NOT (mask 21)) AND take_bit 21 a = 0"
      by (rule bit_word_eqI) (auto simp: bit_simps)
    moreover have "(a AND NOT (mask 21)) OR take_bit 21 a = a"
      by (rule bit_word_eqI) (auto simp: bit_simps)
    ultimately have "a = (a AND NOT (mask 21)) + take_bit 21 a"
      using and_zero_add_eq_or [of "a AND NOT (mask 21)" "take_bit 21 a"] by simp
    then show ?thesis by (metis add_diff_cancel_right')
  qed
  finally show "push_bit 13 (take_bit 27 (drop_bit 13 (big_entry a w))) = a - take_bit 21 a" .
qed


section \<open>Mapping and translating back\<close>

text \<open>
  An address of the 4 MB window made at \<open>va\<close> lies in one of the two entries written.
\<close>

lemma window_entry:
  assumes va: "unat va mod 2 ^ 21 = 0" "unat va + 2 ^ 22 < 2 ^ 39"
    and a: "unat a + 2 ^ 22 < 2 ^ 40" and k: "k < 2 ^ 22"
    and s': "s' = snd (MapPhysicalMemoryEx a va w s)"
  shows "pagedir s' (dir_slot (va + of_nat k)) = big_entry (a + of_nat (2 ^ 21 * (k div 2 ^ 21))) w"
proof -
  have u: "unat (va + of_nat j) = unat va + j" if "j \<le> 2 ^ 22" for j
    using va(2) that by (simp add: unat_word_ariths unat_of_nat)
  have slot: "unat (dir_slot (va + of_nat j)) = 8 * ((unat va + j) div 2 ^ 21)" if "j \<le> 2 ^ 22" for j
    using dir_slot_linear [of "va + of_nat j"] u [OF that] va(2) that by simp
  have m: "map_slot (va + of_nat j) = dir_slot (va + of_nat j)" if "j \<le> 2 ^ 22" for j
    using map_slot_dir_slot [of "va + of_nat j"] u [OF that] va(2) that by simp
  obtain q where q: "unat va = 2 ^ 21 * q" using va(1) by auto
  have e0: "map_slot va = dir_slot (va + of_nat 0)" and e1: "map_slot (va + 0x200000) = dir_slot (va + of_nat (2 ^ 21))"
    using m [of 0] m [of "2 ^ 21"] by simp_all
  have s0: "unat (dir_slot (va + of_nat 0)) = 8 * q" and s1: "unat (dir_slot (va + of_nat (2 ^ 21))) = 8 * (q + 1)"
    using slot [of 0] slot [of "2 ^ 21"] q by simp_all
  have sk: "unat (dir_slot (va + of_nat k)) = 8 * (q + k div 2 ^ 21)"
    using slot [of k] q k by simp
  consider "k div 2 ^ 21 = 0" | "k div 2 ^ 21 = 1" using k by (simp add: div_eq_0_iff) linarith
  then show ?thesis
  proof cases
    case 1
    then have "dir_slot (va + of_nat k) = map_slot va" using s0 sk e0 by (simp add: word_unat_eq_iff)
    moreover have "map_slot va \<noteq> map_slot (va + 0x200000)"
      using s0 s1 e0 e1 by (metis add_left_cancel mult_left_cancel n_not_Suc_n One_nat_def add.right_neutral add_Suc_right zero_neq_numeral)
    ultimately show ?thesis using 1 s' by (simp add: MapPhysicalMemoryEx_def Let_def)
  next
    case 2
    then have "dir_slot (va + of_nat k) = map_slot (va + 0x200000)"
      using s1 sk e1 by (simp add: word_unat_eq_iff)
    then show ?thesis using 2 s' by (simp add: MapPhysicalMemoryEx_def Let_def)
  qed
qed

text \<open>
  C12: the windows on physical memory. After \<^verbatim>\<open>MapPhysicalMemoryEx\<close> at a 2 MB boundary,
  \<^verbatim>\<open>VirtualToPhysical\<close> takes the returned pointer back to the physical address, and every
  byte after it up to the end of the second 2 MB region to the physical byte at the same distance;
  so the window is good for at least 2 MB whatever the offset of the address in its region.
\<close>

theorem map_translate_back:
  assumes "unat va mod 2 ^ 21 = 0" "unat va + 2 ^ 22 < 2 ^ 39"
    and "unat a + 2 ^ 22 < 2 ^ 40" and "unat a mod 2 ^ 21 + k < 2 ^ 22"
    and "MapPhysicalMemoryEx a va w s = (p, s')"
  shows "VirtualToPhysical (p + of_nat k) s' = (a + of_nat k, s')"
proof -
  define j where "j = unat a mod 2 ^ 21 + k"
  have j: "j < 2 ^ 22" using assms(4) by (simp add: j_def)
  have amod: "a mod 0x200000 = of_nat (unat a mod 2 ^ 21)" by (simp add: word_unat_eq_iff unat_mod unat_of_nat)
  have p: "p + of_nat k = va + of_nat j" and s': "s' = snd (MapPhysicalMemoryEx a va w s)"
    using assms(5) amod by (auto simp: MapPhysicalMemoryEx_def Let_def j_def)
  let ?b = "a + of_nat (2 ^ 21 * (j div 2 ^ 21))"
  have j2: "2 ^ 21 * (j div 2 ^ 21) \<le> j" by simp
  have ub: "unat ?b = unat a + 2 ^ 21 * (j div 2 ^ 21)"
    using assms(3) j j2 by (simp add: unat_word_ariths unat_of_nat)
  have e: "pagedir s' (dir_slot (p + of_nat k)) = big_entry ?b w"
    using window_entry [OF assms(1-3) j s'] p by simp
  have b40: "unat ?b < 2 ^ 40" using ub assms(3) j j2 by linarith
  have off: "(p + of_nat k) AND 0x1fffff = of_nat (j mod 2 ^ 21)"
  proof -
    have "unat (take_bit 21 (va + of_nat j)) = j mod 2 ^ 21"
    proof -
      have "unat (va + of_nat j) = unat va + j" using assms(2) j by (simp add: unat_word_ariths unat_of_nat)
      moreover obtain q where "unat va = 2 ^ 21 * q" using assms(1) by auto
      ultimately show ?thesis by (simp add: unat_low)
    qed
    then show ?thesis unfolding p by (simp add: word_unat_eq_iff unat_of_nat)
  qed
  have "?b - take_bit 21 ?b + of_nat (j mod 2 ^ 21) = a + of_nat k"
  proof -
    have "take_bit 21 ?b = of_nat (unat a mod 2 ^ 21)"
    proof -
      have "unat (take_bit 21 ?b) = unat a mod 2 ^ 21" unfolding unat_low ub by simp
      then show ?thesis by (simp add: word_unat_eq_iff unat_of_nat)
    qed
    moreover have "of_nat (2 ^ 21 * (j div 2 ^ 21)) + of_nat (j mod 2 ^ 21) = (of_nat j :: UINT64)"
      by (simp only: of_nat_add [symmetric] mult_div_mod_eq)
    ultimately show ?thesis by (simp add: j_def algebra_simps)
  qed
  then show ?thesis
    using e off big_entry_fields [OF b40, of w] by (simp add: VirtualToPhysical_def Let_def)
qed

theorem map_translate_back_witness:
  "VirtualToPhysical (0x10000000 + 0x1ffffc + of_nat 0x123)
     (snd (MapPhysicalMemoryEx 0x3fffffc 0x10000000 1 sample))
   = (0x3fffffc + of_nat 0x123, snd (MapPhysicalMemoryEx 0x3fffffc 0x10000000 1 sample))"
  by (rule map_translate_back [of "0x10000000" _ _ 1 sample]) (simp_all add: MapPhysicalMemoryEx_def Let_def)

text \<open>
  For a page with a page table \<^verbatim>\<open>SetPageToWriteThrough\<close> sets the bit in the directory
  entry and not in the page table entry it has looked up: physical memory, which holds the page
  table, is unchanged.
\<close>

lemma SetPageToWriteThrough_mem: "mem (SetPageToWriteThrough a s) = mem s"
  by (simp add: SetPageToWriteThrough_def MapPhysicalMemory_def MapPhysicalMemoryEx_def Let_def)

end
