(* ===== verification/Register_File.thy ===== *)
theory Register_File
  imports Machine
begin

text \<open>
  The interface of a numbered register file. The real-mode emulator reaches the guest's
  registers by operand number (\<^verbatim>\<open>switch (opperand)\<close> in \<^verbatim>\<open>realmodeemu.c\<close>), the exit
  handlers by the number of the VM exit qualification (\<^verbatim>\<open>getRegister\<close> and
  \<^verbatim>\<open>setRegister\<close> of \<^verbatim>\<open>vmeventhandler.c\<close>); both update registers in part. The lemmas on
  partial updates are proved once from the laws of the file.
\<close>

unbundle bit_operations_syntax

text \<open>A claim about a register number: the numbers past the file, then the file one by one.\<close>

lemma register_number:
  fixes n :: nat
  assumes "\<And>k. c \<le> k \<Longrightarrow> P k" "list_all P [0..<c]"
  shows "P n"
  using assms by (cases "n < c") (auto simp: list_all_iff)

locale regfile =
  fixes get :: "'s \<Rightarrow> nat \<Rightarrow> UINT64"
    and put :: "nat \<Rightarrow> UINT64 \<Rightarrow> 's \<Rightarrow> 's"
    and count :: nat
  assumes get_put: "m < count \<Longrightarrow> n < count \<Longrightarrow> get (put n v s) m = (if m = n then v else get s m)"
    and put_put: "put n v (put n u s) = put n v s"
    and put_get: "n < count \<Longrightarrow> put n (get s n) s = s"
begin

lemma get_same: "n < count \<Longrightarrow> get (put n v s) n = v"
  by (simp add: get_put)

lemma get_other: "m < count \<Longrightarrow> n < count \<Longrightarrow> m \<noteq> n \<Longrightarrow> get (put n v s) m = get s m"
  by (simp add: get_put)

text \<open>A partial write replaces the low part of its register and nothing else.\<close>

lemma low16:
  assumes "n < count"
  shows "ucast (get (put n ((get s n AND 0xffffffffffff0000) + ucast (v :: WORD)) s) n) = v"
    and "get (put n ((get s n AND 0xffffffffffff0000) + ucast v) s) n AND 0xffffffffffff0000
      = get s n AND 0xffffffffffff0000"
  using assms by (simp_all add: get_same word_fields)

lemma low32:
  assumes "n < count"
  shows "ucast (get (put n ((get s n AND 0xffffffff00000000) + ucast (v :: DWORD)) s) n) = v"
    and "get (put n ((get s n AND 0xffffffff00000000) + ucast v) s) n AND 0xffffffff00000000
      = get s n AND 0xffffffff00000000"
  using assms by (simp_all add: get_same word_fields)

text \<open>Saving a set of registers and putting them back restores the file.\<close>

lemma restore:
  assumes "\<forall>n \<in> set ns. n < count"
  shows "fold (\<lambda>n. put n (get s n)) ns s = s"
  using assms by (induction ns) (simp_all add: put_get)

lemma clobber_restore:
  assumes "n < count"
  shows "put n (get s n) (put n v s) = s"
  using assms by (simp add: put_put put_get)

end

end
