(* ===== verification/Ultimap_Ops.thy ===== *)
theory Ultimap_Ops
  imports Machine
begin

text \<open>
  The branch tracer Ultimap, \<^verbatim>\<open>dbvm/vmm/ultimap.c\<close>: while the traced process runs it puts
  values of its own into the registers \<^verbatim>\<open>IA32_DEBUGCTL\<close> (a VMCS field) and \<^verbatim>\<open>IA32_DS_AREA\<close>
  (an MSR), keeps the guest's in \<^verbatim>\<open>OriginalDebugCTL\<close> and \<^verbatim>\<open>OriginalDS_AREA\<close>, and
  answers the guest's reads and writes of the two.
\<close>

unbundle bit_operations_syntax

section \<open>Switching processes\<close>

definition writeMSR :: "DWORD \<Rightarrow> UINT64 \<Rightarrow> machine \<Rightarrow> machine" where
  "writeMSR r v s = s\<lparr>msr := (msr s)(r := v)\<rparr>"

abbreviation IA32_DS_AREA :: nat where "IA32_DS_AREA \<equiv> 0x600"
abbreviation IA32_DEBUGCTL_MSR :: nat where "IA32_DEBUGCTL_MSR \<equiv> 0x1d9"

text \<open>The exits on reads and writes of one MSR, switched on or off in \<^verbatim>\<open>MSRBitmap\<close>.\<close>

definition msr_exits :: "bool \<Rightarrow> nat \<Rightarrow> (nat \<Rightarrow> BYTE) \<Rightarrow> nat \<Rightarrow> BYTE" where
  "msr_exits on r b =
     (let f = (if on then set_bit (r mod 8) else unset_bit (r mod 8));
          b1 = b(r div 8 := f (b (r div 8)))
      in b1(1024 + r div 8 := f (b1 (1024 + r div 8))))"

definition ultimap_switch :: "bool \<Rightarrow> UINT64 \<Rightarrow> UINT64 \<Rightarrow> machine \<Rightarrow> machine" where
  "ultimap_switch on debugctl ds_area s =
     (let s1 = writeMSR (of_nat IA32_DS_AREA) ds_area (vmwrite vm_guest_IA32_DEBUGCTL debugctl s)
      in s1\<lparr>MSRBitmap := msr_exits on IA32_DEBUGCTL_MSR (msr_exits on IA32_DS_AREA (MSRBitmap s1))\<rparr>)"

definition set_ultimap :: "(Ultimap \<Rightarrow> Ultimap) \<Rightarrow> machine \<Rightarrow> machine" where
  "set_ultimap f s = s\<lparr>cpu := (cpu s)\<lparr>ultimap := f (ultimap (cpu s))\<rparr>\<rparr>"

definition ultimap_handleCR3Change :: "UINT64 \<Rightarrow> UINT64 \<Rightarrow> machine \<Rightarrow> machine" where
  "ultimap_handleCR3Change oldcr3 newcr3 s =
     (let s1 = set_ultimap (\<lambda>u. u\<lparr>um_CR3_switchcount := um_CR3_switchcount u + 1\<rparr>) s;
          u = ultimap (cpu s1)
      in if oldcr3 \<noteq> newcr3 then
           (if um_CR3 u = newcr3 then
              ultimap_switch True (um_DEBUGCTL u) (um_DS_AREA u)
                (set_ultimap (\<lambda>u. u\<lparr>um_CR3_switchcount2 := um_CR3_switchcount2 u + 1,
                     um_LastOldCR3 := oldcr3, um_LastNewCR3 := newcr3,
                     um_OriginalDebugCTL := vmread s1 vm_guest_IA32_DEBUGCTL,
                     um_OriginalDS_AREA := msr s1 (of_nat IA32_DS_AREA)\<rparr>) s1)
            else if um_CR3 u = guestCR3 (cpu s1) then
              ultimap_switch False (um_OriginalDebugCTL u) (um_OriginalDS_AREA u) s1
            else s1)
         else s1)"

section \<open>Control\<close>

definition ultimap_disable :: "machine \<Rightarrow> machine" where
  "ultimap_disable s =
     (if um_Active (ultimap (cpu s)) \<noteq> 0 then
        set_ultimap (\<lambda>u. u\<lparr>um_Active := 0\<rparr>)
          (writeMSR (of_nat IA32_DS_AREA) (um_OriginalDS_AREA (ultimap (cpu s)))
            (vmwrite vm_guest_IA32_DEBUGCTL (um_OriginalDebugCTL (ultimap (cpu s))) s))
      else s)"

definition ultimap_pause :: "machine \<Rightarrow> machine" where
  "ultimap_pause s = ultimap_disable s"

definition ultimap_resume :: "machine \<Rightarrow> machine" where
  "ultimap_resume s = set_ultimap (\<lambda>u. u\<lparr>um_Active := 1\<rparr>) s"

definition ultimap_setup :: "UINT64 \<Rightarrow> UINT64 \<Rightarrow> UINT64 \<Rightarrow> machine \<Rightarrow> machine" where
  "ultimap_setup CR3 DEBUGCTL DS_AREA s =
     set_ultimap (\<lambda>u. u\<lparr>um_CR3 := CR3, um_DEBUGCTL := DEBUGCTL, um_DS_AREA := DS_AREA, um_Active := 1,
       um_OriginalDebugCTL := vmread s vm_guest_IA32_DEBUGCTL,
       um_OriginalDS_AREA := msr s (of_nat IA32_DS_AREA)\<rparr>) s"

definition ultimap_handleDB :: "machine \<Rightarrow> machine" where
  "ultimap_handleDB s =
     (let s1 = set_ultimap (\<lambda>u. u\<lparr>um_OriginalDebugCTL := unset_bit 0 (um_OriginalDebugCTL u)\<rparr>) s
      in if guestCR3 (cpu s1) \<noteq> um_CR3 (ultimap (cpu s1))
         then vmwrite vm_guest_IA32_DEBUGCTL (unset_bit 0 (vmread s1 vm_guest_IA32_DEBUGCTL)) s1
         else vmwrite vm_guest_IA32_DEBUGCTL (um_DEBUGCTL (ultimap (cpu s1))) s1)"

text \<open>The traced process is running.\<close>

definition tracing :: "machine \<Rightarrow> bool" where
  "tracing s \<longleftrightarrow> um_Active (ultimap (cpu s)) \<noteq> 0 \<and> um_CR3 (ultimap (cpu s)) = guestCR3 (cpu s)"

section \<open>The guest's accesses\<close>

definition ultimap_handleMSRWrite :: "DWORD \<Rightarrow> UINT64 \<Rightarrow> machine \<Rightarrow> machine" where
  "ultimap_handleMSRWrite r value s =
     (if r = of_nat IA32_DEBUGCTL_MSR then
        (let s1 = set_ultimap (\<lambda>u. u\<lparr>um_OriginalDebugCTL := value\<rparr>) s
         in vmwrite vm_guest_IA32_DEBUGCTL
              (if tracing s1 then um_DEBUGCTL (ultimap (cpu s1)) else value) s1)
      else if r = of_nat IA32_DS_AREA then
        (let s1 = set_ultimap (\<lambda>u. u\<lparr>um_OriginalDS_AREA := value\<rparr>) s
         in writeMSR (of_nat IA32_DS_AREA)
              (if tracing s1 then um_DS_AREA (ultimap (cpu s1)) else value) s1)
      else s)"

text \<open>\<open>None\<close>: for another MSR the function ends without a return value.\<close>

definition ultimap_handleMSRRead :: "DWORD \<Rightarrow> machine \<Rightarrow> UINT64 option" where
  "ultimap_handleMSRRead r s =
     (if r = of_nat IA32_DEBUGCTL_MSR then
        Some (if tracing s then um_OriginalDebugCTL (ultimap (cpu s))
              else vmread s vm_guest_IA32_DEBUGCTL)
      else if r = of_nat IA32_DS_AREA then
        Some (if tracing s then um_OriginalDS_AREA (ultimap (cpu s))
              else msr s (of_nat IA32_DS_AREA))
      else None)"

section \<open>The guest's view\<close>

text \<open>What the guest reads: its \<^verbatim>\<open>IA32_DEBUGCTL\<close> and its \<^verbatim>\<open>IA32_DS_AREA\<close>.\<close>

definition guest_view :: "machine \<Rightarrow> UINT64 option \<times> UINT64 option" where
  "guest_view s = (ultimap_handleMSRRead (of_nat IA32_DEBUGCTL_MSR) s,
     ultimap_handleMSRRead (of_nat IA32_DS_AREA) s)"

lemmas ultimap_defs = set_ultimap_def writeMSR_def ultimap_switch_def tracing_def
  ultimap_handleMSRRead_def ultimap_handleMSRWrite_def guest_view_def Let_def

lemma vm_width_debugctl [simp]: "vm_width 0x2802 = 64"
  by (simp add: vm_width_def)

lemma view_write:
  "guest_view (ultimap_handleMSRWrite r v s) =
     (if r = of_nat IA32_DEBUGCTL_MSR then (Some v, snd (guest_view s))
      else if r = of_nat IA32_DS_AREA then (fst (guest_view s), Some v)
      else guest_view s)"
  by (auto simp: ultimap_defs)

lemma view_setup: "um_Active (ultimap (cpu s)) = 0 \<Longrightarrow> guest_view (ultimap_setup c d a s) = guest_view s"
  by (simp add: ultimap_setup_def ultimap_defs)

lemma view_switch:
  assumes "um_Active (ultimap (cpu s)) \<noteq> 0"
    and "t = ultimap_handleCR3Change (guestCR3 (cpu s)) new s"
  shows "guest_view (t\<lparr>cpu := (cpu t)\<lparr>guestCR3 := new\<rparr>\<rparr>) = guest_view s"
  using assms by (auto simp: ultimap_handleCR3Change_def ultimap_defs)

text \<open>
  The bitmap has four parts of 1024 bytes: reads and writes of the MSRs from 0, each followed by
  its part for the MSRs from 0xc0000000. The tracer takes the second part for the writes: the
  byte that would intercept writes of a register below 0x2000, at 2048, never changes.
\<close>

lemma write_exits_untouched:
  assumes "r < 0x2000"
  shows "MSRBitmap (ultimap_handleCR3Change old new s) (2048 + r div 8) = MSRBitmap s (2048 + r div 8)"
  using assms by (auto simp: ultimap_handleCR3Change_def ultimap_defs msr_exits_def)

end
