(* ===== verification/Control_Registers.thy ===== *)
theory Control_Registers
  imports Host_Paging Register_File Ultimap_Ops
begin

text \<open>
  The control register handlers of \<^verbatim>\<open>dbvm/vmm/vmeventhandler.c\<close> (\<^verbatim>\<open>setVM_CR0\<close>,
  \<^verbatim>\<open>setVM_CR3\<close>, \<^verbatim>\<open>setVM_CR4\<close>, \<^verbatim>\<open>handleCRaccess\<close>, \<^verbatim>\<open>getRegister\<close>,
  \<^verbatim>\<open>setRegister\<close>), the page tables they switch to (\<^verbatim>\<open>emulatePaging\<close>,
  \<^verbatim>\<open>setupNonPagedPaging\<close>, \<^verbatim>\<open>setupRealModePaging\<close> of \<^verbatim>\<open>vmpaging.c\<close>).

  \<open>None\<close> is a \<^verbatim>\<open>while (1)\<close> of the code. \<open>emulatePaging\<close> with a NULL
  \<^verbatim>\<open>virtualTLB\<close>, where the code would allocate one, is outside the model and also \<open>None\<close>.
\<close>

unbundle bit_operations_syntax

section \<open>Bit fields\<close>

text \<open>Assignment to the bit field of \<open>n\<close> bits at bit \<open>lo\<close>.\<close>

definition put_field :: "nat \<Rightarrow> nat \<Rightarrow> 'a::len word \<Rightarrow> 'a word \<Rightarrow> 'a word" where
  "put_field lo n v w = (w AND NOT (push_bit lo (mask n))) OR push_bit lo (take_bit n v)"

lemma bit_put_field:
  "bit (put_field lo n v (w :: 'a::len word)) k \<longleftrightarrow>
     (if lo \<le> k \<and> k < lo + n then k < LENGTH('a) \<and> bit v (k - lo) else bit w k)"
  by (auto simp: put_field_def bit_simps dest: bit_imp_le_length)

text \<open>The \<^verbatim>\<open>Access_Rights\<close> a descriptor is given (\<^verbatim>\<open>vmxcontrolstructures.h\<close>).\<close>

definition access_rights :: "ULONG \<Rightarrow> ULONG \<Rightarrow> ULONG" where
  "access_rights Segment_type DPL =
     put_field 7 1 1 (put_field 5 2 DPL (put_field 4 1 1 (put_field 0 4 Segment_type 0)))"

section \<open>The hypervisor's own memory\<close>

text \<open>
  The processor translates the hypervisor's pointers through the directory that
  \<^verbatim>\<open>VirtualToPhysical\<close> reads. An aligned table entry and an aligned page lie in one frame.
\<close>

definition host_pa :: "machine \<Rightarrow> UINT64 \<Rightarrow> UINT64" where
  "host_pa s va = fst (VirtualToPhysical va s)"

definition put_bytes :: "pmem \<Rightarrow> UINT64 \<Rightarrow> BYTE list \<Rightarrow> pmem" where
  "put_bytes m p bs = (\<lambda>q. let k = unat (q - p) in if k < length bs then bs ! k else m q)"

definition host_load64 :: "UINT64 \<Rightarrow> machine \<Rightarrow> UINT64" where
  "host_load64 va s = le_word (map (\<lambda>j. mem s (host_pa s va + of_nat j)) [0..<8])"

definition host_store64 :: "UINT64 \<Rightarrow> UINT64 \<Rightarrow> machine \<Rightarrow> machine" where
  "host_store64 va v s = s\<lparr>mem := put_bytes (mem s) (host_pa s va) (le_bytes 8 v)\<rparr>"

fun zero_pages :: "nat \<Rightarrow> UINT64 \<Rightarrow> machine \<Rightarrow> machine" where
  "zero_pages 0 va s = s"
| "zero_pages (Suc n) va s =
     zero_pages n (va + 4096)
       (s\<lparr>mem := put_bytes (mem s) (host_pa s va) (replicate 4096 0)\<rparr>)"

section \<open>Page tables for the guest\<close>

definition emulatePaging :: "machine \<Rightarrow> machine option" where
  "emulatePaging s =
     (if \<not> memorycloak s \<and> vmread s vm_cr0_fakeread AND 0x80000001 = 0x80000001 then
        Some (vmwrite vm_guest_cr3
          (if callback_changedcr3 (cpu s) \<noteq> 0 then callback_newcr3 (cpu s) else guestCR3 (cpu s)) s)
      else if virtualTLB (cpu s) = 0 then None
      else
        (let (pa, s1) = VirtualToPhysical (virtualTLB (cpu s)) s;
             s2 = vmwrite vm_guest_cr3 pa s1;
             s3 = zero_pages 1 (virtualTLB (cpu s)) s2
         in Some (s3\<lparr>cpu := (cpu s3)\<lparr>virtualTLB_FreeSpot := virtualTLB (cpu s3) + 4096,
                                     virtualTLB_whiped := 1\<rparr>\<rparr>)))"

text \<open>One entry of an upper table: present, optionally writable, pointing at \<open>table\<close>.\<close>

definition table_entry :: "bool \<Rightarrow> UINT64 \<Rightarrow> UINT64 \<Rightarrow> machine \<Rightarrow> machine" where
  "table_entry rw at table s =
     (let (pa, s1) = VirtualToPhysical table s;
          e = set_bit 0 (host_load64 at s1);
          e1 = (if rw then set_bit 1 e else e)
      in host_store64 at (put_field 12 28 (drop_bit 12 pa) e1) s1)"

definition fill_pdpt :: "bool \<Rightarrow> UINT64 \<Rightarrow> UINT64 \<Rightarrow> nat \<Rightarrow> machine \<Rightarrow> machine" where
  "fill_pdpt rw pdpt dir n s =
     fold (\<lambda>i. table_entry rw (pdpt + 8 * of_nat i) (dir + of_nat i * 4096)) [0..<n] s"

text \<open>\<^verbatim>\<open>VirtualMachinePageDir[i]\<close>, a 2 MB page mapped onto itself.\<close>

definition identity_entry :: "nat \<Rightarrow> UINT64 \<Rightarrow> UINT64" where
  "identity_entry i e =
     put_field 12 28 (drop_bit 12 (of_nat i * 0x00200000))
       (unset_bit 3 (unset_bit 4 (set_bit 7 (set_bit 2 (set_bit 1 (unset_bit 5 (set_bit 0 e)))))))"

fun fill_dir :: "nat \<Rightarrow> nat \<Rightarrow> UINT64 \<Rightarrow> machine \<Rightarrow> machine option" where
  "fill_dir 0 i dir s = Some s"
| "fill_dir (Suc n) i dir s =
     (let at = dir + 8 * of_nat i;
          e = identity_entry i (host_load64 at s)
      in if i \<noteq> 0 \<and> PFN_base 28 e = 0 then None
         else fill_dir n (i + 1) dir (host_store64 at e s))"

definition setupNonPagedPaging :: "machine \<Rightarrow> machine option" where
  "setupNonPagedPaging s = do {
     s1 \<leftarrow> (if nonpagedEmulationPagedir s = 0 then do {
              (p, h) \<leftarrow> malloc (4096 + 4096 + 4096 * 8) (heap s);
              Some (zero_pages 10 p (s\<lparr>heap := h, nonpagedEmulationPagedir := p\<rparr>)) }
            else Some s);
     (let base = nonpagedEmulationPagedir s1;
          is64bitpaging = IS64BITPAGING s;
          pdpt = (if is64bitpaging then base + 0x1000 else base);
          s2 = (if is64bitpaging then table_entry True base pdpt s1 else s1);
          dir = pdpt + 0x1000;
          s3 = fill_pdpt is64bitpaging pdpt dir 8 s2
      in do {
        s4 \<leftarrow> fill_dir 4096 0 dir s3;
        (let (pa, s5) = VirtualToPhysical base s4 in Some (vmwrite vm_guest_cr3 pa s5)) }) }"

definition setupRealModePaging :: "machine \<Rightarrow> machine option" where
  "setupRealModePaging s = setupNonPagedPaging s"

section \<open>Registers by number\<close>

definition getRegister :: "machine \<Rightarrow> nat \<Rightarrow> UINT64" where
  "getRegister s n =
     (let r = regs s in
      if n = 0 then rax r else if n = 1 then rcx r else if n = 2 then rdx r else if n = 3 then rbx r
      else if n = 4 then vmread s vm_guest_rsp
      else if n = 5 then rbp r else if n = 6 then rsi r else if n = 7 then rdi r
      else if n = 8 then r8 r else if n = 9 then r9 r else if n = 10 then r10 r
      else if n = 11 then r11 r else if n = 12 then r12 r else if n = 13 then r13 r
      else if n = 14 then r14 r else if n = 15 then r15 r else 0)"

definition put_register :: "nat \<Rightarrow> UINT64 \<Rightarrow> machine \<Rightarrow> machine" where
  "put_register n v s =
     (let r = regs s in
      if n = 0 then s\<lparr>regs := r\<lparr>rax := v\<rparr>\<rparr> else if n = 1 then s\<lparr>regs := r\<lparr>rcx := v\<rparr>\<rparr>
      else if n = 2 then s\<lparr>regs := r\<lparr>rdx := v\<rparr>\<rparr> else if n = 3 then s\<lparr>regs := r\<lparr>rbx := v\<rparr>\<rparr>
      else if n = 4 then vmwrite vm_guest_rsp v s
      else if n = 5 then s\<lparr>regs := r\<lparr>rbp := v\<rparr>\<rparr> else if n = 6 then s\<lparr>regs := r\<lparr>rsi := v\<rparr>\<rparr>
      else if n = 7 then s\<lparr>regs := r\<lparr>rdi := v\<rparr>\<rparr> else if n = 8 then s\<lparr>regs := r\<lparr>r8 := v\<rparr>\<rparr>
      else if n = 9 then s\<lparr>regs := r\<lparr>r9 := v\<rparr>\<rparr> else if n = 10 then s\<lparr>regs := r\<lparr>r10 := v\<rparr>\<rparr>
      else if n = 11 then s\<lparr>regs := r\<lparr>r11 := v\<rparr>\<rparr> else if n = 12 then s\<lparr>regs := r\<lparr>r12 := v\<rparr>\<rparr>
      else if n = 13 then s\<lparr>regs := r\<lparr>r13 := v\<rparr>\<rparr> else if n = 14 then s\<lparr>regs := r\<lparr>r14 := v\<rparr>\<rparr>
      else if n = 15 then s\<lparr>regs := r\<lparr>r15 := v\<rparr>\<rparr> else s)"

definition setRegister :: "nat \<Rightarrow> UINT64 \<Rightarrow> machine \<Rightarrow> machine" where
  "setRegister n v s = put_register n (if IS64BITCODE s then v else v AND 0xffffffff) s"

section \<open>CR0\<close>

text \<open>
  \<^verbatim>\<open>x & (1<<31)\<close> with a 64-bit \<^verbatim>\<open>x\<close>: the constant is a negative \<^verbatim>\<open>int\<close> and is
  extended with its sign.
\<close>

definition PG_set :: "UINT64 \<Rightarrow> bool" where
  "PG_set v = (v AND 0xFFFFFFFF80000000 \<noteq> 0)"

definition ia32e_check :: "UINT64 \<Rightarrow> machine \<Rightarrow> machine" where
  "ia32e_check oldcr0 s =
     (let cr0 = guestCR0 (cpu s) in
      if oldcr0 AND 0x80000001 \<noteq> cr0 AND 0x80000001 then
        (if cr0 AND 0x80000001 = 0x80000001 \<and> bit (efer (cpu s)) 8
         then vmwrite vm_entry_controls (vmread s vm_entry_controls OR 0x200) s
         else vmwrite vm_entry_controls (vmread s vm_entry_controls AND 0xfffffffffffffdff) s)
      else s)"

text \<open>Processor-based controls: bits 9, 25 and 28, and bit 7 (exit on HLT) in real mode.\<close>

definition cpu_controls :: "bool \<Rightarrow> machine \<Rightarrow> machine" where
  "cpu_controls hlt s = vmwrite vm_execution_controls_cpu
     (ucast ((ucast (IA32_VMX_PROCBASED_CTLS s) :: ULONG)
        OR (if hlt then 0x80 else 0) OR 0x200 OR 0x2000000 OR 0x10000000)) s"

definition flat_segments :: "machine \<Rightarrow> machine" where
  "flat_segments s =
     (let ar = ucast (access_rights 3 3);
          s1 = vmwrite vm_guest_cs_access_rights (ucast (access_rights 15 0)) s;
          s2 = vmwrite vm_guest_cs (vmread s1 vm_guest_cs AND 0xfffc) s1;
          s3 = vmwrite vm_guest_es_access_rights ar s2;
          s4 = vmwrite vm_guest_ds_access_rights ar s3;
          s5 = vmwrite vm_guest_fs_access_rights ar s4;
          s6 = vmwrite vm_guest_gs_access_rights ar s5
      in vmwrite vm_guest_ss_access_rights
           (ucast (access_rights 3 (ucast (vmread s6 vm_guest_ss AND 3)))) s6)"

definition real_to_protected :: "UINT64 \<Rightarrow> machine \<Rightarrow> machine option" where
  "real_to_protected newcr0 s =
     (let c = cpu s;
          s1 = cpu_controls False s;
          s2 = vmwrite vm_guest_tr_access_rights (ucast (TSaccessRights c)) s1;
          s3 = vmwrite vm_guest_tr_limit (ucast (TSlimit c)) s2;
          s4 = vmwrite vm_guest_tr_base (TSbase c) s3;
          s5 = vmwrite vm_guest_tr (ucast (TSsegment c)) s4;
          s6 = flat_segments s5;
          rflags = vmread s6 vm_guest_rflags
      in if bit rflags 9 \<or> hasIF c \<noteq> 0 then None
         else
           (let f1 = unset_bit 8 (unset_bit 17 rflags);
                f2 = put_field 12 2 0 (put_field 9 1 (ucast (hasIF c)) f1);
                s7 = vmwrite vm_guest_rflags (take_bit 32 f2) s6;
                s8 = vmwrite vm_guest_gdtr_base (RealMode_GDTBase c) s7;
                s9 = vmwrite vm_guest_gdt_limit (ucast (RealMode_GDTLimit c)) s8;
                s10 = vmwrite vm_guest_idtr_base (RealMode_IDTBase c) s9;
                s11 = vmwrite vm_guest_idt_limit (ucast (RealMode_IDTLimit c)) s10
            in if PG_set newcr0 then do {
                 s12 \<leftarrow> emulatePaging s11;
                 Some (vmwrite vm_guest_cr4 (vmread s12 vm_cr4_fakeread OR msr s12 0x488) s12) }
               else do {
                 s12 \<leftarrow> setupNonPagedPaging s11;
                 Some (vmwrite vm_guest_cr4
                   (vmread s12 vm_cr4_fakeread OR msr s12 0x488 OR 0x10 OR 0x20) s12) }))"

definition protected_to_real :: "machine \<Rightarrow> machine option" where
  "protected_to_real s =
     (let s1 = cpu_controls True s;
          rflags = vmread s1 vm_guest_rflags;
          s2 = s1\<lparr>cpu := (cpu s1)\<lparr>TSaccessRights := ucast (vmread s1 vm_guest_tr_access_rights),
                 TSlimit := ucast (vmread s1 vm_guest_tr_limit),
                 TSbase := vmread s1 vm_guest_tr_base,
                 TSsegment := ucast (vmread s1 vm_guest_tr),
                 hasIF := (if bit rflags 9 then 1 else 0)\<rparr>\<rparr>;
          s3 = vmwrite vm_guest_rflags (set_bit 17 (put_field 12 2 3 rflags)) s2;
          s4 = s3\<lparr>cpu := (cpu s3)\<lparr>RealMode_GDTBase := vmread s3 vm_guest_gdtr_base,
                 RealMode_GDTLimit := ucast (vmread s3 vm_guest_gdt_limit),
                 RealMode_IDTBase := vmread s3 vm_guest_idtr_base,
                 RealMode_IDTLimit := ucast (vmread s3 vm_guest_idt_limit)\<rparr>\<rparr>;
          s5 = vmwrite vm_guest_cr0
            (ucast (ucast (IA32_VMX_CR0_FIXED0 s4) :: ULONG) OR vmread s4 vm_cr0_fakeread) s4;
          s6 = vmwrite vm_guest_cr4
            (ucast (ucast (IA32_VMX_CR4_FIXED0 s5) :: ULONG) OR 1 OR 0x10 OR 0x20
              OR vmread s5 vm_cr4_fakeread) s5
      in setupRealModePaging s6)"

definition paging_on :: "UINT64 \<Rightarrow> machine \<Rightarrow> machine option" where
  "paging_on newcr0 s =
     (if newcr0 AND 1 = 1 then do {
        s1 \<leftarrow> emulatePaging s;
        Some (vmwrite vm_guest_cr4
          (ucast (ucast (IA32_VMX_CR4_FIXED0 s1) :: ULONG) OR vmread s1 vm_cr4_fakeread) s1) }
      else Some s)"

definition usable_ss :: "machine \<Rightarrow> machine" where
  "usable_ss s =
     (let ar = ucast (vmread s vm_guest_ss_access_rights) :: ULONG in
      if bit ar 16 then
        (let ar1 = put_field 14 1 1 (put_field 15 1 1 (put_field 7 1 1 (put_field 5 2 0
               (put_field 4 1 1 (put_field 0 4 3 (unset_bit 16 ar))))));
             s1 = vmwrite vm_guest_ss 8 s;
             s2 = vmwrite vm_guest_ss_base 0 s1;
             s3 = vmwrite vm_guest_ss_limit 0xffffffff s2;
             s4 = vmwrite vm_guest_ss_access_rights (ucast ar1) s3
         in vmwrite vm_guest_cs_access_rights
              (ucast (unset_bit 13 (ucast (vmread s4 vm_guest_cs_access_rights) :: ULONG))) s4)
      else s)"

definition paging_off :: "UINT64 \<Rightarrow> machine \<Rightarrow> machine option" where
  "paging_off newcr0 s =
     (if newcr0 AND 1 = 1 then do {
        s1 \<leftarrow> setupNonPagedPaging s;
        Some (usable_ss (vmwrite vm_guest_cr4 (vmread s1 vm_guest_cr4 OR 0x10 OR 0x20) s1)) }
      else Some s)"

definition cr0_finish :: "UINT64 \<Rightarrow> UINT64 \<Rightarrow> machine \<Rightarrow> machine option" where
  "cr0_finish oldcr0 newcr0 s =
     (let s1 = vmwrite vm_guest_cr0 (IA32_VMX_CR0_FIXED0 s OR newcr0) s;
          fake = vmread s1 vm_cr0_fakeread;
          difference = ucast (oldcr0 XOR fake) :: ULONG
      in if fake AND 0x80000001 = 0x80000001
            \<and> (bit difference 16 \<or> bit difference 29 \<or> bit difference 30)
         then emulatePaging s1 else Some s1)"

definition setVM_CR0 :: "UINT64 \<Rightarrow> machine \<Rightarrow> (int \<times> machine) option" where
  "setVM_CR0 cr0 s =
     (let oldcr0 = guestCR0 (cpu s);
          s1 = s\<lparr>cpu := (cpu s)\<lparr>guestCR0 := cr0\<rparr>\<rparr>;
          newcr0 = cr0 OR 0x10;
          s2 = ia32e_check oldcr0 (vmwrite vm_cr0_fakeread newcr0 s1)
      in if IA32_VMX_CR0_FIXED1 s2 AND newcr0 \<noteq> newcr0 then Some (1, s2)
         else if oldcr0 AND 1 = 1 \<and> newcr0 AND 1 = 0 then do {
           s3 \<leftarrow> protected_to_real s2;
           Some (0, s3) }
         else do {
           s3 \<leftarrow> (if newcr0 AND 1 = 1 \<and> oldcr0 AND 1 = 0 then real_to_protected newcr0 s2
                  else Some s2);
           s4 \<leftarrow> (if PG_set newcr0 \<and> \<not> PG_set oldcr0 then paging_on newcr0 s3
                  else if PG_set oldcr0 \<and> \<not> PG_set newcr0 then paging_off newcr0 s3
                  else Some s3);
           s5 \<leftarrow> cr0_finish oldcr0 newcr0 s4;
           Some (0, s5) })"

section \<open>CR3 and CR4\<close>

definition setVM_CR3 :: "UINT64 \<Rightarrow> machine \<Rightarrow> (int \<times> machine) option" where
  "setVM_CR3 newcr3 s =
     (let s1 = (if um_Active (ultimap (cpu s)) \<noteq> 0
                then ultimap_handleCR3Change (guestCR3 (cpu s)) newcr3 s else s);
          cr3 = (if IS64BITPAGING s1 then newcr3 else newcr3 AND 0xffffffff);
          s2 = s1\<lparr>cpu := (cpu s1)\<lparr>guestCR3 := cr3\<rparr>\<rparr>
      in if PG_set (vmread s2 vm_cr0_fakeread) then
           (if cr3_change_callback (cpu s2) \<noteq> 0 then None
            else do { s3 \<leftarrow> emulatePaging s2; Some (0, s3) })
         else Some (0, s2))"

definition setVM_CR4 :: "UINT64 \<Rightarrow> machine \<Rightarrow> (int \<times> machine) option" where
  "setVM_CR4 newcr4 s =
     (let oldCR4 = vmread s vm_cr4_fakeread;
          fixed0 = msr s 0x488;
          fixed1 = msr s 0x489;
          cr4 = (if IS64BITCODE s then newcr4 else newcr4 AND 0xffffffff)
      in if fixed1 AND cr4 \<noteq> cr4 then Some (1, s)
         else
           (let s1 = vmwrite vm_cr4_fakeread cr4 s;
                v = fixed0 OR cr4
            in do {
              s2 \<leftarrow> (if PG_set (vmread s1 vm_cr0_fakeread) \<and> bit oldCR4 5 \<and> \<not> bit v 5
                     then emulatePaging s1 else Some s1);
              (let v1 = (if PG_set (vmread s1 vm_cr0_fakeread) then v else v OR 0x10 OR 0x20);
                   v2 = (if vmread s2 vm_cr0_fakeread AND 1 = 0 then v1 OR 0x10 OR 0x20 else v1);
                   v3 = (if ISREALMODE s2 then v2 OR 1 else v2);
                   s3 = vmwrite vm_guest_cr4 v3 s2;
                   difference = oldCR4 XOR vmread s3 vm_cr4_fakeread
               in if vmread s3 vm_cr0_fakeread AND 0x80000001 = 0x80000001
                     \<and> (bit difference 4 \<or> bit difference 5)
                  then do { s4 \<leftarrow> emulatePaging s3; Some (0, s4) }
                  else Some (0, s3)) }))"

section \<open>Control register exits\<close>

definition next_instruction :: "machine \<Rightarrow> machine" where
  "next_instruction s =
     vmwrite vm_guest_rip (vmread s vm_guest_rip + vmread s vm_exit_instructionlength) s"

definition cr_written :: "(int \<times> machine) option \<Rightarrow> (int \<times> machine) option" where
  "cr_written r = map_option (\<lambda>(e, s). (e, if e = 0 then next_instruction s else s)) r"

text \<open>The new CR0: CLTS clears bit 3, LMSW replaces the low 4 bits, MOV takes a register.\<close>

definition new_CR0 :: "nat \<Rightarrow> nat \<Rightarrow> BYTE \<Rightarrow> machine \<Rightarrow> UINT64" where
  "new_CR0 accesstype reg LMSW_sourcedata s =
     (let oldcr0 = guestCR0 (cpu s) in
      if accesstype = 2 then oldcr0 AND 0xFFFFFFFFFFFFFFF7
      else if accesstype = 3
      then (oldcr0 AND 0xFFFFFFFFFFFFFFF0) OR ucast (LMSW_sourcedata AND 0xf)
      else if IS64BITCODE s then getRegister s reg else getRegister s reg AND 0xffffffff)"

definition handleCRaccess :: "machine \<Rightarrow> (int \<times> machine) option" where
  "handleCRaccess s =
     (let exit_qualification = ucast (vmread s vm_exit_qualification) :: ULONG;
          CR_number = unat (exit_qualification AND 0xf);
          accesstype = unat (drop_bit 4 exit_qualification AND 3);
          reg = unat (drop_bit 8 exit_qualification AND 0xf);
          LMSW_sourcedata = ucast (drop_bit 16 exit_qualification AND 0xffff) :: BYTE
      in if CR_number = 0 then
           (if accesstype \<in> {0, 2, 3}
            then cr_written (setVM_CR0 (new_CR0 accesstype reg LMSW_sourcedata s) s)
            else Some (0, next_instruction (setRegister reg (vmread s vm_cr0_fakeread) s)))
         else if CR_number = 3 then
           (if accesstype = 0 then cr_written (setVM_CR3 (getRegister s reg) s)
            else if accesstype = 1
            then Some (0, next_instruction (setRegister reg (guestCR3 (cpu s)) s))
            else Some (1, s))
         else if CR_number = 4 then
           (if accesstype = 0 then cr_written (setVM_CR4 (getRegister s reg) s)
            else if accesstype = 1
            then Some (0, next_instruction (setRegister reg (vmread s vm_cr0_fakeread) s))
            else Some (1, s))
         else Some (1, s))"

section \<open>What the handlers touch\<close>

lemma VirtualToPhysical_frame [simp]:
  "vmcs (snd (VirtualToPhysical a s)) = vmcs s" "cpu (snd (VirtualToPhysical a s)) = cpu s"
  "regs (snd (VirtualToPhysical a s)) = regs s" "isAMD (snd (VirtualToPhysical a s)) = isAMD s"
  "vmmstart (snd (VirtualToPhysical a s)) = vmmstart s" "msr (snd (VirtualToPhysical a s)) = msr s"
  "IA32_VMX_CR0_FIXED0 (snd (VirtualToPhysical a s)) = IA32_VMX_CR0_FIXED0 s"
  by (simp_all add: VirtualToPhysical_def MapPhysicalMemory_def MapPhysicalMemoryEx_def Let_def)

text \<open>
  \<open>touches F s t\<close>: from \<open>s\<close> to \<open>t\<close> only the VMCS fields \<open>F\<close> change; the guest's
  general registers, its view of CR0 and CR3, the processor's MSRs and constraints on CR0, the
  tracer and the location of the virtual TLB stay.
\<close>

definition touches :: "nat set \<Rightarrow> machine \<Rightarrow> machine \<Rightarrow> bool" where
  "touches F s t \<longleftrightarrow> (\<forall>f. f \<notin> F \<longrightarrow> vmcs t f = vmcs s f) \<and> regs t = regs s
     \<and> guestCR0 (cpu t) = guestCR0 (cpu s) \<and> guestCR3 (cpu t) = guestCR3 (cpu s)
     \<and> virtualTLB (cpu t) = virtualTLB (cpu s) \<and> virtualTLB_Max (cpu t) = virtualTLB_Max (cpu s)
     \<and> ultimap (cpu t) = ultimap (cpu s) \<and> cr3_change_callback (cpu t) = cr3_change_callback (cpu s)
     \<and> isAMD t = isAMD s \<and> vmmstart t = vmmstart s \<and> msr t = msr s
     \<and> IA32_VMX_CR0_FIXED0 t = IA32_VMX_CR0_FIXED0 s"

lemma touches_refl [simp]: "touches F s s"
  by (simp add: touches_def)

lemma touches_trans [trans]: "touches F s t \<Longrightarrow> touches F t u \<Longrightarrow> touches F s u"
  by (auto simp: touches_def)

lemma touches_mono: "touches F s t \<Longrightarrow> F \<subseteq> G \<Longrightarrow> touches G s t"
  by (auto simp: touches_def)

lemma touches_vmwrite: "touches F s t \<Longrightarrow> f \<in> F \<Longrightarrow> touches F s (vmwrite f v t)"
  by (auto simp: touches_def vmwrite_def)

lemma touches_read: "touches F s t \<Longrightarrow> f \<notin> F \<Longrightarrow> vmread t f = vmread s f"
  by (simp add: touches_def vmread_def)

lemma touches_cpu: "touches F s t \<Longrightarrow> guestCR0 (cpu t) = guestCR0 (cpu s)"
  "touches F s t \<Longrightarrow> guestCR3 (cpu t) = guestCR3 (cpu s)"
  "touches F s t \<Longrightarrow> regs t = regs s" "touches F s t \<Longrightarrow> isAMD t = isAMD s"
  "touches F s t \<Longrightarrow> IA32_VMX_CR0_FIXED0 t = IA32_VMX_CR0_FIXED0 s"
  by (simp_all add: touches_def)

lemma touches_store: "touches F s t \<Longrightarrow> touches F s (host_store64 va v t)"
  by (simp add: touches_def host_store64_def)

lemma touches_VTP: "touches F s t \<Longrightarrow> touches F s (snd (VirtualToPhysical a t))"
  by (simp add: touches_def)

lemma touches_zero_pages: "touches F s t \<Longrightarrow> touches F s (zero_pages n va t)"
  by (induction n arbitrary: va t) (simp_all add: touches_def)

lemma touches_table_entry: "touches F s t \<Longrightarrow> touches F s (table_entry rw at table t)"
  by (simp add: table_entry_def Let_def split_beta touches_store touches_VTP)

lemma touches_fold:
  "(\<And>i t. touches F s t \<Longrightarrow> touches F s (g i t)) \<Longrightarrow> touches F s t \<Longrightarrow> touches F s (fold g is t)"
  by (induction "is" arbitrary: t) simp_all

lemma touches_fill_dir: "fill_dir n i dir t = Some u \<Longrightarrow> touches F s t \<Longrightarrow> touches F s u"
  by (induction n arbitrary: i t) (auto simp: Let_def touches_store split: if_splits)

lemma setupNonPagedPaging_touches:
  assumes "setupNonPagedPaging s = Some t"
  shows "touches {vm_guest_cr3} s t"
proof -
  have "touches {vm_guest_cr3} s (zero_pages n p (s\<lparr>heap := h, nonpagedEmulationPagedir := q\<rparr>))" for n p h q
    by (rule touches_zero_pages) (simp add: touches_def)
  then show ?thesis
    using assms
    by (fastforce simp: setupNonPagedPaging_def fill_pdpt_def bind_Some_iff Let_def split_beta
        split: if_splits intro!: touches_vmwrite touches_VTP intro: touches_fill_dir
        touches_fold touches_table_entry)
qed

lemma emulatePaging_touches:
  assumes "emulatePaging s = Some t"
  shows "touches {vm_guest_cr3} s t"
proof -
  have "touches {vm_guest_cr3} s (zero_pages n p (vmwrite vm_guest_cr3 v (snd (VirtualToPhysical a s))))" for n p v a
    by (intro touches_zero_pages touches_vmwrite touches_VTP) simp_all
  then show ?thesis
    using assms
    by (auto simp: emulatePaging_def Let_def split_beta touches_def vmwrite_def split: if_splits)
qed

text \<open>The fields a mode switch writes, besides CR0 and what the guest sees of CR0 and CR4.\<close>

definition switch_fields :: "nat set" where
  "switch_fields = {vm_guest_cs, vm_guest_ss, vm_guest_tr, vm_guest_IA32_DEBUGCTL,
     vm_execution_controls_cpu, vm_entry_controls, vm_guest_ss_limit, vm_guest_tr_limit,
     vm_guest_gdt_limit, vm_guest_idt_limit, vm_guest_es_access_rights, vm_guest_cs_access_rights,
     vm_guest_ss_access_rights, vm_guest_ds_access_rights, vm_guest_fs_access_rights,
     vm_guest_gs_access_rights, vm_guest_tr_access_rights, vm_guest_cr3, vm_guest_cr4,
     vm_guest_ss_base, vm_guest_tr_base, vm_guest_gdtr_base, vm_guest_idtr_base, vm_guest_rflags}"

lemma vmwrite_touches: "f \<in> F \<Longrightarrow> touches F s (vmwrite f v s)"
  by (simp add: touches_vmwrite)

lemma cr3_switch: "{vm_guest_cr3} \<subseteq> switch_fields" "{vm_guest_cr3} \<subseteq> insert f switch_fields"
  by (simp_all add: switch_fields_def)

lemma emulatePaging_switch: "emulatePaging t = Some u \<Longrightarrow> touches switch_fields s t \<Longrightarrow> touches switch_fields s u"
  by (erule touches_trans) (rule touches_mono [OF emulatePaging_touches cr3_switch(1)])

lemma setupNonPagedPaging_switch:
  "setupNonPagedPaging t = Some u \<Longrightarrow> touches switch_fields s t \<Longrightarrow> touches switch_fields s u"
  by (erule touches_trans) (rule touches_mono [OF setupNonPagedPaging_touches cr3_switch(1)])

lemma flat_segments_touches: "touches switch_fields s t \<Longrightarrow> touches switch_fields s (flat_segments t)"
  unfolding flat_segments_def Let_def by (intro touches_vmwrite) (simp_all add: switch_fields_def)

lemma cpu_controls_touches: "touches switch_fields s t \<Longrightarrow> touches switch_fields s (cpu_controls h t)"
  unfolding cpu_controls_def by (intro touches_vmwrite) (simp_all add: switch_fields_def)

lemma cr4_switch: "vm_guest_cr4 \<in> switch_fields"
  by (simp add: switch_fields_def)

lemma real_to_protected_touches:
  assumes "real_to_protected v s = Some t"
  shows "touches switch_fields s t"
proof -
  have *: "touches switch_fields s (vmwrite vm_guest_idt_limit a (vmwrite vm_guest_idtr_base b
      (vmwrite vm_guest_gdt_limit c (vmwrite vm_guest_gdtr_base d (vmwrite vm_guest_rflags e
      (flat_segments (vmwrite vm_guest_tr f (vmwrite vm_guest_tr_base g (vmwrite vm_guest_tr_limit h
      (vmwrite vm_guest_tr_access_rights i (cpu_controls False s)))))))))))" for a b c d e f g h i
    by (intro touches_vmwrite flat_segments_touches cpu_controls_touches touches_refl)
      (simp_all add: switch_fields_def)
  show ?thesis
    using assms unfolding real_to_protected_def Let_def
    by (auto simp: bind_Some_iff split: if_splits intro!: touches_vmwrite [OF _ cr4_switch]
        dest!: emulatePaging_switch [OF _ *] setupNonPagedPaging_switch [OF _ *])
qed

lemma usable_ss_touches: "touches switch_fields s t \<Longrightarrow> touches switch_fields s (usable_ss t)"
  unfolding usable_ss_def Let_def
  by (auto intro!: touches_vmwrite simp: switch_fields_def)

lemma paging_on_touches: "paging_on v s = Some t \<Longrightarrow> touches switch_fields s t"
  by (auto simp: paging_on_def bind_Some_iff cr4_switch split: if_splits
      intro!: touches_vmwrite dest!: emulatePaging_switch [OF _ touches_refl])

lemma paging_off_touches: "paging_off v s = Some t \<Longrightarrow> touches switch_fields s t"
  by (auto simp: paging_off_def bind_Some_iff cr4_switch split: if_splits
      intro!: usable_ss_touches touches_vmwrite dest!: setupNonPagedPaging_switch [OF _ touches_refl])

lemma ia32e_check_touches: "touches switch_fields s (ia32e_check v s)"
  unfolding ia32e_check_def Let_def
  by (auto intro!: vmwrite_touches simp: switch_fields_def)

lemma protected_to_real_touches:
  assumes "protected_to_real s = Some t"
  shows "touches (insert vm_guest_cr0 switch_fields) s t"
    "vmread t vm_guest_cr0 = ucast (ucast (IA32_VMX_CR0_FIXED0 s) :: ULONG) OR vmread s vm_cr0_fakeread"
proof -
  obtain u where u: "setupNonPagedPaging u = Some t" "touches (insert vm_guest_cr0 switch_fields) s u"
    "vmread u vm_guest_cr0 = ucast (ucast (IA32_VMX_CR0_FIXED0 s) :: ULONG) OR vmread s vm_cr0_fakeread"
    using assms unfolding protected_to_real_def setupRealModePaging_def Let_def
    by (rule that) (simp_all add: touches_def switch_fields_def cpu_controls_def vmwrite_def vmread_def)
  have t: "touches {vm_guest_cr3} u t" by (rule setupNonPagedPaging_touches [OF u(1)])
  have "touches (insert vm_guest_cr0 switch_fields) u t"
    by (rule touches_mono [OF t]) (simp add: switch_fields_def)
  with u(2) show "touches (insert vm_guest_cr0 switch_fields) s t" by (rule touches_trans)
  show "vmread t vm_guest_cr0 = ucast (ucast (IA32_VMX_CR0_FIXED0 s) :: ULONG) OR vmread s vm_cr0_fakeread"
    using touches_read [OF t, of vm_guest_cr0] u(3) by simp
qed

lemma cr0_finish_touches:
  assumes "cr0_finish old v s = Some t"
  shows "touches (insert vm_guest_cr0 switch_fields) s t"
    "vmread t vm_guest_cr0 = IA32_VMX_CR0_FIXED0 s OR v"
proof -
  let ?u = "vmwrite vm_guest_cr0 (IA32_VMX_CR0_FIXED0 s OR v) s"
  have t: "touches {vm_guest_cr3} ?u t"
    using assms by (auto simp: cr0_finish_def Let_def dest: emulatePaging_touches split: if_splits)
  then have "touches (insert vm_guest_cr0 switch_fields) ?u t"
    by (rule touches_mono) (simp add: switch_fields_def)
  moreover have "touches (insert vm_guest_cr0 switch_fields) s ?u" by (simp add: vmwrite_touches)
  ultimately show "touches (insert vm_guest_cr0 switch_fields) s t" using touches_trans by blast
  show "vmread t vm_guest_cr0 = IA32_VMX_CR0_FIXED0 s OR v"
    using touches_read [OF t, of vm_guest_cr0] by simp
qed

abbreviation (input) cr0_fields :: "nat set" where
  "cr0_fields \<equiv> insert vm_guest_cr0 switch_fields"

lemma fake_not_switch: "vm_cr0_fakeread \<notin> cr0_fields" "vm_cr4_fakeread \<notin> cr0_fields"
  "vm_guest_rip \<notin> cr0_fields" "vm_guest_rsp \<notin> cr0_fields" "vm_exit_instructionlength \<notin> cr0_fields"
  by (simp_all add: switch_fields_def)

lemma switch_cr0: "touches switch_fields s t \<Longrightarrow> touches cr0_fields s t"
  by (erule touches_mono) auto

text \<open>The state after the guest's view of CR0 has been set.\<close>

definition cr0_seen :: "UINT64 \<Rightarrow> machine \<Rightarrow> machine" where
  "cr0_seen v s = vmwrite vm_cr0_fakeread (v OR 0x10) (s\<lparr>cpu := (cpu s)\<lparr>guestCR0 := v\<rparr>\<rparr>)"

lemma ucast_ucast32:
  assumes "unat (x :: UINT64) < 2 ^ 32"
  shows "ucast (ucast x :: ULONG) = x"
proof (rule bit_word_eqI)
  fix k
  show "bit (ucast (ucast x :: ULONG) :: UINT64) k = bit x k"
    using high_bits_zero [OF assms, of k] by (cases "32 \<le> k") (auto simp: bit_simps)
qed

text \<open>Whichever modes it switches between, refused or not, a write of CR0 goes through this.\<close>

lemma setVM_CR0_cases:
  assumes "setVM_CR0 v s = Some (r, t)"
  defines "s2 \<equiv> ia32e_check (guestCR0 (cpu s)) (cr0_seen v s)"
  obtains (refused) "r = 1" "t = s2" "IA32_VMX_CR0_FIXED1 s AND (v OR 0x10) \<noteq> v OR 0x10"
  | (leave) "r = 0" "protected_to_real s2 = Some t" "IA32_VMX_CR0_FIXED1 s AND (v OR 0x10) = v OR 0x10"
  | (stay) s4 where "r = 0" "touches switch_fields s2 s4"
      "cr0_finish (guestCR0 (cpu s)) (v OR 0x10) s4 = Some t"
      "IA32_VMX_CR0_FIXED1 s AND (v OR 0x10) = v OR 0x10"
proof -
  have f1: "IA32_VMX_CR0_FIXED1 s2 = IA32_VMX_CR0_FIXED1 s"
    by (simp add: s2_def ia32e_check_def cr0_seen_def Let_def)
  note r = assms(1) [unfolded setVM_CR0_def Let_def cr0_seen_def [symmetric] s2_def [symmetric] f1]
  show thesis
  proof (cases "IA32_VMX_CR0_FIXED1 s AND (v OR 0x10) = v OR 0x10")
    case False
    with r refused show ?thesis by auto
  next
    case True
    show ?thesis
    proof (cases "guestCR0 (cpu s) AND 1 = 1 \<and> (v OR 0x10) AND 1 = 0")
      case leaving: True
      with r True leave show ?thesis by (auto simp: bind_Some_iff)
    next
      case False
      with r True obtain s3 s4 where "s3 = s2 \<or> real_to_protected (v OR 0x10) s2 = Some s3"
        and "s4 = s3 \<or> paging_on (v OR 0x10) s3 = Some s4 \<or> paging_off (v OR 0x10) s3 = Some s4"
        and "r = 0" "cr0_finish (guestCR0 (cpu s)) (v OR 0x10) s4 = Some t"
        by (auto simp: bind_Some_iff split: if_splits)
      moreover from this have "touches switch_fields s2 s4"
        using real_to_protected_touches paging_on_touches paging_off_touches touches_trans
        by (metis touches_refl)
      ultimately show ?thesis using stay True by blast
    qed
  qed
qed

lemma cr0_seen_check: "touches cr0_fields (cr0_seen v s) (ia32e_check old (cr0_seen v s))"
  by (intro switch_cr0 ia32e_check_touches)

lemma setVM_CR0_touches:
  assumes "setVM_CR0 v s = Some (r, t)"
  shows "touches cr0_fields (cr0_seen v s) t"
  using assms
proof (cases rule: setVM_CR0_cases)
  case refused
  then show ?thesis using cr0_seen_check by simp
next
  case leave
  then show ?thesis using protected_to_real_touches(1) cr0_seen_check touches_trans by blast
next
  case (stay s4)
  then show ?thesis using cr0_finish_touches(1) switch_cr0 cr0_seen_check touches_trans by meson
qed

lemma setVM_CR0_value:
  assumes "setVM_CR0 v s = Some (0, t)" and fixed: "unat (IA32_VMX_CR0_FIXED0 s) < 2 ^ 32"
  shows "vmread t vm_guest_cr0 = IA32_VMX_CR0_FIXED0 s OR (v OR 0x10)
    \<and> IA32_VMX_CR0_FIXED1 s AND (v OR 0x10) = v OR 0x10"
proof -
  let ?s2 = "ia32e_check (guestCR0 (cpu s)) (cr0_seen v s)"
  have fx: "IA32_VMX_CR0_FIXED0 ?s2 = IA32_VMX_CR0_FIXED0 s"
    using touches_cpu(5) [OF cr0_seen_check] by (simp add: cr0_seen_def)
  from assms(1) show ?thesis
  proof (cases rule: setVM_CR0_cases)
    case leave
    then show ?thesis
      using protected_to_real_touches(2) [OF leave(2)] fx ucast_ucast32 [OF fixed]
        touches_read [OF cr0_seen_check fake_not_switch(1)] by (simp add: cr0_seen_def)
  next
    case (stay s4)
    then show ?thesis using cr0_finish_touches(2) fx touches_cpu(5) [OF stay(2)] by simp
  qed simp
qed

text \<open>
  C7: a CR0 write that is not refused gives the processor a CR0 that VMX allows: whatever modes it
  switches between, the real CR0 is the guest's value with ET and all the bits the processor
  demands, and no bit it forbids, while the guest sees its own value with ET, and its
  general registers, RSP and CR4 are untouched.
\<close>

theorem setVM_CR0_real:
  assumes "setVM_CR0 v s = Some (0, t)" "unat (IA32_VMX_CR0_FIXED0 s) < 2 ^ 32"
    and "IA32_VMX_CR0_FIXED0 s AND IA32_VMX_CR0_FIXED1 s = IA32_VMX_CR0_FIXED0 s"
  shows "vmread t vm_guest_cr0 = IA32_VMX_CR0_FIXED0 s OR v OR 0x10
    \<and> vmread t vm_guest_cr0 AND IA32_VMX_CR0_FIXED1 s = vmread t vm_guest_cr0
    \<and> vmread t vm_cr0_fakeread = v OR 0x10 \<and> guestCR0 (cpu t) = v
    \<and> regs t = regs s \<and> vmread t vm_guest_rsp = vmread s vm_guest_rsp
    \<and> vmread t vm_cr4_fakeread = vmread s vm_cr4_fakeread"
proof -
  note suc = setVM_CR0_touches [OF assms(1)] setVM_CR0_value [OF assms(1,2), THEN conjunct1]
    setVM_CR0_value [OF assms(1,2), THEN conjunct2]
  have legal: "(IA32_VMX_CR0_FIXED0 s OR (v OR 0x10)) AND IA32_VMX_CR0_FIXED1 s
      = IA32_VMX_CR0_FIXED0 s OR (v OR 0x10)"
    using assms(3) suc(3) by (simp add: and.commute [of "IA32_VMX_CR0_FIXED1 s"] bit.conj_disj_distrib2)
  then show ?thesis
    using suc(2) touches_cpu [OF suc(1)] touches_read [OF suc(1) fake_not_switch(1)]
      touches_read [OF suc(1) fake_not_switch(2)] touches_read [OF suc(1) fake_not_switch(4)]
    by (simp add: or.assoc cr0_seen_def)
qed

lemma sample_protected:
  "setVM_CR0 0x10 sample = Some (0, vmwrite vm_guest_cr0 0x80000031 (vmwrite vm_cr0_fakeread 0x10
     (sample\<lparr>cpu := (cpu sample)\<lparr>guestCR0 := 0x10\<rparr>\<rparr>)))"
  by (simp add: setVM_CR0_def Let_def ia32e_check_def cr0_finish_def PG_set_def sample_def vmread_def vmwrite_def)

theorem setVM_CR0_real_witness:
  "\<exists>t. setVM_CR0 0x10 sample = Some (0, t) \<and> vmread t vm_guest_cr0 = 0x80000031
    \<and> vmread t vm_cr0_fakeread = 0x10 \<and> regs t = regs sample"
  using setVM_CR0_real [OF sample_protected] sample_protected by (simp add: sample_def)

section \<open>The register file of the exits\<close>

lemma upt_16: "[0..<16] = [0, 1, 2, 3, 4, 5, 6, 7, 8, 9] @ map (\<lambda>k. k + 10) [0, 1, 2, 3, 4, 5]"
  by (simp add: upt_rec)

interpretation xr: regfile getRegister put_register 16
proof
  fix m n :: nat and v u :: UINT64 and s :: machine
  have "n < 16 \<longrightarrow> getRegister (put_register n v s) m = (if m = n then v else getRegister s m)" if "m < 16"
    by (rule register_number [of 16 _ n])
      (use that in \<open>simp_all add: upt_16 getRegister_def put_register_def Let_def\<close>)
  then show "m < 16 \<Longrightarrow> n < 16 \<Longrightarrow>
      getRegister (put_register n v s) m = (if m = n then v else getRegister s m)" by blast
  show "put_register n v (put_register n u s) = put_register n v s"
    by (rule register_number [of 16 _ n]) (simp_all add: upt_16 put_register_def vmwrite_def)
  show "put_register n (getRegister s n) s = s"
    by (rule register_number [of 16 _ n])
      (simp_all add: upt_16 getRegister_def put_register_def vmwrite_def vmread_def)
qed

lemma getRegister_frame [simp]:
  "n < 16 \<Longrightarrow> getRegister (next_instruction s) n = getRegister s n"
  by (simp add: getRegister_def next_instruction_def Let_def)

definition code_width :: "machine \<Rightarrow> UINT64 \<Rightarrow> UINT64" where
  "code_width s v = (if IS64BITCODE s then v else v AND 0xffffffff)"

lemma getRegister_setRegister: "n < 16 \<Longrightarrow> getRegister (setRegister n v s) n = code_width s v"
  by (simp add: setRegister_def code_width_def xr.get_same)

section \<open>Control register exits\<close>

text \<open>An exit for access \<open>acc\<close> to control register \<open>n\<close> with general register \<open>r\<close>.\<close>

definition cr_exit :: "nat \<Rightarrow> nat \<Rightarrow> nat \<Rightarrow> machine \<Rightarrow> machine" where
  "cr_exit n acc r s =
     s\<lparr>vmcs := (vmcs s)(vm_exit_qualification := of_nat (n + 16 * acc + 256 * r))\<rparr>"

lemma cr_exit_fields:
  assumes "n < 16" "acc < 4" "r < 16"
  shows "unat ((ucast (vmread (cr_exit n acc r s) vm_exit_qualification) :: ULONG) AND 0xf) = n"
    and "unat (drop_bit 4 (ucast (vmread (cr_exit n acc r s) vm_exit_qualification) :: ULONG) AND 3) = acc"
    and "unat (drop_bit 8 (ucast (vmread (cr_exit n acc r s) vm_exit_qualification) :: ULONG) AND 0xf) = r"
proof -
  let ?q = "ucast (vmread (cr_exit n acc r s) vm_exit_qualification) :: ULONG"
  define x where "x = n + 16 * acc + 256 * r"
  have "x < 2 ^ 32" using assms by (simp add: x_def)
  then have "unat (ucast (of_nat x :: UINT64) :: ULONG) = x"
    by (simp add: unsigned_ucast_eq unat_of_nat take_bit_nat_eq_self_iff)
  then have "unat ?q = n + 16 * acc + 256 * r"
    unfolding cr_exit_def vmread_def x_def [symmetric] by simp
  then have q: "unat ?q = n + 16 * (acc + 16 * r)" "unat ?q div 16 = acc + 16 * r" "unat ?q div 256 = r"
    using assms by simp_all
  have m: "w AND 0xf = take_bit 4 w" "w AND 3 = take_bit 2 w" for w :: ULONG
    using take_bit_eq_mask [of 4 w] take_bit_eq_mask [of 2 w] by (simp_all add: mask_eq_exp_minus_1)
  have "(acc + 16 * r) mod 4 = acc"
    using assms(2) mod_mult_self2 [of acc 4 "4 * r"] by simp
  moreover have "(n + 16 * (acc + 16 * r)) mod 16 = n" using assms(1) by (simp only: mod_mult_self2 mod_less)
  ultimately show "unat (?q AND 0xf) = n" "unat (drop_bit 4 ?q AND 3) = acc" "unat (drop_bit 8 ?q AND 0xf) = r"
    unfolding m unat_low unat_shr using q assms by (simp_all del: mult_Suc_right distrib_left)
qed

lemma cr_exit_frame [simp]:
  "f \<noteq> vm_exit_qualification \<Longrightarrow> vmread (cr_exit n acc r s) f = vmread s f"
  "cpu (cr_exit n acc r s) = cpu s" "regs (cr_exit n acc r s) = regs s"
  "isAMD (cr_exit n acc r s) = isAMD s" "IA32_VMX_CR0_FIXED0 (cr_exit n acc r s) = IA32_VMX_CR0_FIXED0 s"
  by (simp_all add: cr_exit_def vmread_def)

lemma cr_exit_modes [simp]:
  "IS64BITPAGING (cr_exit n acc r s) = IS64BITPAGING s" "IS64BITCODE (cr_exit n acc r s) = IS64BITCODE s"
  "getRegister (cr_exit n acc r s) m = getRegister s m" "code_width (cr_exit n acc r s) = code_width s"
  by (simp_all add: IS64BITPAGING_def IS64BITCODE_def getRegister_def code_width_def fun_eq_iff Let_def)

text \<open>What the guest should see in control register \<open>n\<close> after writing \<open>v\<close>.\<close>

definition visible_cr :: "nat \<Rightarrow> machine \<Rightarrow> UINT64 \<Rightarrow> UINT64" where
  "visible_cr n s v =
     (if n = 0 then code_width s v OR 0x10 else if IS64BITPAGING s then v else v AND 0xffffffff)"

lemma ultimap_frame [simp]:
  "IS64BITPAGING (ultimap_handleCR3Change a b s) = IS64BITPAGING s"
  by (simp add: ultimap_handleCR3Change_def ultimap_switch_def set_ultimap_def writeMSR_def Let_def
      IS64BITPAGING_def)

lemma setVM_CR3_guest:
  "setVM_CR3 v s = Some (r, t) \<Longrightarrow> r = 0 \<and> guestCR3 (cpu t) = visible_cr 3 s v"
  by (auto simp: setVM_CR3_def visible_cr_def Let_def bind_Some_iff split: if_splits
      dest!: emulatePaging_touches touches_cpu(2))

lemma setVM_CR0_fake: "setVM_CR0 v s = Some (r, t) \<Longrightarrow> vmread t vm_cr0_fakeread = v OR 0x10"
  using touches_read [OF setVM_CR0_touches fake_not_switch(1)] by (simp add: cr0_seen_def)

text \<open>
  C13: reading back a control register. When the exit handler has accepted a MOV to CR0 or CR3, a
  MOV from that register returns to the guest, in whatever register it asks for, the value it
  wrote (with ET set in CR0), at the width of its code segment, although the processor runs
  with a different value.
\<close>

theorem cr_read_back:
  assumes "n \<in> {0, 3}" "r < 16" "q < 16"
    and "handleCRaccess (cr_exit n 0 r s) = Some (0, t)"
  shows "\<exists>u. handleCRaccess (cr_exit n 1 q t) = Some (0, u)
    \<and> getRegister u q = code_width t (visible_cr n s (getRegister s r))"
proof -
  have n: "n < 16" using assms(1) by auto
  note q1 = cr_exit_fields [OF n _ assms(2), of 0 s] cr_exit_fields [OF n _ assms(3), of 1 t]
  let ?s = "cr_exit n 0 r s"
  have "vmread t vm_cr0_fakeread = visible_cr 0 s (getRegister s r)" if "n = 0"
    using that assms(4) q1
    by (auto simp: handleCRaccess_def Let_def cr_written_def new_CR0_def visible_cr_def code_width_def
        next_instruction_def dest!: setVM_CR0_fake split: if_splits)
  moreover have "guestCR3 (cpu t) = visible_cr 3 s (getRegister s r)" if "n = 3"
    using that assms(4) q1
    by (auto simp: handleCRaccess_def Let_def cr_written_def visible_cr_def
        next_instruction_def dest!: setVM_CR3_guest split: if_splits)
  ultimately show ?thesis
    using assms(1,3) q1
    by (auto simp: handleCRaccess_def Let_def getRegister_setRegister)
qed

definition sample_cr3 :: machine where
  "sample_cr3 = next_instruction ((cr_exit 3 0 3 sample)\<lparr>cpu := (cpu sample)\<lparr>guestCR3 := 0x1234\<rparr>\<rparr>)"

lemma sample_cr3_write: "handleCRaccess (cr_exit 3 0 3 sample) = Some (0, sample_cr3)"
  using cr_exit_fields [of 3 0 3 sample]
  by (simp add: handleCRaccess_def cr_written_def setVM_CR3_def Let_def)
    (simp add: sample_cr3_def getRegister_def PG_set_def sample_def vmread_def cr_exit_def)

theorem cr_read_back_witness:
  "\<exists>u. handleCRaccess (cr_exit 3 1 0 sample_cr3) = Some (0, u) \<and> getRegister u 0 = 0x1234"
proof -
  have "code_width sample_cr3 (visible_cr 3 sample (getRegister sample 3)) = 0x1234"
    by (simp add: code_width_def visible_cr_def getRegister_def sample_def)
  then show ?thesis using cr_read_back [of 3 3 0, OF _ _ _ sample_cr3_write] by simp
qed

text \<open>
  Reading CR4. A MOV from CR4 hands the guest the value it has in CR0: the handler reads
  the shadow of the wrong register.
\<close>

theorem cr4_read_returns_cr0:
  assumes "q < 16"
  shows "\<exists>u. handleCRaccess (cr_exit 4 1 q s) = Some (0, u)
    \<and> getRegister u q = code_width s (vmread s vm_cr0_fakeread)"
  using cr_exit_fields [OF _ _ assms, of 4 1 s] assms
  by (simp add: handleCRaccess_def Let_def getRegister_setRegister)

theorem cr4_read_returns_cr0_witness:
  "\<exists>u. handleCRaccess (cr_exit 4 1 0 (vmwrite vm_cr4_fakeread 0x20 (vmwrite vm_cr0_fakeread 0x11 sample)))
      = Some (0, u) \<and> getRegister u 0 = 0x11"
  using cr4_read_returns_cr0 [of 0 "vmwrite vm_cr4_fakeread 0x20 (vmwrite vm_cr0_fakeread 0x11 sample)"]
  by (simp add: code_width_def if_distrib cong: if_cong)

lemma setVM_CR3_touches:
  assumes "setVM_CR3 v s = Some (r, t)"
  shows "\<exists>u. touches switch_fields u t \<and> (\<forall>f. f \<notin> switch_fields \<longrightarrow> vmread u f = vmread s f)
    \<and> virtualTLB (cpu u) = virtualTLB (cpu s) \<and> virtualTLB_Max (cpu u) = virtualTLB_Max (cpu s)
    \<and> isAMD u = isAMD s \<and> vmmstart u = vmmstart s"
proof -
  let ?u = "(if um_Active (ultimap (cpu s)) \<noteq> 0 then ultimap_handleCR3Change (guestCR3 (cpu s)) v s else s)
    \<lparr>cpu := (cpu (if um_Active (ultimap (cpu s)) \<noteq> 0 then ultimap_handleCR3Change (guestCR3 (cpu s)) v s else s))
      \<lparr>guestCR3 := visible_cr 3 s v\<rparr>\<rparr>"
  have "?u = t \<or> emulatePaging ?u = Some t"
    using assms by (auto simp: setVM_CR3_def visible_cr_def Let_def bind_Some_iff split: if_splits)
  then have "touches switch_fields ?u t" using emulatePaging_switch by auto
  moreover have "\<forall>f. f \<notin> switch_fields \<longrightarrow> vmread ?u f = vmread s f"
    "virtualTLB (cpu ?u) = virtualTLB (cpu s)" "virtualTLB_Max (cpu ?u) = virtualTLB_Max (cpu s)"
    "isAMD ?u = isAMD s" "vmmstart ?u = vmmstart s"
    by (simp_all add: ultimap_handleCR3Change_def ultimap_switch_def set_ultimap_def writeMSR_def
        switch_fields_def Let_def)
  ultimately show ?thesis by blast
qed

lemma setVM_CR4_touches:
  assumes "setVM_CR4 v s = Some (r, t)"
  shows "touches (insert vm_cr4_fakeread switch_fields) s t"
proof -
  let ?F = "insert vm_cr4_fakeread switch_fields"
  have ep: "touches ?F a u" if "emulatePaging b = Some u" "touches ?F a b" for a b u
    by (rule touches_trans [OF that(2) touches_mono [OF emulatePaging_touches [OF that(1)] cr3_switch(2)]])
  let ?c = "if IS64BITCODE s then v else v AND 0xffffffff"
  let ?s1 = "vmwrite vm_cr4_fakeread ?c s"
  have "touches ?F s t \<or> (\<exists>s2 x. (s2 = ?s1 \<or> emulatePaging ?s1 = Some s2)
      \<and> (t = vmwrite vm_guest_cr4 x s2 \<or> emulatePaging (vmwrite vm_guest_cr4 x s2) = Some t))"
    using assms unfolding setVM_CR4_def Let_def
    by (auto simp only: bind_Some_iff option.inject prod.inject touches_refl split: if_split_asm)
  moreover have "touches ?F s t"
    if "s2 = ?s1 \<or> emulatePaging ?s1 = Some s2"
      "t = vmwrite vm_guest_cr4 x s2 \<or> emulatePaging (vmwrite vm_guest_cr4 x s2) = Some t" for s2 x
  proof -
    have "touches ?F s s2" using that(1) ep vmwrite_touches [of vm_cr4_fakeread ?F] by auto
    then have "touches ?F s (vmwrite vm_guest_cr4 x s2)" using cr4_switch by (simp add: touches_vmwrite)
    then show ?thesis using that(2) ep by auto
  qed
  ultimately show ?thesis by blast
qed

end
