(* ===== verification/Ultimap_View.thy ===== *)
theory Ultimap_View
  imports Control_Registers
begin

text \<open>
  The tracer is invisible to the guest. The abstract machine has the two registers as the guest
  means them; it only stores what the guest writes. Sequences of process switches, which go
  through \<^verbatim>\<open>setVM_CR3\<close>, and of writes that reach the handler refine it. (Which writes do
  reach it depends on \<^verbatim>\<open>MSRBitmap\<close>, see \<open>write_exits_untouched\<close>.)
\<close>

unbundle bit_operations_syntax

datatype um_event = Process UINT64 | Write_MSR DWORD UINT64

fun um_run :: "um_event list \<Rightarrow> machine \<Rightarrow> machine option" where
  "um_run [] s = Some s"
| "um_run (Process v # es) s = do { (r, t) \<leftarrow> setVM_CR3 v s; um_run es t }"
| "um_run (Write_MSR m v # es) s = um_run es (ultimap_handleMSRWrite m v s)"

fun um_spec :: "um_event list \<Rightarrow> UINT64 option \<times> UINT64 option \<Rightarrow> UINT64 option \<times> UINT64 option" where
  "um_spec [] w = w"
| "um_spec (Process v # es) w = um_spec es w"
| "um_spec (Write_MSR m v # es) w =
     um_spec es (if m = of_nat IA32_DEBUGCTL_MSR then (Some v, snd w)
                 else if m = of_nat IA32_DS_AREA then (fst w, Some v) else w)"

definition um_ok :: "machine \<Rightarrow> bool" where
  "um_ok s \<longleftrightarrow> um_Active (ultimap (cpu s)) \<noteq> 0 \<and> \<not> isAMD s \<and> cr3_change_callback (cpu s) = 0
     \<and> virtualTLB (cpu s) \<noteq> 0"

lemma touches_view:
  "touches {vm_guest_cr3} s t \<Longrightarrow> guest_view t = guest_view s"
  by (simp add: touches_def guest_view_def ultimap_handleMSRRead_def tracing_def vmread_def)

lemma write_ok:
  "um_ok s \<Longrightarrow> um_ok (ultimap_handleMSRWrite m v s)
    \<and> IS64BITPAGING (ultimap_handleMSRWrite m v s) = IS64BITPAGING s"
  by (simp add: um_ok_def ultimap_handleMSRWrite_def set_ultimap_def writeMSR_def Let_def IS64BITPAGING_def)

lemma CR3Change_ok:
  "um_ok s \<Longrightarrow> um_ok (ultimap_handleCR3Change a b s)"
  by (simp add: um_ok_def ultimap_handleCR3Change_def ultimap_switch_def set_ultimap_def writeMSR_def Let_def)

lemma CR3_ok:
  assumes ok: "um_ok s" and v: "IS64BITPAGING s \<or> unat v < 2 ^ 32"
  shows "\<exists>t. setVM_CR3 v s = Some (0, t) \<and> um_ok t \<and> IS64BITPAGING t = IS64BITPAGING s
    \<and> guest_view t = guest_view s"
proof -
  let ?c = "ultimap_handleCR3Change (guestCR3 (cpu s)) v s"
  let ?u = "?c\<lparr>cpu := (cpu ?c)\<lparr>guestCR3 := v\<rparr>\<rparr>"
  have act: "um_Active (ultimap (cpu s)) \<noteq> 0" using ok by (simp add: um_ok_def)
  have m: "v AND 0xffffffff = v" if "\<not> IS64BITPAGING s"
    using take_bit_self [of v 32] v that take_bit_eq_mask [of 32 v] by (simp add: mask_eq_exp_minus_1)
  have u: "um_ok ?u" "IS64BITPAGING ?u = IS64BITPAGING s" "guest_view ?u = guest_view s"
    using CR3Change_ok [OF ok, of "guestCR3 (cpu s)" v] view_switch [OF act refl, of v]
      ultimap_frame [of "guestCR3 (cpu s)" v s]
    by (simp_all add: um_ok_def IS64BITPAGING_def)
  have keep: "um_ok t \<and> IS64BITPAGING t = IS64BITPAGING s \<and> guest_view t = guest_view s"
    if "emulatePaging ?u = Some t" for t
  proof -
    have t: "touches {vm_guest_cr3} ?u t" by (rule emulatePaging_touches [OF that])
    then have "um_ok t" "IS64BITPAGING t = IS64BITPAGING ?u"
      using u(1) touches_read [OF t, of vm_entry_controls]
      by (simp_all add: um_ok_def touches_def IS64BITPAGING_def)
    with touches_view [OF t] u show ?thesis by simp
  qed
  have "\<exists>t. emulatePaging ?u = Some t"
    using u(1) by (simp add: emulatePaging_def um_ok_def Let_def split_beta)
  then have "\<exists>t. setVM_CR3 v s = Some (0, t) \<and> (t = ?u \<or> emulatePaging ?u = Some t)"
    using act m u(1) by (auto simp: setVM_CR3_def Let_def um_ok_def split: if_splits)
  with keep u show ?thesis by metis
qed

text \<open>
  C11: Ultimap is transparent. While it is active, whatever processes the guest switches between
  (the traced one included) and whatever writes of the two registers the handler is given, in
  any order, every switch and write is carried out, and reading \<^verbatim>\<open>IA32_DEBUGCTL\<close> and \<^verbatim>\<open>IA32_DS_AREA\<close> gives the
  guest what it last wrote, although the processor holds the tracer's values meanwhile.
\<close>

theorem ultimap_transparent:
  assumes "um_ok s" "\<forall>v. Process v \<in> set es \<longrightarrow> IS64BITPAGING s \<or> unat v < 2 ^ 32"
  shows "\<exists>t. um_run es s = Some t \<and> um_ok t \<and> guest_view t = um_spec es (guest_view s)"
  using assms
proof (induction es arbitrary: s rule: list.induct)
  case (Cons e es)
  show ?case
  proof (cases e)
    case (Process v)
    with CR3_ok [of s v] Cons.prems obtain t where t: "setVM_CR3 v s = Some (0, t)" "um_ok t"
      "IS64BITPAGING t = IS64BITPAGING s" "guest_view t = guest_view s" by auto
    with Cons.IH [of t] Cons.prems(2) Process show ?thesis by simp
  next
    case (Write_MSR m v)
    with Cons.IH [of "ultimap_handleMSRWrite m v s"] write_ok [OF Cons.prems(1), of m v] Cons.prems(2)
    show ?thesis by (simp add: view_write)
  qed
qed simp

definition sample_um :: machine where
  "sample_um = ultimap_setup 0x5000 3 0x9000 sample"

theorem ultimap_transparent_witness:
  "\<exists>t. um_run [Process 0x5000, Write_MSR 0x1d9 1, Process 0x6000] sample_um = Some t
    \<and> guest_view t = (Some 1, Some 0)"
proof -
  have "um_ok sample_um" "guest_view sample_um = (Some 0, Some 0)"
    by (simp_all add: sample_um_def ultimap_setup_def um_ok_def ultimap_defs sample_def vmread_def)
  then show ?thesis
    using ultimap_transparent [of sample_um "[Process 0x5000, Write_MSR 0x1d9 1, Process 0x6000]"] by auto
qed

text \<open>
  Switching the tracer off is not transparent. Outside the traced process the guest's writes are
  not intercepted, but \<^verbatim>\<open>ultimap_disable\<close> writes back the values saved when the process was
  last left: a value the guest has put into the register since is lost.
\<close>

lemma ultimap_disable_loses_write:
  "guest_view (ultimap_disable (vmwrite vm_guest_IA32_DEBUGCTL 1 sample_um)) = (Some 0, Some 0)
   \<and> guest_view (vmwrite vm_guest_IA32_DEBUGCTL 1 sample_um) = (Some 1, Some 0)"
  by (simp add: sample_um_def ultimap_setup_def ultimap_disable_def ultimap_defs sample_def vmread_def vmwrite_def)

end
