(* ===== verification/Identity_Map.thy ===== *)
theory Identity_Map
  imports Control_Registers
begin

text \<open>
  The page tables \<^verbatim>\<open>setupNonPagedPaging\<close> builds for a guest that has paging off: filled in
  with the 4096 entries its loop writes, they map the first 8 GB onto themselves, so that
  the emulator's accesses to guest memory (\<^verbatim>\<open>getPhysicalAddressVM\<close>) reach physical memory.
\<close>

unbundle bit_operations_syntax

section \<open>Table entries in memory\<close>

definition rd64 :: "pmem \<Rightarrow> UINT64 \<Rightarrow> UINT64" where
  "rd64 m p = le_word (map (\<lambda>j. m (p + of_nat j)) [0..<8])"

lemma rd64_put_same: "rd64 (put_bytes m p (le_bytes 8 v)) p = v"
proof -
  have "map (\<lambda>j. put_bytes m p (le_bytes 8 v) (p + of_nat j)) [0..<8] = le_bytes 8 v"
    by (rule nth_equalityI) (simp_all add: put_bytes_def unat_of_nat del: upt_4_8)
  then show ?thesis by (simp add: rd64_def le_word_le_bytes del: upt_4_8)
qed

lemma rd64_put_other:
  assumes "x + 8 \<le> y \<or> y + 8 \<le> x" "x < 2 ^ 32" "y < 2 ^ 32"
  shows "rd64 (put_bytes m (b + of_nat y) (le_bytes 8 v)) (b + of_nat x) = rd64 m (b + of_nat x)"
proof -
  have "8 \<le> unat (of_nat x + of_nat j - of_nat y :: UINT64)" if "j < 8" for j
  proof (cases "y + 8 \<le> x")
    case True
    then have "of_nat x + of_nat j - of_nat y = (of_nat (x + j - y) :: UINT64)" by (simp add: of_nat_diff)
    moreover have "unat (of_nat (x + j - y) :: UINT64) = x + j - y"
      using assms(2) that by (simp add: unat_of_nat del: of_nat_diff of_nat_add)
    ultimately show ?thesis using True by simp
  next
    case False
    define d where "d = y - (x + j)"
    have d: "0 < d" "d < 2 ^ 32" "y = x + j + d" using False assms(1,3) that by (auto simp: d_def)
    have "of_nat x + of_nat j - of_nat y = (- of_nat d :: UINT64)" by (simp add: d(3))
    also have "\<dots> = of_nat (2 ^ 64 - d)" using d(2) by (simp add: of_nat_diff)
    finally have "unat (of_nat x + of_nat j - of_nat y :: UINT64) = unat (of_nat (2 ^ 64 - d) :: UINT64)" by simp
    also have "\<dots> = 2 ^ 64 - d" using d(1) by (simp only: unat_of_nat) simp
    finally show ?thesis using d(2) by simp
  qed
  then have "map (\<lambda>j. put_bytes m (b + of_nat y) (le_bytes 8 v) (b + of_nat x + of_nat j)) [0..<8]
      = map (\<lambda>j. m (b + of_nat x + of_nat j)) [0..<8]"
    by (intro map_cong refl) (auto simp: put_bytes_def Let_def algebra_simps leD simp del: upt_4_8)
  then show ?thesis by (simp only: rd64_def)
qed

lemma tbl_entry64_rd64:
  "unat base mod 0x200000 + 8 * unat idx + 8 \<le> 0x400000 \<Longrightarrow> tbl_entry64 m base idx = Some (rd64 m (base + 8 * idx))"
  by (simp only: tbl_entry64_def rd64_def if_True)

section \<open>A region of the hypervisor in one large page\<close>

definition big_page :: "machine \<Rightarrow> UINT64 \<Rightarrow> nat \<Rightarrow> bool" where
  "big_page s base n \<longleftrightarrow> unat base + n < 2 ^ 39 \<and> unat base mod 2 ^ 21 + n \<le> 2 ^ 21
     \<and> entry_P (pagedir s (dir_slot base)) \<and> entry_PS (pagedir s (dir_slot base))"

lemma host_linear:
  assumes "big_page s base n" "pagedir t = pagedir s" "k < n"
  shows "VirtualToPhysical (base + of_nat k) t = (host_pa s base + of_nat k, t)"
proof -
  have b: "unat base + n < 2 ^ 39" "unat base mod 2 ^ 21 + n \<le> 2 ^ 21"
    using assms(1) by (simp_all add: big_page_def)
  have u: "unat (base + of_nat k) = unat base + k"
    using b(1) assms(3) by (simp add: unat_word_ariths unat_of_nat)
  have m: "unat base mod 2 ^ 21 + k < 2 ^ 21" using b(2) assms(3) by simp
  have q: "unat base + k = 2 ^ 21 * (unat base div 2 ^ 21) + (unat base mod 2 ^ 21 + k)"
    by (metis add.assoc mult_div_mod_eq)
  then have d: "(unat base + k) div 2 ^ 21 = unat base div 2 ^ 21"
    and r: "(unat base + k) mod 2 ^ 21 = unat base mod 2 ^ 21 + k"
    using m by (metis div_mult_self4 div_less add.right_neutral power_not_zero zero_neq_numeral,
        metis mod_mult_self4 mod_less)
  have "dir_slot (base + of_nat k) = dir_slot base"
    using dir_slot_linear [of "base + of_nat k"] dir_slot_linear [of base] b(1) assms(3) u d
    by (simp add: word_unat_eq_iff)
  moreover have "take_bit 21 (base + of_nat k) = take_bit 21 base + of_nat k"
  proof -
    have "unat (take_bit 21 (base + of_nat k)) = unat base mod 2 ^ 21 + k"
      unfolding unat_low u by (rule r)
    moreover have "unat (take_bit 21 base + of_nat k) = unat base mod 2 ^ 21 + k"
      using m by (simp add: unat_word_ariths unat_low unat_of_nat)
    ultimately show ?thesis by (simp add: word_unat_eq_iff)
  qed
  ultimately show ?thesis
    using assms by (simp add: VirtualToPhysical_def host_pa_def big_page_def Let_def)
qed

lemma host_pa_linear:
  "big_page s base n \<Longrightarrow> pagedir t = pagedir s \<Longrightarrow> k < n \<Longrightarrow> host_pa t (base + of_nat k) = host_pa s base + of_nat k"
  using host_linear by (simp add: host_pa_def)

section \<open>Entries\<close>

lemma bit_mult_pow: "bit (x * 2 ^ k :: UINT64) n \<longleftrightarrow> k \<le> n \<and> n < 64 \<and> bit x (n - k)"
  by (simp add: bit_push_bit_iff flip: push_bit_eq_mult)

lemma PFN_base_put_field:
  assumes "take_bit 12 p = 0" "unat p < 2 ^ 40"
  shows "PFN_base 28 (put_field 12 28 (drop_bit 12 p) e) = p"
proof (rule bit_word_eqI)
  fix k assume k: "k < LENGTH(64)"
  have low: "\<not> bit p k" if "k < 12" for k
    using that assms(1) bit_take_bit_iff [of 12 p k] by simp
  show "bit (PFN_base 28 (put_field 12 28 (drop_bit 12 p) e)) k = bit p k"
    using k high_bits_zero [OF assms(2), of k] low [of k]
    by (cases "12 \<le> k"; cases "k < 40") (auto simp: PFN_base_def bit_put_field bit_simps)
qed

lemma identity_entry_fields:
  assumes "i < 4096"
  shows "entry_P (identity_entry i e)" "entry_PS (identity_entry i e)"
    "PFN_base 28 (identity_entry i e) = of_nat i * 0x200000"
proof -
  show "entry_P (identity_entry i e)" "entry_PS (identity_entry i e)"
    by (simp_all add: identity_entry_def entry_P_def entry_PS_def bit_put_field bit_simps)
  let ?p = "of_nat i * 0x200000 :: UINT64"
  have "unat ?p = i * 0x200000" using assms by (simp add: unat_word_ariths unat_of_nat)
  then have "unat ?p < 2 ^ 40" "unat (take_bit 12 ?p) = 0" using assms by (simp_all add: unat_low)
  then show "PFN_base 28 (identity_entry i e) = ?p"
    unfolding identity_entry_def by (intro PFN_base_put_field) (simp_all add: word_unat_eq_iff)
qed

text \<open>One upper-level entry written through the hypervisor's mapping.\<close>

lemma table_entry_linear:
  assumes "big_page s base n" "pagedir t = pagedir s" "x < n" "y < n"
  shows "\<exists>e. table_entry rw (base + of_nat x) (base + of_nat y) t
    = t\<lparr>mem := put_bytes (mem t) (host_pa s base + of_nat x)
        (le_bytes 8 (put_field 12 28 (drop_bit 12 (host_pa s base + of_nat y)) e))\<rparr> \<and> bit e 0"
proof -
  note l = host_linear [OF assms(1,2)] host_pa_linear [OF assms(1,2)]
  let ?e = "set_bit 0 (host_load64 (base + of_nat x) t)"
  show ?thesis
    by (rule exI [of _ "if rw then set_bit 1 ?e else ?e"])
      (simp add: table_entry_def host_store64_def l assms(3,4) bit_simps)
qed

text \<open>\<open>ptr_ok\<close>: an entry that points at the table at \<open>p\<close>.\<close>

definition ptr_ok :: "UINT64 \<Rightarrow> UINT64 \<Rightarrow> bool" where
  "ptr_ok e p \<longleftrightarrow> entry_P e \<and> PFN_base 28 e = p"

lemma ptr_ok_entry:
  "take_bit 12 p = 0 \<Longrightarrow> unat p < 2 ^ 40 \<Longrightarrow> bit e 0 \<Longrightarrow> ptr_ok (put_field 12 28 (drop_bit 12 p) e) p"
  by (simp add: ptr_ok_def PFN_base_put_field entry_P_def bit_put_field)

definition mem_only :: "machine \<Rightarrow> machine \<Rightarrow> bool" where
  "mem_only s t \<longleftrightarrow> t = s\<lparr>mem := mem t\<rparr>"

lemma mem_only_simps:
  assumes "mem_only s t"
  shows "pagedir t = pagedir s" "vmread t f = vmread s f" "isAMD t = isAMD s" "cpu t = cpu s"
    "IS64BITPAGING t = IS64BITPAGING s"
  using assms unfolding mem_only_def
  by (metis machine.ext_inject machine.surjective machine.update_convs(4) vmread_updates(3) vmread_def IS64BITPAGING_def)+

lemma mem_only_trans: "mem_only s t \<Longrightarrow> mem_only s (t\<lparr>mem := m\<rparr>)"
  unfolding mem_only_def by (cases s; cases t) simp

lemma fill_pdpt_entries:
  assumes big: "big_page s base 0x9000" and al: "take_bit 12 (host_pa s base) = 0"
    and top: "unat (host_pa s base) + 0x9000 \<le> 2 ^ 40" and "n \<le> 8"
  shows "mem_only s (fill_pdpt rw base (base + 0x1000) n s) \<and> (\<forall>i < n. ptr_ok
    (rd64 (mem (fill_pdpt rw base (base + 0x1000) n s)) (host_pa s base + of_nat (8 * i)))
    (host_pa s base + of_nat (0x1000 + i * 4096)))"
  using assms(4)
proof (induction n)
  case 0
  then show ?case by (simp add: mem_only_def fill_pdpt_def)
next
  case (Suc n)
  let ?u = "fill_pdpt rw base (base + 0x1000) n s" and ?B = "host_pa s base"
  let ?p = "?B + of_nat (0x1000 + n * 4096)"
  have IH: "mem_only s ?u" "\<forall>i < n. ptr_ok (rd64 (mem ?u) (?B + of_nat (8 * i))) (?B + of_nat (0x1000 + i * 4096))"
    using Suc by simp_all
  have at: "base + 8 * of_nat n = base + of_nat (8 * n)"
    "base + 0x1000 + of_nat n * 4096 = base + of_nat (0x1000 + n * 4096)" by (simp_all add: algebra_simps)
  obtain e where e: "table_entry rw (base + of_nat (8 * n)) (base + of_nat (0x1000 + n * 4096)) ?u
      = ?u\<lparr>mem := put_bytes (mem ?u) (?B + of_nat (8 * n)) (le_bytes 8 (put_field 12 28 (drop_bit 12 ?p) e))\<rparr>"
    "bit e 0"
    using table_entry_linear [OF big mem_only_simps(1) [OF IH(1)], of "8 * n" "0x1000 + n * 4096" rw] Suc.prems
    by auto
  have step: "fill_pdpt rw base (base + 0x1000) (Suc n) s
      = ?u\<lparr>mem := put_bytes (mem ?u) (?B + of_nat (8 * n)) (le_bytes 8 (put_field 12 28 (drop_bit 12 ?p) e))\<rparr>"
    unfolding e(1) [symmetric] at [symmetric] by (simp add: fill_pdpt_def)
  have "unat (take_bit 12 (of_nat (0x1000 + n * 4096) :: UINT64)) = 0"
    using Suc.prems by (simp add: unat_low unat_of_nat del: of_nat_add of_nat_mult)
  then have "take_bit 12 ?p = 0" using aligned_add [OF al] by (simp only: unat_eq_zero)
  moreover have "unat ?p < 2 ^ 40"
    using top Suc.prems by (simp add: unat_word_ariths unat_of_nat del: of_nat_add of_nat_mult)
  ultimately have ok: "ptr_ok (put_field 12 28 (drop_bit 12 ?p) e) ?p" using e(2) by (rule ptr_ok_entry)
  have "ptr_ok (rd64 (mem (fill_pdpt rw base (base + 0x1000) (Suc n) s)) (?B + of_nat (8 * i)))
      (?B + of_nat (0x1000 + i * 4096))" if i: "i < Suc n" for i
  proof (cases "i = n")
    case True
    then show ?thesis using ok unfolding step by (simp add: rd64_put_same del: of_nat_add of_nat_mult)
  next
    case False
    then have "rd64 (put_bytes (mem ?u) (?B + of_nat (8 * n)) (le_bytes 8 v)) (?B + of_nat (8 * i))
        = rd64 (mem ?u) (?B + of_nat (8 * i))" for v :: UINT64
      using i Suc.prems by (intro rd64_put_other) auto
    moreover have "i < n" using i False by simp
    ultimately show ?thesis using IH(2) unfolding step by (simp del: of_nat_add of_nat_mult)
  qed
  then show ?case using mem_only_trans [OF IH(1)] unfolding step by blast
qed

text \<open>The directory loop: total, and its entries map 2 MB each onto itself.\<close>

definition dir_ok :: "pmem \<Rightarrow> UINT64 \<Rightarrow> nat \<Rightarrow> bool" where
  "dir_ok m p k \<longleftrightarrow> entry_P (rd64 m p) \<and> entry_PS (rd64 m p) \<and> PFN_base 28 (rd64 m p) = of_nat k * 0x200000"

lemma fill_dir_entries:
  assumes big: "big_page s base 0x9000" and "mem_only s u" "i + n \<le> 4096"
  shows "\<exists>t. fill_dir n i (base + 0x1000) u = Some t \<and> mem_only s t
    \<and> (\<forall>k. i \<le> k \<and> k < i + n \<longrightarrow> dir_ok (mem t) (host_pa s base + of_nat (0x1000 + 8 * k)) k)
    \<and> (\<forall>x. x + 8 \<le> 0x1000 + 8 * i \<longrightarrow>
         rd64 (mem t) (host_pa s base + of_nat x) = rd64 (mem u) (host_pa s base + of_nat x))"
  using assms(2,3)
proof (induction n arbitrary: i u)
  case 0
  then show ?case by auto
next
  case (Suc n)
  let ?B = "host_pa s base" and ?x = "0x1000 + 8 * i"
  let ?e = "identity_entry i (host_load64 (base + of_nat ?x) u)"
  let ?v = "u\<lparr>mem := put_bytes (mem u) (?B + of_nat ?x) (le_bytes 8 ?e)\<rparr>"
  have i: "i < 4096" using Suc.prems(2) by simp
  note ie = identity_entry_fields [OF i]
  have at: "base + 0x1000 + 8 * of_nat i = base + of_nat ?x" by (simp add: algebra_simps)
  have pa: "host_pa u (base + of_nat ?x) = ?B + of_nat ?x"
    by (rule host_pa_linear [OF big mem_only_simps(1) [OF Suc.prems(1)]]) (use i in simp)
  have nz: "PFN_base 28 ?e \<noteq> 0" if "i \<noteq> 0"
    unfolding ie(3) using that i by (simp add: word_unat_eq_iff unat_word_ariths unat_of_nat)
  have go: "fill_dir (Suc n) i (base + 0x1000) u = fill_dir n (i + 1) (base + 0x1000) ?v"
    using nz by (simp only: fill_dir.simps at Let_def host_store64_def pa) auto
  have "mem_only s ?v" by (rule mem_only_trans [OF Suc.prems(1)])
  then obtain t where t: "fill_dir n (i + 1) (base + 0x1000) ?v = Some t" "mem_only s t"
    and new: "\<forall>k. i + 1 \<le> k \<and> k < i + 1 + n \<longrightarrow> dir_ok (mem t) (?B + of_nat (0x1000 + 8 * k)) k"
    and old: "\<forall>x. x + 8 \<le> 0x1000 + 8 * (i + 1) \<longrightarrow>
      rd64 (mem t) (?B + of_nat x) = rd64 (mem ?v) (?B + of_nat x)"
    using Suc.IH [of ?v "i + 1"] Suc.prems(2) by auto
  have "rd64 (mem t) (?B + of_nat ?x) = ?e"
    using old [rule_format, of ?x] by (simp add: rd64_put_same del: of_nat_add of_nat_mult)
  then have "dir_ok (mem t) (?B + of_nat ?x) i" by (simp only: dir_ok_def ie simp_thms)
  then have "dir_ok (mem t) (?B + of_nat (0x1000 + 8 * k)) k" if "i \<le> k" "k < i + Suc n" for k
    using new that by (cases "k = i") (simp_all del: of_nat_add of_nat_mult)
  moreover have "rd64 (mem t) (?B + of_nat x) = rd64 (mem u) (?B + of_nat x)" if "x + 8 \<le> ?x" for x
  proof -
    have "rd64 (mem ?v) (?B + of_nat x) = rd64 (mem u) (?B + of_nat x)"
      using that i rd64_put_other [of x ?x "mem u" ?B ?e] by (simp del: of_nat_add of_nat_mult)
    then show ?thesis using old [rule_format, of x] that by (simp del: of_nat_add of_nat_mult)
  qed
  moreover have "fill_dir (Suc n) i (base + 0x1000) u = Some t" using t(1) go by (rule trans [rotated])
  ultimately show ?case using t(2) by (intro exI [of _ t]) auto
qed

section \<open>The walk of the finished tables\<close>

lemma identity_walk:
  assumes al: "take_bit 12 B = 0" and top: "unat B + 0x9000 \<le> 2 ^ 40"
    and pdpt: "\<forall>i < 8. ptr_ok (rd64 m (B + of_nat (8 * i))) (B + of_nat (0x1000 + i * 4096))"
    and dir: "\<forall>k < 4096. dir_ok m (B + of_nat (0x1000 + 8 * k)) k"
    and a: "unat a < 2 ^ 33"
  shows "walk_PAE m B a = Some (Some a)"
proof -
  define i where "i = unat a div 2 ^ 30"
  define k where "k = unat a div 2 ^ 21"
  have i: "i < 8" and k: "k < 4096" using a by (simp_all add: i_def k_def less_mult_imp_div_less)
  have ik: "i = k div 512" by (simp add: i_def k_def div_mult2_eq [symmetric])
  have ix: "drop_bit 30 a = of_nat i" "drop_bit 21 a AND 0x1ff = of_nat (k mod 512)"
  proof -
    have "unat (drop_bit 30 a) = i" "unat (drop_bit 21 a AND 0x1ff) = k mod 512"
      by (simp_all only: and_1ff unat_low unat_shr i_def k_def) simp_all
    then show "drop_bit 30 a = of_nat i" "drop_bit 21 a AND 0x1ff = of_nat (k mod 512)"
      by (metis of_nat_unat ucast_id)+
  qed
  let ?p1 = "B + of_nat (8 * i)" and ?d = "B + of_nat (0x1000 + i * 4096)"
  have e1: "tbl_entry64 m B (drop_bit 30 a) = Some (rd64 m ?p1)"
    using i by (subst tbl_entry64_rd64) (simp_all add: ix unat_of_nat)
  have p: "entry_P (rd64 m ?p1)" "PFN_base 28 (rd64 m ?p1) = ?d"
    using pdpt i by (simp_all add: ptr_ok_def)
  have "?d + 8 * of_nat (k mod 512) = B + of_nat (0x1000 + 8 * k)"
  proof -
    have "0x1000 + i * 4096 + 8 * (k mod 512) = 0x1000 + 8 * k"
      unfolding ik using mult_div_mod_eq [of 512 k] by linarith
    then have "(of_nat (0x1000 + i * 4096 + 8 * (k mod 512)) :: UINT64) = of_nat (0x1000 + 8 * k)" by metis
    then show ?thesis by (simp add: algebra_simps)
  qed
  moreover have "unat (of_nat (k mod 512) :: UINT64) < 512" by (simp add: unat_of_nat)
  then have "unat ?d mod 0x200000 + 8 * unat (of_nat (k mod 512) :: UINT64) + 8 \<le> 0x400000"
    using mod_less_divisor [of "0x200000" "unat ?d"] by linarith
  ultimately have e2: "tbl_entry64 m ?d (drop_bit 21 a AND 0x1ff) = Some (rd64 m (B + of_nat (0x1000 + 8 * k)))"
    unfolding ix by (metis tbl_entry64_rd64)
  have q: "dir_ok m (B + of_nat (0x1000 + 8 * k)) k" using dir k by simp
  have "of_nat k * 0x200000 + (a AND 0x1FFFFF) = a"
  proof -
    have "unat (of_nat k * 0x200000 + take_bit 21 a) = k * 2 ^ 21 + unat a mod 2 ^ 21"
      using k by (simp add: unat_word_ariths unat_low unat_of_nat)
    also have "\<dots> = unat a" by (simp add: k_def)
    finally show ?thesis by (simp add: word_unat_eq_iff)
  qed
  then show ?thesis
    unfolding walk_PAE_def e1 bind.bind_lunit p e2
    using q p by (simp add: dir_ok_def)
qed

lemma setupNonPagedPaging_returns:
  assumes "\<not> IS64BITPAGING s" "nonpagedEmulationPagedir s = base" "base \<noteq> 0" "big_page s base 0x9000"
    and "take_bit 12 (host_pa s base) = 0" "unat (host_pa s base) + 0x9000 \<le> 2 ^ 40"
  shows "\<exists>t. setupNonPagedPaging s = Some t"
proof -
  have u: "mem_only s (fill_pdpt False base (base + 0x1000) 8 s)"
    using fill_pdpt_entries [OF assms(4-6), of 8 False] by simp
  obtain t where "fill_dir 4096 0 (base + 0x1000) (fill_pdpt False base (base + 0x1000) 8 s) = Some t"
    using fill_dir_entries [OF assms(4) u, of 0 4096] by auto
  then show ?thesis using assms(1-3) by (simp add: setupNonPagedPaging_def Let_def split_beta)
qed

text \<open>
  C8: paging for a guest that has none. \<^verbatim>\<open>setupNonPagedPaging\<close> returns, its loops over the 8
  directory pointers and 4096 directory entries write tables through which the address
  translation of the hypervisor takes every address below 8 GB to itself: a guest in real mode,
  or in protected mode without paging, sees physical memory.
\<close>

theorem setupNonPagedPaging_identity:
  assumes "\<not> isAMD s" "\<not> IS64BITPAGING s" "bit (vmread s vm_guest_cr4) 5"
    and "take_bit 32 (vmread s vm_cr0_fakeread) AND 0x80000001 \<noteq> 0x80000001"
    and "nonpagedEmulationPagedir s = base" "base \<noteq> 0" "big_page s base 0x9000"
    and "take_bit 12 (host_pa s base) = 0" "unat (host_pa s base) + 0x9000 \<le> 2 ^ 40"
  shows "\<exists>t. setupNonPagedPaging s = Some t
    \<and> (\<forall>a. unat a < 2 ^ 33 \<longrightarrow> getPhysicalAddressVM t a = Some (Some a))"
proof -
  let ?B = "host_pa s base" and ?u = "fill_pdpt False base (base + 0x1000) 8 s"
  have u: "mem_only s ?u"
    "\<forall>i < 8. ptr_ok (rd64 (mem ?u) (?B + of_nat (8 * i))) (?B + of_nat (0x1000 + i * 4096))"
    using fill_pdpt_entries [OF assms(7-9), of 8 False] by simp_all
  obtain t where t: "fill_dir 4096 0 (base + 0x1000) ?u = Some t" "mem_only s t"
    and dir: "\<forall>k. 0 \<le> k \<and> k < 0 + 4096 \<longrightarrow> dir_ok (mem t) (?B + of_nat (0x1000 + 8 * k)) k"
    and old: "\<forall>x. x + 8 \<le> 0x1000 + 8 * 0 \<longrightarrow> rd64 (mem t) (?B + of_nat x) = rd64 (mem ?u) (?B + of_nat x)"
    using fill_dir_entries [OF assms(7) u(1), of 0 4096] by auto
  have pdpt: "\<forall>i < 8. ptr_ok (rd64 (mem t) (?B + of_nat (8 * i))) (?B + of_nat (0x1000 + i * 4096))"
    using old u(2) by (auto simp del: of_nat_add of_nat_mult)
  have "VirtualToPhysical base t = (?B, t)"
    using host_linear [OF assms(7) mem_only_simps(1) [OF t(2)], of 0] by simp
  then have run: "setupNonPagedPaging s = Some (vmwrite vm_guest_cr3 ?B t)"
    using assms(2,5,6) t(1) by (simp add: setupNonPagedPaging_def Let_def)
  have "getPhysicalAddressVM (vmwrite vm_guest_cr3 ?B t) a = Some (Some a)" if "unat a < 2 ^ 33" for a
  proof -
    have "walk_PAE (mem t) ?B a = Some (Some a)"
      by (rule identity_walk [OF assms(8,9) pdpt _ that]) (use dir in simp)
    moreover have "\<not> IS64BITPAGING (vmwrite vm_guest_cr3 ?B t)"
      using assms(1,2) mem_only_simps [OF t(2)] by (simp add: IS64BITPAGING_def)
    ultimately show ?thesis
      using assms(1,3,4) mem_only_simps [OF t(2)] by (simp add: getPhysicalAddressVM_def Let_def)
  qed
  then show ?thesis using run by blast
qed

theorem setupNonPagedPaging_identity_witness:
  "\<exists>t. setupNonPagedPaging (vmwrite vm_guest_cr4 0x20 sample) = Some t
    \<and> getPhysicalAddressVM t 0x123456789 = Some (Some 0x123456789)"
proof -
  let ?s = "vmwrite vm_guest_cr4 0x20 sample"
  have d: "dir_slot 0x310000 = 8" by (simp add: dir_slot_def and_1ff take_bit_word_eq_self drop_bit_eq_div)
  have e: "pagedir ?s (dir_slot 0x310000) = 0x200087" by (simp add: d sample_def)
  have pa: "host_pa ?s 0x310000 = 0x310000"
    unfolding host_pa_def VirtualToPhysical_def e Let_def
    by (simp add: entry_P_def entry_PS_def bit_numeral_rec drop_bit_eq_div take_bit_eq_mod push_bit_eq_mult)
  have big: "big_page ?s 0x310000 0x9000"
    unfolding big_page_def e by (simp add: entry_P_def entry_PS_def bit_numeral_rec)
  have "\<exists>t. setupNonPagedPaging ?s = Some t
    \<and> (\<forall>a. unat a < 2 ^ 33 \<longrightarrow> getPhysicalAddressVM t a = Some (Some a))"
    by (rule setupNonPagedPaging_identity [OF _ _ _ _ _ _ big])
      (simp_all only: pa, simp_all add: sample_def vmread_def IS64BITPAGING_def vmwrite_def bit_numeral_rec take_bit_eq_mod)
  then show ?thesis by (elim exE conjE) (rule exI, erule conjI, simp)
qed

end
