(* ===== verification/Descriptors.thy ===== *)
theory Descriptors
  imports Identity_Map
begin

text \<open>
  Segment descriptors of the guest, \<^verbatim>\<open>getSegmentLimit\<close> to \<^verbatim>\<open>getSegmentAttrib\<close> of
  \<^verbatim>\<open>dbvm/vmm/vmeventhandler.c\<close>, and \<^verbatim>\<open>change_selectors\<close> of
  \<^verbatim>\<open>dbvm/vmm/vmcall.c\<close>. The hypervisor reads the guest's descriptor tables through a
  window made by \<^verbatim>\<open>MapPhysicalMemory\<close>; a table is therefore a physical address and the
  number of bytes the window shows from there on. \<open>None\<close> is an access past the window.
\<close>

unbundle bit_operations_syntax

section \<open>Descriptor tables\<close>

type_synonym dtable = "(UINT64 \<times> nat) option"

text \<open>
  A window at \<open>a\<close> shows 4 MB from \<open>a\<close> rounded down to 2 MB (\<open>window_entry\<close>).
\<close>

definition phys_table :: "UINT64 \<Rightarrow> dtable" where
  "phys_table a = Some (a, 0x400000 - unat a mod 0x200000)"

definition dt_entry :: "pmem \<Rightarrow> UINT64 \<times> nat \<Rightarrow> ULONG \<Rightarrow> UINT64 option" where
  "dt_entry m t idx =
     (if 8 * unat idx + 8 \<le> snd t
      then Some (le_word (map (\<lambda>j. m (fst t + of_nat (8 * unat idx + j))) [0..<8]))
      else None)"

definition used_table :: "dtable \<Rightarrow> dtable \<Rightarrow> ULONG \<Rightarrow> dtable" where
  "used_table gdt ldt selector =
     (if selector = 0 then None else if bit selector 2 then ldt else gdt)"

text \<open>The bit fields of \<^verbatim>\<open>GDT_ENTRY\<close>.\<close>

definition Base0_23 :: "UINT64 \<Rightarrow> ULONG" where
  "Base0_23 e = ucast (take_bit 24 (drop_bit 16 e))"

definition Base24_31 :: "UINT64 \<Rightarrow> ULONG" where
  "Base24_31 e = ucast (drop_bit 56 e)"

definition Limit_field :: "UINT64 \<Rightarrow> ULONG" where
  "Limit_field e = push_bit 16 (ucast (take_bit 4 (drop_bit 48 e))) OR ucast (take_bit 16 e)"

definition entry_G :: "UINT64 \<Rightarrow> bool" where
  "entry_G e = bit e 55"

section \<open>Reading a descriptor\<close>

text \<open>\<^verbatim>\<open>usedtable==NULL || selector==0\<close> is \<open>used_table gdt ldt selector = None\<close>.\<close>

definition getSegmentLimit :: "pmem \<Rightarrow> dtable \<Rightarrow> dtable \<Rightarrow> ULONG \<Rightarrow> ULONG option" where
  "getSegmentLimit m gdt ldt selector =
     (case used_table gdt ldt selector of
        None \<Rightarrow> Some 0
      | Some t \<Rightarrow> do {
          e \<leftarrow> dt_entry m t (drop_bit 3 selector);
          (let limit = Limit_field e
           in Some (if entry_G e then limit * 4096 - 1 else limit)) })"

text \<open>
  \<^verbatim>\<open>Base24_31 << 24\<close> is computed in \<^verbatim>\<open>int\<close>, so that without the 80-bit form the base is
  converted to 64 bits with its sign.
\<close>

definition segment_base32 :: "UINT64 \<Rightarrow> ULONG" where
  "segment_base32 e = push_bit 24 (Base24_31 e) + Base0_23 e"

definition getSegmentBaseEx :: "pmem \<Rightarrow> dtable \<Rightarrow> dtable \<Rightarrow> ULONG \<Rightarrow> bool \<Rightarrow> UINT64 option" where
  "getSegmentBaseEx m gdt ldt selector expandto80bit =
     (case used_table gdt ldt selector of
        None \<Rightarrow> Some 0
      | Some t \<Rightarrow> do {
          e \<leftarrow> dt_entry m t (drop_bit 3 selector);
          if expandto80bit then do {
            upper \<leftarrow> dt_entry m t (drop_bit 3 selector + 1);
            Some (push_bit 32 (take_bit 32 upper) OR ucast (segment_base32 e)) }
          else Some (scast (segment_base32 e)) })"

definition getSegmentBase :: "pmem \<Rightarrow> dtable \<Rightarrow> dtable \<Rightarrow> ULONG \<Rightarrow> ULONG option" where
  "getSegmentBase m gdt ldt selector =
     map_option ucast (getSegmentBaseEx m gdt ldt selector False)"

definition setDescriptorAccessedFlag :: "dtable \<Rightarrow> dtable \<Rightarrow> ULONG \<Rightarrow> pmem \<Rightarrow> pmem option" where
  "setDescriptorAccessedFlag gdt ldt selector m =
     (case used_table gdt ldt selector of
        None \<Rightarrow> Some m
      | Some t \<Rightarrow> do {
          e \<leftarrow> dt_entry m t (drop_bit 3 selector);
          Some (put_bytes m (fst t + of_nat (8 * unat (drop_bit 3 selector :: ULONG)))
            (le_bytes 8 (set_bit 40 e))) })"

definition getSegmentAccessRights :: "pmem \<Rightarrow> dtable \<Rightarrow> dtable \<Rightarrow> ULONG \<Rightarrow> ULONG option" where
  "getSegmentAccessRights m gdt ldt selector =
     (case used_table gdt ldt selector of
        None \<Rightarrow> Some 0x10000
      | Some t \<Rightarrow> do {
          e \<leftarrow> dt_entry m t (drop_bit 3 selector);
          Some (ucast (drop_bit 40 e AND 0xf0ff)) })"

text \<open>
  The AMD form: bits 0 to 7 stay, bits 12 to 15 move down to 8 to 11. The remaining four bits
  of \<^verbatim>\<open>sa\<close> are never assigned; they are the argument \<open>junk\<close>.
\<close>

definition getSegmentAttrib :: "WORD \<Rightarrow> pmem \<Rightarrow> dtable \<Rightarrow> dtable \<Rightarrow> ULONG \<Rightarrow> ULONG option" where
  "getSegmentAttrib junk m gdt ldt selector = do {
     ar \<leftarrow> getSegmentAccessRights m gdt ldt selector;
     if bit ar 16 then Some 0
     else Some (ucast (put_field 8 4 (ucast (drop_bit 12 ar))
                 (put_field 0 8 (ucast ar) junk) :: WORD)) }"

section \<open>Changing the guest's selectors\<close>

text \<open>
  \<^verbatim>\<open>getPhysicalAddressVM\<close> gives 0 for a page that is not present; its callers here do not
  look at \<^verbatim>\<open>notpaged\<close>.
\<close>

definition phys_or_0 :: "machine \<Rightarrow> UINT64 \<Rightarrow> UINT64 option" where
  "phys_or_0 s a = map_option (\<lambda>p. case p of None \<Rightarrow> 0 | Some pa \<Rightarrow> pa) (getPhysicalAddressVM s a)"

text \<open>
  The tables of the guest. The window of the LDT is made 2 MB above that of the GDT and hides
  the second half of it.
\<close>

definition guest_tables :: "machine \<Rightarrow> UINT64 \<Rightarrow> ULONG \<Rightarrow> bool \<Rightarrow> (dtable \<times> dtable) option" where
  "guest_tables s gdtbase ldtselector signed_base = do {
     g \<leftarrow> phys_or_0 s gdtbase;
     if ldtselector = 0 then Some (phys_table g, None)
     else do {
       e \<leftarrow> dt_entry (mem s) (the (phys_table g)) (drop_bit 3 ldtselector);
       (let ldtbase = (if signed_base then scast (segment_base32 e) else ucast (segment_base32 e))
        in do {
          l \<leftarrow> phys_or_0 s ldtbase;
          Some (Some (g, 0x200000 - unat g mod 0x200000), phys_table l) }) } }"

text \<open>
  Four passes over the segment registers, given as their index in the VMCS and the new
  selector: limits, bases, accessed flags, access rights.
\<close>

fun segment_pass ::
  "(pmem \<Rightarrow> ULONG \<Rightarrow> ULONG option) \<Rightarrow> nat \<Rightarrow> (nat \<times> ULONG) list \<Rightarrow> machine \<Rightarrow> machine option" where
  "segment_pass get field [] s = Some s"
| "segment_pass get field ((i, sel) # sels) s = do {
     v \<leftarrow> get (mem s) sel;
     segment_pass get field sels (vmwrite (field + 2 * i) (ucast v) s) }"

fun mark_accessed :: "dtable \<Rightarrow> dtable \<Rightarrow> (nat \<times> ULONG) list \<Rightarrow> machine \<Rightarrow> machine option" where
  "mark_accessed gdt ldt [] s = Some s"
| "mark_accessed gdt ldt ((i, sel) # sels) s = do {
     m \<leftarrow> setDescriptorAccessedFlag gdt ldt sel (mem s);
     mark_accessed gdt ldt sels (s\<lparr>mem := m\<rparr>) }"

definition segment_list ::
  "ULONG \<Rightarrow> ULONG \<Rightarrow> ULONG \<Rightarrow> ULONG \<Rightarrow> ULONG \<Rightarrow> ULONG \<Rightarrow> (nat \<times> ULONG) list" where
  "segment_list es cs ss ds fs gs = [(0, es), (1, cs), (2, ss), (3, ds), (4, fs), (5, gs)]"

definition change_selectors ::
  "ULONG \<Rightarrow> ULONG \<Rightarrow> ULONG \<Rightarrow> ULONG \<Rightarrow> ULONG \<Rightarrow> ULONG \<Rightarrow> machine \<Rightarrow> machine option" where
  "change_selectors cs ss ds es fs gs s = do {
     (gdt, ldt) \<leftarrow> guest_tables s (vmread s vm_guest_gdtr_base) (ucast (vmread s 0x80c)) True;
     (let sels = segment_list es cs ss ds fs gs in do {
        s1 \<leftarrow> segment_pass (\<lambda>m sel. Some sel) 0x800 sels s;
        s2 \<leftarrow> segment_pass (\<lambda>m. getSegmentLimit m gdt ldt) 0x4800 sels s1;
        s3 \<leftarrow> segment_pass (\<lambda>m. getSegmentBase m gdt ldt) 0x6806 sels s2;
        s4 \<leftarrow> mark_accessed gdt ldt sels s3;
        segment_pass (\<lambda>m. getSegmentAccessRights m gdt ldt) 0x4814 sels s4 }) }"

section \<open>What the passes load\<close>

text \<open>A pass writes its own block of fields and keeps memory.\<close>

definition pass_fields :: "nat \<Rightarrow> (nat \<times> ULONG) list \<Rightarrow> nat set" where
  "pass_fields field sels = {field + 2 * i | i. i \<in> fst ` set sels}"

lemma segment_pass_frame:
  assumes "segment_pass get field sels s = Some t"
  shows "mem t = mem s" "touches (pass_fields field sels) s t" "t = s\<lparr>vmcs := vmcs t\<rparr>"
  using assms
  by (induction get field sels s rule: segment_pass.induct)
    (auto simp: bind_Some_iff touches_def pass_fields_def vmwrite_def vmread_def)

lemma segment_pass_loads:
  assumes "segment_pass get field sels s = Some t" "distinct (map fst sels)" "(i, sel) \<in> set sels"
  shows "\<exists>v. get (mem s) sel = Some v
    \<and> vmread t (field + 2 * i) = take_bit (vm_width (field + 2 * i)) (ucast v)"
  using assms
proof (induction get field sels s rule: segment_pass.induct)
  case (2 get field j sel' sels s)
  then obtain v where v: "get (mem s) sel' = Some v"
    and rest: "segment_pass get field sels (vmwrite (field + 2 * j) (ucast v) s) = Some t"
    by (auto simp: bind_Some_iff)
  show ?case
  proof (cases "(i, sel) \<in> set sels")
    case True
    then show ?thesis using 2(1) [OF v rest] 2(3) by simp
  next
    case False
    then have eq: "i = j" "sel = sel'" using 2(4) by auto
    have "field + 2 * j \<notin> pass_fields field sels"
      using 2(3) by (force simp: pass_fields_def)
    then have "vmread t (field + 2 * j) = vmread (vmwrite (field + 2 * j) (ucast v) s) (field + 2 * j)"
      using segment_pass_frame(2) [OF rest] by (simp add: touches_read)
    then show ?thesis using v eq by simp
  qed
qed simp

lemma segment_fields:
  assumes "(i, sel) \<in> set (segment_list es cs ss ds fs gs)"
  shows "i < 6" "vm_width (0x800 + 2 * i) = 16" "vm_width (0x4800 + 2 * i) = 32"
    "vm_width (0x6806 + 2 * i) = 64" "vm_width (0x4814 + 2 * i) = 32"
  using assms by (auto simp: segment_list_def vm_width_def)

lemma segment_list_fst: "distinct (map fst (segment_list es cs ss ds fs gs))"
    "fst ` set (segment_list es cs ss ds fs gs) = {..<6}"
  by (auto simp: segment_list_def)

lemma mark_accessed_vmcs: "mark_accessed gdt ldt sels s = Some t \<Longrightarrow> touches {} s t"
  by (induction gdt ldt sels s rule: mark_accessed.induct) (auto simp: bind_Some_iff touches_def)

lemma ucast_width32: "take_bit 32 (ucast (v :: ULONG) :: UINT64) = ucast v"
  by (rule bit_word_eqI) (auto simp: bit_simps dest: bit_imp_le_length)

lemma pass_outside: "f < field \<or> field + 12 \<le> f \<Longrightarrow> f \<notin> pass_fields field (segment_list es cs ss ds fs gs)"
  by (auto simp: pass_fields_def segment_list_fst)



text \<open>A guest with a flat code segment as entry 1 of its GDT.\<close>

definition sample_gdt :: machine where
  "sample_gdt = (vmwrite vm_guest_gdtr_base 0x1000 sample)\<lparr>mem := sample_mem
     (0x1008 := 0xff, 0x1009 := 0xff, 0x100d := 0x9a, 0x100e := 0xcf)\<rparr>"

lemma sample_gdt_simps [simp]: "a < 0x400000 \<Longrightarrow> getPhysicalAddressVM sample_gdt a = Some (Some a)"
    "vmread sample_gdt vm_guest_gdtr_base = 0x1000" "vmread sample_gdt 0x80c = 0"
  by (rule sample_translate)
    (simp_all add: sample_gdt_def sample_def sample_mem_def vmwrite_def vmread_def)

lemma sample_gdt_tables:
  "guest_tables sample_gdt 0x1000 0 True = Some (Some (0x1000, 0x3ff000), None)"
  by (simp add: guest_tables_def phys_or_0_def phys_table_def)

lemma sample_gdt_entry:
  "mem s = mem sample_gdt \<Longrightarrow> dt_entry (mem s) (0x1000, 0x3ff000) 1 = Some 0x00cf9a000000ffff"
  by (simp add: dt_entry_def sample_gdt_def sample_mem_def)

lemma sample_change:
  "\<exists>t. change_selectors 8 0 0 0 0 0 sample_gdt = Some t"
  using sample_gdt_tables sample_gdt_entry
  by (simp add: change_selectors_def segment_list_def getSegmentLimit_def getSegmentBase_def
      getSegmentBaseEx_def setDescriptorAccessedFlag_def getSegmentAccessRights_def used_table_def
      bit_simps Let_def dt_entry_def)


section \<open>Descriptors, field by field\<close>

text \<open>The descriptor with a given base, 20-bit limit and access rights, as the processor lays it out.\<close>

definition make_descriptor :: "ULONG \<Rightarrow> ULONG \<Rightarrow> ULONG \<Rightarrow> UINT64" where
  "make_descriptor base limit rights =
     push_bit 56 (ucast (drop_bit 24 base)) OR push_bit 48 (take_bit 4 (drop_bit 16 (ucast limit)))
     OR push_bit 40 (ucast rights AND 0xf0ff) OR push_bit 16 (take_bit 24 (ucast base))
     OR take_bit 16 (ucast limit)"

lemma f0ff: "bit (0xf0ff :: int) k \<longleftrightarrow> k < 8 \<or> 12 \<le> k \<and> k < 16"
proof -
  have "(0xf0ff :: int) = mask 8 OR push_bit 12 (mask 4)"
    by (simp add: mask_eq_exp_minus_1 push_bit_eq_mult)
  moreover have "bit (mask 8 OR push_bit 12 (mask 4) :: int) k \<longleftrightarrow> k < 8 \<or> 12 \<le> k \<and> k < 16"
    by (auto simp: bit_simps)
  ultimately show ?thesis by (simp only:)
qed

lemma make_descriptor_base: "segment_base32 (make_descriptor b l r) = b"
proof -
  let ?e = "make_descriptor b l r"
  have "push_bit 24 (Base24_31 ?e) AND Base0_23 ?e = 0"
    by (rule bit_word_eqI) (auto simp: Base24_31_def Base0_23_def bit_simps)
  then have "segment_base32 ?e = push_bit 24 (Base24_31 ?e) OR Base0_23 ?e"
    by (simp add: segment_base32_def and_zero_add_eq_or)
  also have "\<dots> = b"
  proof (rule bit_word_eqI)
    fix k assume "k < LENGTH(32)"
    then show "bit (push_bit 24 (Base24_31 ?e) OR Base0_23 ?e) k = bit b k"
      by (cases "k < 24") (auto simp: Base24_31_def Base0_23_def make_descriptor_def bit_simps f0ff
          dest: bit_imp_le_length)
  qed
  finally show ?thesis .
qed

lemma make_descriptor_limit:
  assumes "l < 0x100000"
  shows "Limit_field (make_descriptor b l r) = l"
proof (rule bit_word_eqI)
  fix k assume "k < LENGTH(32)"
  moreover have "unat l < 2 ^ 20" using assms by (simp add: word_less_nat_alt)
  ultimately show "bit (Limit_field (make_descriptor b l r)) k = bit l k"
    using high_bits_zero [of l 20 k]
    by (cases "k < 16"; cases "k < 20")
      (auto simp: Limit_field_def make_descriptor_def bit_simps f0ff dest: bit_imp_le_length)
qed

lemma make_descriptor_rights:
  assumes "r AND 0xf0ff = r"
  shows "ucast (drop_bit 40 (make_descriptor b l r) AND 0xf0ff) = r"
    and "entry_G (make_descriptor b l r) = bit r 15"
proof -
  have r: "bit r k \<Longrightarrow> k < 8 \<or> 12 \<le> k \<and> k < 16" for k
    using assms bit_and_iff [of r "0xf0ff" k] f0ff [of k] by (simp add: bit_simps)
  show "ucast (drop_bit 40 (make_descriptor b l r) AND 0xf0ff) = r"
  proof (rule bit_word_eqI)
    fix k assume "k < LENGTH(32)"
    then show "bit (ucast (drop_bit 40 (make_descriptor b l r) AND 0xf0ff) :: ULONG) k = bit r k"
      using r [of k] by (cases "k < 16") (auto simp: make_descriptor_def bit_simps f0ff)
  qed
  show "entry_G (make_descriptor b l r) = bit r 15"
    by (auto simp: entry_G_def make_descriptor_def bit_simps f0ff)
qed


section \<open>Descriptors in a table\<close>

abbreviation desc_addr :: "UINT64 \<Rightarrow> ULONG \<Rightarrow> UINT64" where
  "desc_addr a sel \<equiv> a + of_nat (8 * unat (drop_bit 3 sel :: ULONG))"

lemma dt_entry_rd64: "8 * unat idx + 8 \<le> n \<Longrightarrow> dt_entry m (a, n) idx = Some (rd64 m (a + of_nat (8 * unat idx)))"
  by (simp add: dt_entry_def rd64_def add.assoc del: upt_4_8)

lemma accessed_fields:
  "segment_base32 (set_bit 40 e) = segment_base32 e" "Limit_field (set_bit 40 e) = Limit_field e"
  "entry_G (set_bit 40 e) = entry_G e"
  "ucast (drop_bit 40 (set_bit 40 e) AND 0xf0ff) = set_bit 0 (ucast (drop_bit 40 e AND 0xf0ff) :: ULONG)"
proof -
  have "Base24_31 (set_bit 40 e) = Base24_31 e" "Base0_23 (set_bit 40 e) = Base0_23 e"
    by (rule bit_word_eqI, auto simp: Base24_31_def Base0_23_def bit_simps)+
  then show "segment_base32 (set_bit 40 e) = segment_base32 e" by (simp add: segment_base32_def)
  show "Limit_field (set_bit 40 e) = Limit_field e"
    by (rule bit_word_eqI) (auto simp: Limit_field_def bit_simps)
  show "entry_G (set_bit 40 e) = entry_G e"
    by (auto simp: entry_G_def bit_simps)
  show "ucast (drop_bit 40 (set_bit 40 e) AND 0xf0ff) = set_bit 0 (ucast (drop_bit 40 e AND 0xf0ff) :: ULONG)"
    by (rule bit_word_eqI) (auto simp: bit_simps f0ff)
qed

text \<open>
  Reading a descriptor. A descriptor with base \<open>b\<close>, limit field \<open>l\<close> and access rights
  \<open>r\<close>, laid out as the processor defines it, is read back as that base, those rights and,
  for byte granularity, that limit; marking it accessed sets bit 0 of the rights and nothing
  else. With page granularity the limit is 4096 below the architectural \<open>l * 4096 + 4095\<close>.
\<close>

theorem descriptor_read_back:
  assumes "used_table gdt ldt sel = Some (a, n)" "8 * unat (drop_bit 3 sel :: ULONG) + 8 \<le> n"
    and "l < 0x100000" "r AND 0xf0ff = r"
    and "m = put_bytes m0 (desc_addr a sel) (le_bytes 8 (make_descriptor b l r))"
  shows "\<exists>m'. setDescriptorAccessedFlag gdt ldt sel m = Some m'
    \<and> getSegmentBase m gdt ldt sel = Some b \<and> getSegmentBase m' gdt ldt sel = Some b
    \<and> getSegmentAccessRights m gdt ldt sel = Some r
    \<and> getSegmentAccessRights m' gdt ldt sel = Some (set_bit 0 r)
    \<and> getSegmentLimit m gdt ldt sel = getSegmentLimit m' gdt ldt sel
    \<and> getSegmentLimit m gdt ldt sel = Some (if bit r 15 then (l * 4096 + 4095) - 4096 else l)"
proof -
  let ?e = "make_descriptor b l r" and ?p = "desc_addr a sel"
  let ?m' = "put_bytes m ?p (le_bytes 8 (set_bit 40 ?e))"
  have e: "dt_entry m (a, n) (drop_bit 3 sel) = Some ?e"
    and e': "dt_entry ?m' (a, n) (drop_bit 3 sel) = Some (set_bit 40 ?e)"
    using assms(2) by (simp_all add: dt_entry_rd64 assms(5) rd64_put_same)
  then have "setDescriptorAccessedFlag gdt ldt sel m = Some ?m'"
    by (simp add: setDescriptorAccessedFlag_def assms(1))
  moreover have "ucast (scast (x :: ULONG) :: UINT64) = x" for x
  proof (rule bit_word_eqI)
    fix k assume "k < LENGTH(32)"
    then show "bit (ucast (scast x :: UINT64) :: ULONG) k = bit x k"
      by (cases "k = 31") (auto simp: bit_simps min_def)
  qed
  ultimately show ?thesis
    using e e' assms(1)
    by (simp add: getSegmentBase_def getSegmentBaseEx_def getSegmentAccessRights_def getSegmentLimit_def
        Let_def accessed_fields make_descriptor_base make_descriptor_limit [OF assms(3)]
        make_descriptor_rights [OF assms(4)])
qed

theorem descriptor_read_back_witness:
  "\<exists>m. getSegmentBase m (Some (0x1000, 0x100)) None 8 = Some 0xfffe0000
    \<and> getSegmentLimit m (Some (0x1000, 0x100)) None 8 = Some 0xffff"
  using descriptor_read_back [of "Some (0x1000, 0x100)" None 8 "0x1000" "0x100" "0xffff" "0x9b" _
      "\<lambda>_. 0" "0xfffe0000", OF _ _ _ _ refl]
  by (auto simp: used_table_def bit_simps)

end
