(* ===== verification/Fault_Injection.thy ===== *)
theory Fault_Injection
  imports Descriptors
begin

text \<open>
  Exceptions the hypervisor raises in the guest: \<^verbatim>\<open>raisePagefault\<close>,
  \<^verbatim>\<open>raiseInvalidOpcodeException\<close> and \<^verbatim>\<open>raisePrivilege\<close> of \<^verbatim>\<open>dbvm/vmm/vmcall.c\<close>,
  \<^verbatim>\<open>raiseGeneralProtectionFault\<close> and \<^verbatim>\<open>emulateExceptionInterrupt\<close> of
  \<^verbatim>\<open>dbvm/vmm/vmeventhandler.c\<close>. On Intel an exception is described in the VM entry
  fields, on AMD in the event injection fields of the control block.
\<close>

unbundle bit_operations_syntax

section \<open>Event injection\<close>

abbreviation vm_entry_interruptioninfo :: nat where "vm_entry_interruptioninfo \<equiv> 0x4016"
abbreviation vm_entry_exceptionerrorcode :: nat where "vm_entry_exceptionerrorcode \<equiv> 0x4018"
abbreviation vm_entry_instructionlength :: nat where "vm_entry_instructionlength \<equiv> 0x401a"

definition entry_fields :: "nat set" where
  "entry_fields = {vm_entry_interruptioninfo, vm_entry_exceptionerrorcode, vm_entry_instructionlength}"

text \<open>The bit fields of \<^verbatim>\<open>VMEntry_interruption_information\<close>.\<close>

definition entry_interruption :: "ULONG \<Rightarrow> ULONG \<Rightarrow> bool \<Rightarrow> bool \<Rightarrow> ULONG" where
  "entry_interruption interruptvector type haserrorcode valid =
     put_field 31 1 (of_bool valid) (put_field 11 1 (of_bool haserrorcode)
       (put_field 8 3 type (put_field 0 8 interruptvector 0)))"

definition set_vmcb :: "(vmcb \<Rightarrow> vmcb) \<Rightarrow> machine \<Rightarrow> machine" where
  "set_vmcb f s = s\<lparr>cpu := (cpu s)\<lparr>info := (info (cpu s))\<lparr>vmcb := f (vmcb (info (cpu s)))\<rparr>\<rparr>\<rparr>"

definition inject_entry :: "ULONG \<Rightarrow> UINT64 \<Rightarrow> machine \<Rightarrow> machine" where
  "inject_entry intinfo errorcode s =
     (let s1 = vmwrite vm_entry_exceptionerrorcode errorcode (vmwrite vm_entry_interruptioninfo (ucast intinfo) s)
      in vmwrite vm_entry_instructionlength (vmread s1 vm_exit_instructionlength) s1)"

definition raiseGeneralProtectionFault :: "UINT64 \<Rightarrow> machine \<Rightarrow> machine" where
  "raiseGeneralProtectionFault errorcode s = inject_entry (entry_interruption 13 3 True True) errorcode s"

definition raiseInvalidOpcodeException :: "machine \<Rightarrow> machine" where
  "raiseInvalidOpcodeException s =
     (if isAMD s then
        set_vmcb (\<lambda>b. b\<lparr>inject_Type := 3, inject_Vector := 6, inject_Valid := True, inject_EV := False\<rparr>) s
      else inject_entry (entry_interruption 6 3 False True) 0 s)"

text \<open>A page fault of the guest: CR2 is the processor's own register on Intel.\<close>

definition guest_cpl3 :: "machine \<Rightarrow> bool" where
  "guest_cpl3 s =
     (if isAMD s then take_bit 2 (drop_bit 5 (vmcb_cs_attrib (cpu s))) = 3
      else take_bit 2 (drop_bit 5 (vmread s vm_guest_cs_access_rights)) = 3)"

definition raisePagefault :: "UINT64 \<Rightarrow> machine \<Rightarrow> machine" where
  "raisePagefault address s =
     (let errorcode = (if guest_cpl3 s then 4 else 0) in
      if isAMD s then
        set_vmcb (\<lambda>b. b\<lparr>vmcb_CR2 := address, inject_Type := 3, inject_Vector := 14,
          inject_Valid := True, inject_ERRORCODE := errorcode, inject_EV := True,
          VMCB_CLEAN_BITS := unset_bit 9 (VMCB_CLEAN_BITS b)\<rparr>) s
      else
        (let s1 = inject_entry (entry_interruption 14 3 True True) (ucast errorcode) s
         in s1\<lparr>host := (host s1)\<lparr>hostCR2 := address\<rparr>\<rparr>))"

section \<open>Raising the privilege level\<close>

definition raisePrivilege :: "machine \<Rightarrow> int \<times> machine" where
  "raisePrivilege s =
     (let guestrflags = vmread s vm_guest_rflags in
      if bit guestrflags 9 then (1, s)
      else
        (let s1 = vmwrite vm_guest_rflags (put_field 12 2 0 guestrflags) s;
             s2 = vmwrite vm_guest_cs (vmread s1 vm_guest_cs AND 0xfffc) s1;
             s3 = vmwrite vm_guest_ss (vmread s2 vm_guest_ss AND 0xfffc) s2;
             s4 = vmwrite vm_guest_cs_access_rights
                    (put_field 5 2 0 (take_bit 32 (vmread s3 vm_guest_cs_access_rights))) s3
         in (0, vmwrite vm_guest_ss_access_rights
                  (put_field 5 2 0 (take_bit 32 (vmread s4 vm_guest_ss_access_rights))) s4)))"

section \<open>What is injected\<close>

text \<open>The processor's reading of the entry fields: vector, type, error code if any.\<close>

definition pending_exception :: "machine \<Rightarrow> (nat \<times> nat \<times> UINT64 option) option" where
  "pending_exception s =
     (if isAMD s then
        (let b = vmcb (info (cpu s)) in
         if inject_Valid b then
           Some (unat (inject_Vector b), unat (inject_Type b),
             if inject_EV b then Some (ucast (inject_ERRORCODE b)) else None)
         else None)
      else
        (let i = vmread s vm_entry_interruptioninfo in
         if bit i 31 then
           Some (unat (take_bit 8 i), unat (take_bit 3 (drop_bit 8 i)),
             if bit i 11 then Some (vmread s vm_entry_exceptionerrorcode) else None)
         else None))"

lemma vm_width_entry [simp]:
  "vm_width 0x4016 = 32" "vm_width 0x4018 = 32" "vm_width 0x401a = 32" "vm_width 0x4816 = 32"
  "vm_width 0x4818 = 32" "vm_width 0x440c = 32"
  by (simp_all add: vm_width_def)

lemma inject_entry_read:
  "vmread (inject_entry i e s) vm_entry_interruptioninfo = ucast i"
  "vmread (inject_entry i e s) vm_entry_exceptionerrorcode = take_bit 32 e"
  "f \<notin> entry_fields \<Longrightarrow> vmread (inject_entry i e s) f = vmread s f"
  by (simp_all add: inject_entry_def Let_def entry_fields_def ucast_width32)

lemma inject_entry_touches: "touches entry_fields s (inject_entry i e s)"
  unfolding inject_entry_def Let_def
  by (intro touches_vmwrite touches_refl) (simp_all add: entry_fields_def)

lemma inject_entry_parts [simp]:
  "regs (inject_entry i e s) = regs s" "cpu (inject_entry i e s) = cpu s" "mem (inject_entry i e s) = mem s"
  "isAMD (inject_entry i e s) = isAMD s" "globals (inject_entry i e s) = globals s"
  "host (inject_entry i e s) = host s" "msr (inject_entry i e s) = msr s"
  by (simp_all add: inject_entry_def Let_def)

lemma entry_interruption_bits:
  "bit (entry_interruption v ty err val) 31 = val" "bit (entry_interruption v ty err val) 11 = err"
  "take_bit 8 (entry_interruption v ty err val) = take_bit 8 v"
  "take_bit 3 (drop_bit 8 (entry_interruption v ty err val)) = take_bit 3 ty"
proof -
  show "bit (entry_interruption v ty err val) 31 = val" "bit (entry_interruption v ty err val) 11 = err"
    by (auto simp: entry_interruption_def bit_put_field bit_simps)
  show "take_bit 8 (entry_interruption v ty err val) = take_bit 8 v"
    "take_bit 3 (drop_bit 8 (entry_interruption v ty err val)) = take_bit 3 ty"
    by (rule bit_word_eqI, auto simp: entry_interruption_def bit_put_field bit_simps)+
qed

end
