(* ===== verification/Exception_Emulation.thy ===== *)
theory Exception_Emulation
  imports Fault_Injection
begin

text \<open>
  \<^verbatim>\<open>emulateExceptionInterrupt\<close> of \<^verbatim>\<open>dbvm/vmm/vmeventhandler.c\<close>: entering a routine
  of the guest as if an exception had called it, without the interrupt table. It is the work
  of the interrupt redirections and of the switch to kernel mode.
\<close>

unbundle bit_operations_syntax

section \<open>The interrupted state\<close>

abbreviation amd :: "machine \<Rightarrow> vmcb" where
  "amd s \<equiv> vmcb (info (cpu s))"

record interrupted =
  original_ss :: ULONG
  original_rsp :: UINT64
  original_cs :: ULONG
  original_rip :: UINT64
  original_rflags :: UINT64

definition interrupted_state :: "machine \<Rightarrow> interrupted" where
  "interrupted_state s =
     (if isAMD s then
        \<lparr>original_ss = ucast (vmcb_ss_selector (amd s)), original_rsp = vmcb_RSP (amd s),
         original_cs = ucast (vmcb_cs_selector (amd s)), original_rip = vmcb_RIP (amd s),
         original_rflags = vmcb_RFLAGS (amd s)\<rparr>
      else
        \<lparr>original_ss = ucast (vmread s vm_guest_ss), original_rsp = vmread s vm_guest_rsp,
         original_cs = ucast (vmread s vm_guest_cs), original_rip = vmread s vm_guest_rip,
         original_rflags = vmread s vm_guest_rflags\<rparr>)"

section \<open>The new stack\<close>

definition rd32 :: "pmem \<Rightarrow> UINT64 \<Rightarrow> ULONG" where
  "rd32 m p = le_word (map (\<lambda>j. m (p + of_nat j)) [0..<4])"

text \<open>
  The stack for a privilege level from the task state segment at physical address \<open>t\<close>:
  \<^verbatim>\<open>RSP0\<close> to \<^verbatim>\<open>RSP2\<close> of \<^verbatim>\<open>TSS64\<close>, or \<^verbatim>\<open>ESP0\<close>, \<^verbatim>\<open>SS0\<close> and so on of
  \<^verbatim>\<open>TSS\<close>; for level 3 nothing is read.
\<close>

definition tss_stack :: "bool \<Rightarrow> pmem \<Rightarrow> UINT64 \<Rightarrow> nat \<Rightarrow> UINT64 \<Rightarrow> UINT64 \<times> ULONG" where
  "tss_stack is64 m t dpl rsp =
     (if dpl = 3 then (rsp, 0)
      else if is64 then (rd64 m (t + of_nat (4 + 8 * dpl)), 0)
      else (ucast (rd32 m (t + of_nat (4 + 8 * dpl))),
            take_bit 16 (rd32 m (t + of_nat (8 + 8 * dpl)))))"

text \<open>The frame, lowest address first, and the stack pointer it is stored at.\<close>

definition frame64 :: "bool \<Rightarrow> UINT64 \<Rightarrow> UINT64 \<Rightarrow> interrupted \<Rightarrow> UINT64 list" where
  "frame64 haserrorcode errorcode rflags i =
     (if haserrorcode then [errorcode] else [])
     @ [original_rip i, ucast (original_cs i), rflags, original_rsp i, ucast (original_ss i)]"

definition frame32 :: "bool \<Rightarrow> bool \<Rightarrow> UINT64 \<Rightarrow> UINT64 \<Rightarrow> interrupted \<Rightarrow> ULONG list" where
  "frame32 changed haserrorcode errorcode rflags i =
     (if haserrorcode then [ucast errorcode] else [])
     @ [ucast (original_rip i), original_cs i, ucast rflags]
     @ (if changed then [ucast (original_rsp i), original_ss i] else [])"

definition new_frame :: "machine \<Rightarrow> bool \<Rightarrow> UINT64 \<Rightarrow> bool \<Rightarrow> UINT64 \<Rightarrow> UINT64 \<Rightarrow> interrupted
    \<Rightarrow> UINT64 \<times> BYTE list" where
  "new_frame s changed newRSP haserrorcode errorcode rflags i =
     (if IS64BITPAGING s then
        (let rsp = (if changed then newRSP else newRSP AND 0xfffffffffffffff0)
         in (rsp - 5 * 8 - (if haserrorcode then 8 else 0),
             concat (map (le_bytes 8) (frame64 haserrorcode errorcode rflags i))))
      else
        (let esp = ucast newRSP :: ULONG
         in (ucast (esp - 3 * 4 - (if haserrorcode then 4 else 0) - (if changed then 2 * 4 else 0)),
             concat (map (le_bytes 4) (frame32 changed haserrorcode errorcode rflags i)))))"

section \<open>Loading SS and CS\<close>

definition load_ss :: "WORD \<Rightarrow> dtable \<Rightarrow> dtable \<Rightarrow> ULONG \<Rightarrow> machine \<Rightarrow> machine option" where
  "load_ss junk gdt ldt newSS s =
     (if IS64BITPAGING s then
        (if isAMD s then
           Some (set_vmcb (\<lambda>b. b\<lparr>vmcb_ss_selector := 0, vmcb_ss_base := 0, vmcb_ss_limit := 0,
             vmcb_ss_attrib := 0\<rparr>) s)
         else do {
           base \<leftarrow> getSegmentBase (mem s) gdt ldt 0;
           limit \<leftarrow> getSegmentLimit (mem s) gdt ldt 0;
           rights \<leftarrow> getSegmentAccessRights (mem s) gdt ldt 0;
           Some (vmwrite vm_guest_ss_access_rights (ucast rights)
             (vmwrite vm_guest_ss_limit (ucast limit)
               (vmwrite vm_guest_ss_base (ucast base) (vmwrite vm_guest_ss 0 s)))) })
      else do {
        base \<leftarrow> getSegmentBase (mem s) gdt ldt newSS;
        limit \<leftarrow> getSegmentLimit (mem s) gdt ldt newSS;
        attrib \<leftarrow> getSegmentAttrib junk (mem s) gdt ldt newSS;
        m \<leftarrow> setDescriptorAccessedFlag gdt ldt newSS (mem s);
        rights \<leftarrow> getSegmentAccessRights m gdt ldt newSS;
        Some (if isAMD s then
            (set_vmcb (\<lambda>b. b\<lparr>vmcb_ss_selector := ucast newSS, vmcb_ss_base := ucast base,
               vmcb_ss_limit := limit, vmcb_ss_attrib := ucast attrib\<rparr>) s)\<lparr>mem := m\<rparr>
          else
            vmwrite vm_guest_ss_access_rights (ucast rights)
              ((vmwrite vm_guest_ss_limit (ucast limit)
                 (vmwrite vm_guest_ss_base (ucast base)
                   (vmwrite vm_guest_ss (ucast newSS) s)))\<lparr>mem := m\<rparr>)) })"

definition load_cs :: "WORD \<Rightarrow> dtable \<Rightarrow> dtable \<Rightarrow> ULONG \<Rightarrow> machine \<Rightarrow> machine option" where
  "load_cs junk gdt ldt cs s = do {
     base \<leftarrow> getSegmentBase (mem s) gdt ldt cs;
     limit \<leftarrow> getSegmentLimit (mem s) gdt ldt cs;
     attrib \<leftarrow> getSegmentAttrib junk (mem s) gdt ldt cs;
     m \<leftarrow> setDescriptorAccessedFlag gdt ldt cs (mem s);
     rights \<leftarrow> getSegmentAccessRights m gdt ldt cs;
     Some (if isAMD s then
         (let s1 = set_vmcb (\<lambda>b. b\<lparr>vmcb_cs_selector := ucast cs, vmcb_cs_base := ucast base,
                vmcb_cs_limit := limit\<rparr>) s
          in s1\<lparr>cpu := (cpu s1)\<lparr>vmcb_cs_attrib := ucast attrib\<rparr>, mem := m\<rparr>)
       else
         vmwrite vm_guest_cs_access_rights (ucast rights)
           ((vmwrite vm_guest_cs_base (ucast base)
              (vmwrite vm_guest_cs_limit (ucast limit)
                (vmwrite vm_guest_cs (ucast cs) s)))\<lparr>mem := m\<rparr>)) }"

section \<open>The whole transfer\<close>

text \<open>
  The window of the TSS, and after it that of the stack, is made 2 MB above that of the LDT
  and hides its second half.
\<close>

definition cut_window :: "dtable \<Rightarrow> dtable" where
  "cut_window t = map_option (\<lambda>(a, n). (a, n - 0x200000)) t"

definition set_rsp :: "UINT64 \<Rightarrow> machine \<Rightarrow> machine" where
  "set_rsp v s = (if isAMD s then set_vmcb (\<lambda>b. b\<lparr>vmcb_RSP := v\<rparr>) s else vmwrite vm_guest_rsp v s)"

definition set_rflags :: "UINT64 \<Rightarrow> machine \<Rightarrow> machine" where
  "set_rflags v s = (if isAMD s then set_vmcb (\<lambda>b. b\<lparr>vmcb_RFLAGS := v\<rparr>) s else vmwrite vm_guest_rflags v s)"

definition set_rip :: "UINT64 \<Rightarrow> machine \<Rightarrow> machine" where
  "set_rip v s = (if isAMD s then set_vmcb (\<lambda>b. b\<lparr>vmcb_RIP := v\<rparr>) s else vmwrite vm_guest_rip v s)"

text \<open>The privilege level of the target segment, and whether it is another than the current one.\<close>

definition target_level :: "WORD \<Rightarrow> dtable \<Rightarrow> dtable \<Rightarrow> ULONG \<Rightarrow> machine \<Rightarrow> (nat \<times> bool) option" where
  "target_level junk gdt ldt cs s =
     (if isAMD s then do {
        a \<leftarrow> getSegmentAttrib junk (mem s) gdt ldt cs;
        (let dpl = unat (take_bit 2 (drop_bit 5 a)) in Some (dpl, unat (vmcb_CPL (amd s)) \<noteq> dpl)) }
      else do {
        a \<leftarrow> getSegmentAccessRights (mem s) gdt ldt cs;
        (let dpl = unat (take_bit 2 (drop_bit 5 a))
         in Some (dpl, unat (take_bit 2 (drop_bit 5 (vmread s vm_guest_cs_access_rights))) \<noteq> dpl)) })"

definition emulateExceptionInterrupt ::
  "WORD \<Rightarrow> ULONG \<Rightarrow> UINT64 \<Rightarrow> bool \<Rightarrow> UINT64 \<Rightarrow> bool \<Rightarrow> machine \<Rightarrow> (int \<times> machine) option" where
  "emulateExceptionInterrupt junk cs rip haserrorcode errorcode isFault s =
     (let gdtbase = (if isAMD s then vmcb_gdtr_base (amd s) else vmread s vm_guest_gdtr_base);
          ldtselector = (if isAMD s then ucast (vmcb_ldtr_selector (amd s)) else ucast (vmread s 0x80c));
          TSSBase = (if isAMD s then vmcb_tr_base (amd s) else vmread s vm_guest_tr_base);
          i = interrupted_state s
      in do {
        PAGDT \<leftarrow> getPhysicalAddressVM s gdtbase;
        if PAGDT = None then Some (1, s)
        else do {
          (gdt, ldt) \<leftarrow> guest_tables s gdtbase ldtselector False;
          (dpl, changed) \<leftarrow> target_level junk gdt ldt cs s;
          tss \<leftarrow> getPhysicalAddressVM s TSSBase;
          case tss of
            None \<Rightarrow> Some (1, s)
          | Some t \<Rightarrow>
              (let s1 = (if isAMD s then set_vmcb (\<lambda>b. b\<lparr>vmcb_CPL := of_nat dpl,
                          VMCB_CLEAN_BITS := unset_bit 8 (VMCB_CLEAN_BITS b)\<rparr>) s else s);
                   (newRSP, newSS) = (if changed then tss_stack (IS64BITPAGING s) (mem s) t dpl (original_rsp i)
                                      else (original_rsp i, 0));
                   rflags = (if isFault then set_bit 16 (original_rflags i) else original_rflags i);
                   (rsp, frame) = new_frame s changed newRSP haserrorcode errorcode rflags i
               in do {
                 stack \<leftarrow> getPhysicalAddressVM s1 rsp;
                 case stack of
                   None \<Rightarrow> Some (1, s1)
                 | Some p \<Rightarrow>
                     (let s2 = set_rflags 2 (set_rsp rsp (s1\<lparr>mem := put_bytes (mem s1) p frame\<rparr>)) in do {
                        s3 \<leftarrow> (if changed then load_ss junk gdt (cut_window ldt) newSS s2 else Some s2);
                        s4 \<leftarrow> load_cs junk gdt (cut_window ldt) cs s3;
                        Some (0, set_rip rip s4) }) }) } })"

end
