(* ===== verification/RM_Decode.thy ===== *)
theory RM_Decode
  imports Paging Register_File
begin

text \<open>
  The operand decoder of the real-mode emulator, \<^verbatim>\<open>dbvm/vmm/realmodeemu.c\<close>: the state of
  one instruction (\<^verbatim>\<open>INSTRUCTIONDATA\<close>), register operands, and the ModR/M and SIB
  effective addresses (\<^verbatim>\<open>handleMODRM\<close>, \<^verbatim>\<open>handleSIB\<close>, \<^verbatim>\<open>getSIBBase\<close>).

  The instruction bytes are those that could be read; a fetch past them is \<open>None\<close> (the
  source then reads bytes of its buffer that were never written, or past its end).
  \<^verbatim>\<open>opperand2\<close> is \<open>None\<close> for the source's -1. The results of \<^verbatim>\<open>handleMODRM\<close> and
  \<^verbatim>\<open>handleSIB\<close> beside \<^verbatim>\<open>id\<close> are kept only where a caller uses them.
\<close>

unbundle bit_operations_syntax

datatype registerType = Register8Bit | Register16Bit | Register32Bit | RegisterSreg

record INSTRUCTIONDATA =
  id_error :: bool
  id_opperandsize :: bool
  id_addresssize :: bool
  id_rep :: bool
  id_repne :: bool
  id_segmentbase :: UINT64
  id_address :: UINT64
  id_lock :: bool
  id_instruction :: "BYTE list"
  id_opperand :: nat
  id_opperand2 :: "nat option"
  id_size :: nat

definition insn_bytes :: "INSTRUCTIONDATA \<Rightarrow> nat \<Rightarrow> nat \<Rightarrow> BYTE list option" where
  "insn_bytes i k n =
     (if k + n \<le> length (id_instruction i) then Some (take n (drop k (id_instruction i)))
      else None)"

definition insn8 :: "INSTRUCTIONDATA \<Rightarrow> nat \<Rightarrow> BYTE option" where
  "insn8 i k = map_option le_word (insn_bytes i k 1)"

definition insn16 :: "INSTRUCTIONDATA \<Rightarrow> nat \<Rightarrow> WORD option" where
  "insn16 i k = map_option le_word (insn_bytes i k 2)"

definition insn32 :: "INSTRUCTIONDATA \<Rightarrow> nat \<Rightarrow> DWORD option" where
  "insn32 i k = map_option le_word (insn_bytes i k 4)"

text \<open>The bit fields of \<^verbatim>\<open>MODRM\<close>; those of \<^verbatim>\<open>SIB\<close> (Base, Index, Scale) lie alike.\<close>

definition RM :: "BYTE \<Rightarrow> nat" where "RM b = unat (b AND 7)"
definition RegOpcode :: "BYTE \<Rightarrow> nat" where "RegOpcode b = unat (drop_bit 3 b AND 7)"
definition MOD :: "BYTE \<Rightarrow> nat" where "MOD b = unat (drop_bit 6 b)"

section \<open>Registers by number\<close>

text \<open>
  The \<^verbatim>\<open>switch (opperand)\<close> of the opcode functions: the register of a 3-bit operand, the
  stack pointer being in the VMCS.
\<close>

definition gpr :: "machine \<Rightarrow> nat \<Rightarrow> UINT64" where
  "gpr s n =
     (let r = regs s in
      if n = 0 then rax r else if n = 1 then rcx r else if n = 2 then rdx r
      else if n = 3 then rbx r else if n = 4 then vmread s vm_guest_rsp
      else if n = 5 then rbp r else if n = 6 then rsi r else if n = 7 then rdi r else 0)"

definition set_gpr :: "nat \<Rightarrow> UINT64 \<Rightarrow> machine \<Rightarrow> machine" where
  "set_gpr n v s =
     (let r = regs s in
      if n = 0 then s\<lparr>regs := r\<lparr>rax := v\<rparr>\<rparr>
      else if n = 1 then s\<lparr>regs := r\<lparr>rcx := v\<rparr>\<rparr>
      else if n = 2 then s\<lparr>regs := r\<lparr>rdx := v\<rparr>\<rparr>
      else if n = 3 then s\<lparr>regs := r\<lparr>rbx := v\<rparr>\<rparr>
      else if n = 4 then vmwrite vm_guest_rsp v s
      else if n = 5 then s\<lparr>regs := r\<lparr>rbp := v\<rparr>\<rparr>
      else if n = 6 then s\<lparr>regs := r\<lparr>rsi := v\<rparr>\<rparr>
      else if n = 7 then s\<lparr>regs := r\<lparr>rdi := v\<rparr>\<rparr>
      else s)"

text \<open>\<^verbatim>\<open>reg=(reg & ~0xffff)+value\<close> and the 8- and 32-bit forms.\<close>

definition set_gpr16 :: "nat \<Rightarrow> WORD \<Rightarrow> machine \<Rightarrow> machine" where
  "set_gpr16 n v s = set_gpr n ((gpr s n AND 0xffffffffffff0000) + ucast v) s"

definition set_gpr32 :: "nat \<Rightarrow> DWORD \<Rightarrow> machine \<Rightarrow> machine" where
  "set_gpr32 n v s = set_gpr n ((gpr s n AND 0xffffffff00000000) + ucast v) s"

definition set_gpr8 :: "nat \<Rightarrow> BYTE \<Rightarrow> machine \<Rightarrow> machine" where
  "set_gpr8 n v s = set_gpr n ((gpr s n AND 0xffffffffffffff00) + ucast v) s"

definition getOpperandValue :: "machine \<Rightarrow> nat \<Rightarrow> registerType \<Rightarrow> UINT64" where
  "getOpperandValue s opperand rt =
     (case rt of
        Register8Bit \<Rightarrow>
          (if opperand < 4 then gpr s opperand AND 0xff
           else if opperand < 8 then drop_bit 8 (gpr s (opperand - 4)) AND 0xff
           else 1)
      | Register16Bit \<Rightarrow> (if opperand < 8 then gpr s opperand AND 0xffff else 1)
      | Register32Bit \<Rightarrow> (if opperand < 8 then gpr s opperand AND 0xffffffff else 1)
      | RegisterSreg \<Rightarrow>
          (if opperand < 6 then vmread s (vm_guest_es + 2 * opperand) else 1))"

definition getOpperand :: "INSTRUCTIONDATA \<Rightarrow> nat option" where
  "getOpperand i = map_option RegOpcode (insn8 i (id_size i))"

section \<open>Effective addresses\<close>

definition getSIBBase ::
  "machine \<Rightarrow> INSTRUCTIONDATA \<Rightarrow> nat \<Rightarrow> nat \<Rightarrow> (ULONG \<times> INSTRUCTIONDATA) option" where
  "getSIBBase s i md SIBBase =
     (if SIBBase \<noteq> 5 \<and> SIBBase < 8 then Some (ucast (gpr s SIBBase), i)
      else if SIBBase = 5 \<and> md = 0 then do {
        d \<leftarrow> insn32 i (id_size i);
        Some (d, i\<lparr>id_address := ucast d, id_size := id_size i + 4\<rparr>) }
      else if SIBBase = 5 \<and> (md = 1 \<or> md = 2) then
        Some (ucast (rbp (regs s)), i\<lparr>id_address := rbp (regs s) AND 0xffffffff\<rparr>)
      else Some (0, i\<lparr>id_error := True\<rparr>))"

text \<open>The index registers as the source numbers them: 5 is RSI, 6 is RDI, 7 is an error.\<close>

definition sib_index :: "machine \<Rightarrow> nat \<Rightarrow> UINT64 option" where
  "sib_index s n =
     (let r = regs s in
      if n = 0 then Some (rax r) else if n = 1 then Some (rcx r) else if n = 2 then Some (rdx r)
      else if n = 3 then Some (rbx r) else if n = 5 then Some (rsi r)
      else if n = 6 then Some (rdi r) else None)"

definition handleSIB ::
  "machine \<Rightarrow> INSTRUCTIONDATA \<Rightarrow> nat \<Rightarrow> (ULONG \<times> INSTRUCTIONDATA) option" where
  "handleSIB s i md = do {
     sib \<leftarrow> insn8 i (id_size i);
     (SIBBase, i1) \<leftarrow> getSIBBase s (i\<lparr>id_size := id_size i + 1\<rparr>) md (RM sib);
     (if RegOpcode sib = 4 then Some (SIBBase, i1)
      else case sib_index s (RegOpcode sib) of
        Some r \<Rightarrow> Some (ucast (r * 2 ^ MOD sib) + SIBBase, i1)
      | None \<Rightarrow> Some (0, i1\<lparr>id_error := True\<rparr>)) }"

text \<open>The register sum of a 16-bit ModR/M operand.\<close>

definition rm16_sum :: "machine \<Rightarrow> nat \<Rightarrow> UINT64" where
  "rm16_sum s rm =
     (let r = regs s in
      if rm = 0 then rbx r + rsi r else if rm = 1 then rbx r + rdi r
      else if rm = 2 then rbp r + rsi r else if rm = 3 then rbp r + rdi r
      else if rm = 4 then rsi r else if rm = 5 then rdi r
      else if rm = 6 then rbp r else rbx r)"

definition handleMODRM16 ::
  "machine \<Rightarrow> INSTRUCTIONDATA \<Rightarrow> BYTE \<Rightarrow> INSTRUCTIONDATA option" where
  "handleMODRM16 s i modrm =
     (let md = MOD modrm; rm = RM modrm; sz = id_size i; ss = vmread s vm_guest_ss_base in
      if md = 0 then
        (if rm = 6 then do {
           w \<leftarrow> insn16 i sz;
           Some (i\<lparr>id_size := sz + 2, id_address := id_segmentbase i + ucast w\<rparr>) }
         else
           (let sb = (if rm = 2 \<or> rm = 3 then ss else id_segmentbase i)
            in Some (i\<lparr>id_segmentbase := sb,
                       id_address := sb + (rm16_sum s rm AND 0xffff)\<rparr>)))
      else if md = 1 then do {
        d \<leftarrow> insn8 i sz;
        (let sb = (if rm = 2 \<or> rm = 3 then ss else id_segmentbase i)
         in Some (i\<lparr>id_size := sz + 1, id_segmentbase := sb,
                    id_address := sb + ((rm16_sum s rm + scast d) AND 0xffff)\<rparr>)) }
      else if md = 2 then do {
        d \<leftarrow> insn16 i sz;
        (let sb = (if rm = 6 then ss else id_segmentbase i)
         in Some (i\<lparr>id_size := sz + 2, id_segmentbase := sb,
                    id_address := (sb + (rm16_sum s rm + scast d)) AND 0xffff\<rparr>)) }
      else Some (i\<lparr>id_opperand2 := Some rm\<rparr>))"

definition handleMODRM32 ::
  "machine \<Rightarrow> INSTRUCTIONDATA \<Rightarrow> BYTE \<Rightarrow> INSTRUCTIONDATA option" where
  "handleMODRM32 s i modrm =
     (let md = MOD modrm; rm = RM modrm; sz = id_size i; sb = id_segmentbase i in
      if md = 0 then
        (if rm = 4 then do {
           (a, i1) \<leftarrow> handleSIB s i 0;
           Some (i1\<lparr>id_address := ucast a\<rparr>) }
         else if rm = 5 then do {
           d \<leftarrow> insn32 i sz;
           Some (i\<lparr>id_address := sb + ucast d, id_size := sz + 4\<rparr>) }
         else Some (i\<lparr>id_address := sb + (gpr s rm AND 0xffffffff)\<rparr>))
      else if md = 1 then
        (if rm = 4 then do {
           (a, i1) \<leftarrow> handleSIB s i 1;
           d \<leftarrow> insn8 i1 (id_size i1 - 1);
           Some (i1\<lparr>id_address := ucast a + scast d, id_size := id_size i1 + 1\<rparr>) }
         else do {
           d \<leftarrow> insn8 i (if rm = 0 then sz else sz - 1);
           Some (i\<lparr>id_address := sb + (gpr s rm AND 0xffffffff) + scast d,
                   id_size := sz + 1\<rparr>) })
      else if md = 2 then
        (if rm = 4 then do {
           (a, i1) \<leftarrow> handleSIB s i 2;
           d \<leftarrow> insn32 i1 (id_size i1 - 1);
           Some (i1\<lparr>id_address := ucast a + ucast d, id_size := id_size i1 + 1\<rparr>) }
         else do {
           d \<leftarrow> insn32 i (if rm = 0 then sz else sz - 1);
           Some (i\<lparr>id_address := sb + (gpr s rm AND 0xffffffff) + ucast d,
                   id_size := sz + 1\<rparr>) })
      else Some (i\<lparr>id_opperand2 := Some rm\<rparr>))"

definition handleMODRM :: "machine \<Rightarrow> INSTRUCTIONDATA \<Rightarrow> INSTRUCTIONDATA option" where
  "handleMODRM s i = do {
     modrm \<leftarrow> insn8 i (id_size i);
     (let i1 = i\<lparr>id_opperand := RegOpcode modrm, id_size := id_size i + 1\<rparr>
      in if \<not> id_addresssize i then handleMODRM16 s i1 modrm else handleMODRM32 s i1 modrm) }"

section \<open>The register file of the emulator\<close>

lemma vmwrite_vmwrite [simp]: "vmwrite f v (vmwrite f u s) = vmwrite f v s"
  by (simp add: vmwrite_def)

lemma upt_8: "[0..<8] = [0, 1, 2, 3, 4, 5, 6, 7]"
  by (simp add: upt_rec)

interpretation rf: regfile gpr set_gpr 8
proof
  fix m n :: nat and v u :: UINT64 and s :: machine
  have "n < 8 \<longrightarrow> gpr (set_gpr n v s) m = (if m = n then v else gpr s m)" if "m < 8"
    by (rule register_number [of 8 _ n]) (use that in \<open>simp_all add: upt_8 gpr_def set_gpr_def Let_def\<close>)
  then show "m < 8 \<Longrightarrow> n < 8 \<Longrightarrow> gpr (set_gpr n v s) m = (if m = n then v else gpr s m)" by blast
  show "set_gpr n v (set_gpr n u s) = set_gpr n v s"
    by (rule register_number [of 8 _ n]) (simp_all add: upt_8 set_gpr_def)
  show "set_gpr n (gpr s n) s = s" if "n < 8"
    by (rule register_number [of 8 _ n]) (simp_all add: upt_8 gpr_def set_gpr_def vmwrite_def vmread_def)
qed

lemma set_gpr_fields [simp]:
  "mem (set_gpr n v s) = mem s" "cpu (set_gpr n v s) = cpu s" "isAMD (set_gpr n v s) = isAMD s"
  "vmmstart (set_gpr n v s) = vmmstart s" "irqs (set_gpr n v s) = irqs s"
  by (simp_all add: set_gpr_def Let_def)

lemma vmread_set_gpr [simp]:
  "vmread (set_gpr n v s) f = (if n = 4 \<and> f = vm_guest_rsp then v else vmread s f)"
  by (auto simp: set_gpr_def Let_def)

end
