(* ===== verification/RM_Opcodes.thy ===== *)
theory RM_Opcodes
  imports RM_Decode
begin

text \<open>
  The opcode functions of the real-mode emulator, \<^verbatim>\<open>dbvm/vmm/realmodeemu.c\<close>, one
  definition per C function, in the state \<open>(id, machine)\<close>. The C result is kept: 0 handled,
  1 not handled, 2 handled with the instruction pointer already set. \<open>None\<close> is an access
  of the hypervisor outside what it has mapped. Messages on the serial line are left out.
\<close>

unbundle bit_operations_syntax

text \<open>
  The control register handlers \<^verbatim>\<open>setVM_CR0\<close>, \<^verbatim>\<open>setVM_CR3\<close> and \<^verbatim>\<open>setVM_CR4\<close> of
  \<^verbatim>\<open>vmeventhandler.c\<close> are arguments of this component; the theory \<open>Control_Registers\<close> has
  the code's own, and \<open>Emulator_Isolation\<close> puts the two together.
\<close>

record cr_handlers =
  cr_CR0 :: "UINT64 \<Rightarrow> machine \<Rightarrow> (int \<times> machine) option"
  cr_CR3 :: "UINT64 \<Rightarrow> machine \<Rightarrow> (int \<times> machine) option"
  cr_CR4 :: "UINT64 \<Rightarrow> machine \<Rightarrow> (int \<times> machine) option"

type_synonym opresult = "(int \<times> INSTRUCTIONDATA \<times> machine) option"

section \<open>Flags, memory operands, segments\<close>

definition set_flag :: "nat \<Rightarrow> bool \<Rightarrow> UINT64 \<Rightarrow> UINT64" where
  "set_flag n b v = (if b then set_bit n v else unset_bit n v)"

text \<open>\<^verbatim>\<open>*(WORD *)p\<close>, \<^verbatim>\<open>*(DWORD *)p\<close> and the stores, for a window \<open>w\<close>.\<close>

definition load16 :: "machine \<Rightarrow> window \<Rightarrow> nat \<Rightarrow> WORD option" where
  "load16 s w k = map_option le_word (win_read (mem s) w k 2)"

definition load32 :: "machine \<Rightarrow> window \<Rightarrow> nat \<Rightarrow> DWORD option" where
  "load32 s w k = map_option le_word (win_read (mem s) w k 4)"

definition store :: "window \<Rightarrow> nat \<Rightarrow> BYTE list \<Rightarrow> machine \<Rightarrow> machine option" where
  "store w k bs s = map_option (\<lambda>m. s\<lparr>mem := m\<rparr>) (win_write (mem s) w k bs)"

fun parity_loop :: "bool \<Rightarrow> nat \<Rightarrow> nat \<Rightarrow> nat" where
  "parity_loop odd_value v cnt =
     (if v = 0 then cnt
      else parity_loop odd_value (v div 2) (if odd_value then cnt + 1 else cnt))"

declare parity_loop.simps [simp del]

definition getparityflag :: "BYTE \<Rightarrow> bool" where
  "getparityflag v = (parity_loop (unat v mod 2 \<noteq> 0) (unat v) 0 mod 2 = 0)"

definition setSegment :: "nat \<Rightarrow> WORD \<Rightarrow> machine \<Rightarrow> machine" where
  "setSegment segmentnr v s =
     (let s1 = vmwrite (vm_guest_es + 2 * segmentnr) (ucast v) s;
          s2 = vmwrite (vm_guest_es_base + 2 * segmentnr) (push_bit 4 (ucast v)) s1;
          s3 = vmwrite (vm_guest_es_limit + 2 * segmentnr) 0xffff s2;
          s4 = vmwrite (vm_guest_es_access_rights + 2 * segmentnr) 0xf3 s3
      in if segmentnr = 2
         then vmwrite vm_guest_interruptability_state
                (vmread s4 vm_guest_interruptability_state OR 2) s4
         else s4)"

section \<open>Interrupts\<close>

text \<open>
  The interrupt table and the stack are addressed by plain pointers here. The new stack
  pointer is the 16-bit one.
\<close>

definition emulateRMinterrupt :: "BYTE \<Rightarrow> machine \<Rightarrow> machine option" where
  "emulateRMinterrupt intnr s =
     (let guestrflags = vmread s vm_guest_rflags;
          sp = ucast (vmread s vm_guest_rsp) - 6 :: WORD;
          stack = HostPtr (vmread s vm_guest_ss_base + ucast sp)
      in do {
        vector \<leftarrow> load32 s (HostPtr (RealMode_IDTBase (cpu s))) (4 * unat intnr);
        s1 \<leftarrow> store stack 0
          (le_bytes 2 (ucast (vmread s vm_guest_rip) :: WORD)
           @ le_bytes 2 (ucast (vmread s vm_guest_cs) :: WORD)
           @ le_bytes 2 (ucast (vmread s vm_guest_rflags) :: WORD)) s;
        (let newcs = ucast (drop_bit 16 vector) :: WORD;
             s2 = vmwrite vm_guest_rsp (ucast sp) s1;
             s3 = vmwrite vm_guest_rip (ucast (ucast vector :: WORD)) s2;
             s4 = vmwrite vm_guest_cs (ucast newcs) s3;
             s5 = vmwrite vm_guest_cs_base (push_bit 4 (ucast newcs)) s4
         in Some (vmwrite vm_guest_rflags
              (take_bit 32 (unset_bit 16 (unset_bit 18 (unset_bit 8 (unset_bit 9 guestrflags)))))
              s5)) })"

text \<open>
  The interrupt window (\<^verbatim>\<open>sti\<close>; \<^verbatim>\<open>hlt\<close> or \<^verbatim>\<open>nop\<close>; \<^verbatim>\<open>cli\<close>): an interrupt that
  arrives is recorded in \<^verbatim>\<open>LastInterrupt\<close> by the interrupt handler of \<^verbatim>\<open>main.c\<close> and
  execution resumes at \<^verbatim>\<open>InterruptFired\<close>.
\<close>

definition interrupt_window :: "machine \<Rightarrow> BYTE option \<times> machine" where
  "interrupt_window s =
     (case irqs s of
        [] \<Rightarrow> (None, s)
      | None # is \<Rightarrow> (None, s\<lparr>irqs := is\<rparr>)
      | Some n # is \<Rightarrow> (Some n, s\<lparr>irqs := is, cpu := (cpu s)\<lparr>LastInterrupt := n\<rparr>\<rparr>))"

definition emulateHLT :: "machine \<Rightarrow> machine option" where
  "emulateHLT s =
     (if bit (vmread s vm_guest_rflags) 9 then
        (case interrupt_window s of
           (None, s1) \<Rightarrow> Some s1
         | (Some n, s1) \<Rightarrow> emulateRMinterrupt (LastInterrupt (cpu s1)) s1)
      else Some s)"

section \<open>Control transfer\<close>

definition opcode_CALLE8 :: "INSTRUCTIONDATA \<Rightarrow> machine \<Rightarrow> opresult" where
  "opcode_CALLE8 i s =
     (if id_opperandsize i then Some (1, i, s)
      else do {
        (e, pf, stack, s1) \<leftarrow> mapVMmemory s
          (vmread s vm_guest_ss_base + (vmread s vm_guest_rsp AND 0xffff) - 2) 2;
        offset \<leftarrow> insn16 i (id_size i);
        (let sz = id_size i + 2; rip = vmread s1 vm_guest_rip; rsp = vmread s1 vm_guest_rsp in do {
          s2 \<leftarrow> store stack 0 (le_bytes 2 (ucast (rip + of_nat sz) :: WORD)) s1;
          (let s3 = vmwrite vm_guest_rsp
                      ((rsp AND 0xffff0000) + ucast (ucast (rsp - 2) :: WORD)) s2;
               newip = ucast rip + of_nat sz + offset :: WORD
           in Some (2, i\<lparr>id_size := 0\<rparr>, vmwrite vm_guest_rip (ucast newip) s3)) }) })"

definition opcode_HLTF4 :: "INSTRUCTIONDATA \<Rightarrow> machine \<Rightarrow> opresult" where
  "opcode_HLTF4 i s = do {
     s1 \<leftarrow> emulateHLT (vmwrite vm_guest_interruptability_state 0
             (vmwrite vm_guest_rip (vmread s vm_guest_rip + 1) s));
     Some (2, i\<lparr>id_size := 0\<rparr>, s1) }"

definition opcode_INTCD :: "INSTRUCTIONDATA \<Rightarrow> machine \<Rightarrow> opresult" where
  "opcode_INTCD i s =
     (if id_size i = 1 then do {
        intnr \<leftarrow> insn8 i (id_size i);
        s1 \<leftarrow> emulateRMinterrupt intnr
               (vmwrite vm_guest_rip (vmread s vm_guest_rip + of_nat (id_size i) + 1) s);
        Some (2, i, s1) }
      else Some (1, i, s))"

definition opcode_JMPE9 :: "INSTRUCTIONDATA \<Rightarrow> machine \<Rightarrow> opresult" where
  "opcode_JMPE9 i s =
     (if id_opperandsize i then Some (1, i, s)
      else do {
        offset \<leftarrow> insn16 i (id_size i);
        (let newip = ucast (vmread s vm_guest_rip) + of_nat (id_size i + 2) + offset :: WORD
         in Some (2, i\<lparr>id_size := 0\<rparr>, vmwrite vm_guest_rip (ucast newip) s)) })"

text \<open>With a 32-bit operand the selector is read at offset 2, as for a 16-bit one.\<close>

definition opcode_JMPEA :: "INSTRUCTIONDATA \<Rightarrow> machine \<Rightarrow> opresult" where
  "opcode_JMPEA i s = do {
     neweip \<leftarrow> (if \<not> id_opperandsize i then map_option ucast (insn16 i (id_size i))
                else insn32 i (id_size i));
     newcodesegment \<leftarrow> insn16 i (id_size i + 2);
     (let s1 = vmwrite vm_guest_rip (ucast (neweip :: DWORD)) s;
          s2 = vmwrite vm_guest_cs (ucast newcodesegment) s1;
          s3 = vmwrite vm_guest_cs_base (push_bit 4 (ucast newcodesegment)) s2
      in Some (2, i\<lparr>id_size := 0\<rparr>, vmwrite vm_guest_cs_limit 0xffff s3)) }"

definition opcode_JMPEB :: "INSTRUCTIONDATA \<Rightarrow> machine \<Rightarrow> opresult" where
  "opcode_JMPEB i s = do {
     offset \<leftarrow> insn8 i (id_size i);
     (let newip = ucast (vmread s vm_guest_rip) + of_nat (id_size i + 1) + scast offset :: WORD
      in Some (2, i\<lparr>id_size := 0\<rparr>, vmwrite vm_guest_rip (ucast newip) s)) }"

text \<open>The popped offset has the base of the code segment added before it is cut to 16 bits.\<close>

definition opcode_RETC3 :: "INSTRUCTIONDATA \<Rightarrow> machine \<Rightarrow> opresult" where
  "opcode_RETC3 i s =
     (if id_opperandsize i then Some (1, i, s)
      else
        (let sp = ucast (vmread s vm_guest_rsp) :: WORD in do {
          (e, pf, stack, s1) \<leftarrow> mapVMmemory s (vmread s vm_guest_ss_base + ucast sp) 2;
          retaddress \<leftarrow> load16 s1 stack 0;
          (let sp = sp + 2; s2 = vmwrite vm_guest_rsp (ucast sp) s1 in
           if sp \<le> 1 then do {
             s3 \<leftarrow> emulateRMinterrupt 12 s2;
             Some (2, i, s3) }
           else
             (let retaddress = ucast (vmread s2 vm_guest_cs_base) + retaddress :: WORD
              in Some (2, i, vmwrite vm_guest_rip (ucast retaddress) s2))) }))"

section \<open>Descriptor tables and control registers\<close>

definition read_dtr :: "INSTRUCTIONDATA \<Rightarrow> machine \<Rightarrow> (WORD \<times> DWORD \<times> machine) option" where
  "read_dtr i s = do {
     (e, pf, w, s1) \<leftarrow> mapVMmemory s (id_address i) 16;
     limit \<leftarrow> load16 s1 w 0;
     base \<leftarrow> load32 s1 w 2;
     Some (limit, (if \<not> id_opperandsize i then base AND 0x00FFFFFF else base), s1) }"

definition opcode_LGDT :: "INSTRUCTIONDATA \<Rightarrow> machine \<Rightarrow> opresult" where
  "opcode_LGDT i s = do {
     i1 \<leftarrow> handleMODRM s i;
     if id_error i1 then Some (1, i1, s)
     else do {
       (gdtlimit, gdtbase, s1) \<leftarrow> read_dtr i1 s;
       Some (0, i1, s1\<lparr>cpu := (cpu s1)\<lparr>RealMode_GDTBase := ucast gdtbase,
                                          RealMode_GDTLimit := gdtlimit\<rparr>\<rparr>) } }"

definition opcode_LIDT :: "INSTRUCTIONDATA \<Rightarrow> machine \<Rightarrow> opresult" where
  "opcode_LIDT i s = do {
     i1 \<leftarrow> handleMODRM s i;
     if id_error i1 then Some (1, i1, s)
     else do {
       (idtlimit, idtbase, s1) \<leftarrow> read_dtr i1 s;
       Some (0, i1, s1\<lparr>cpu := (cpu s1)\<lparr>RealMode_IDTBase := ucast idtbase,
                                          RealMode_IDTLimit := idtlimit\<rparr>\<rparr>) } }"

definition opcode_LMSW :: "cr_handlers \<Rightarrow> INSTRUCTIONDATA \<Rightarrow> machine \<Rightarrow> opresult" where
  "opcode_LMSW cr i s = do {
     i1 \<leftarrow> handleMODRM s i;
     if id_error i1 then Some (1, i1, s)
     else case id_opperand2 i1 of
       None \<Rightarrow> do {
         (e, pf, w, s1) \<leftarrow> mapVMmemory s (id_address i1) 16;
         if e \<noteq> 0 then Some (1, i1, s1)
         else do {
           v \<leftarrow> load16 s1 w 0;
           (r, s2) \<leftarrow> cr_CR0 cr ((vmread s1 vm_cr0_fakeread AND 0xffff0000) OR ucast v) s1;
           Some (r, i1, s2) } }
     | Some n \<Rightarrow>
         if n < 8 then do {
           (r, s1) \<leftarrow> cr_CR0 cr
             ((vmread s vm_cr0_fakeread AND 0xffff0000) OR (gpr s n AND 0xffff)) s;
           Some (r, i1, s1) }
         else Some (1, i1, s) }"

text \<open>\<^verbatim>\<open>mov r,CRn\<close>: for register 5 the source writes RBX.\<close>

definition mov0F20_target :: "nat \<Rightarrow> nat" where
  "mov0F20_target n = (if n = 5 then 3 else n)"

definition opcode_MOV0F20 :: "INSTRUCTIONDATA \<Rightarrow> machine \<Rightarrow> opresult" where
  "opcode_MOV0F20 i s = do {
     i1 \<leftarrow> handleMODRM s i;
     if id_error i1 then Some (1, i1, s)
     else case id_opperand2 i1 of
       None \<Rightarrow> Some (1, i1, s)
     | Some n \<Rightarrow>
         let cr = (if id_opperand i1 = 0 then Some (vmread s vm_cr0_fakeread)
                   else if id_opperand i1 = 3 then Some (guestCR3 (cpu s))
                   else if id_opperand i1 = 4 then Some (vmread s vm_cr4_fakeread)
                   else None)
         in case cr of
              Some v \<Rightarrow> if n < 8 then Some (0, i1, set_gpr (mov0F20_target n) v s)
                         else Some (1, i1, s)
            | None \<Rightarrow> Some (1, i1, s) }"

definition opcode_MOV0F22 :: "cr_handlers \<Rightarrow> INSTRUCTIONDATA \<Rightarrow> machine \<Rightarrow> opresult" where
  "opcode_MOV0F22 cr i s = do {
     i1 \<leftarrow> handleMODRM s i;
     if id_error i1 then Some (1, i1, s)
     else case id_opperand2 i1 of
       None \<Rightarrow> Some (1, i1, s)
     | Some n \<Rightarrow>
         if \<not> n < 8 then Some (1, i1, s)
         else if id_opperand i1 = 0 then do {
           (r, s1) \<leftarrow> cr_CR0 cr (gpr s n) s; Some (r, i1, s1) }
         else if id_opperand i1 = 3 then do {
           (r, s1) \<leftarrow> cr_CR3 cr (gpr s n) s; Some (r, i1, s1) }
         else if id_opperand i1 = 4 then do {
           (r, s1) \<leftarrow> cr_CR4 cr (gpr s n) s; Some (r, i1, s1) }
         else Some (1, i1, s) }"

end
