(* ===== verification/RM_Data.thy ===== *)
theory RM_Data
  imports RM_Opcodes
begin

text \<open>
  The data movement opcodes of the real-mode emulator, \<^verbatim>\<open>dbvm/vmm/realmodeemu.c\<close>: moves,
  string moves, stack operations, flags and XOR.
\<close>

unbundle bit_operations_syntax

section \<open>Moves\<close>

definition opcode_MOV8B :: "INSTRUCTIONDATA \<Rightarrow> machine \<Rightarrow> opresult" where
  "opcode_MOV8B i s = do {
     i1 \<leftarrow> handleMODRM s i;
     if id_error i1 then Some (1, i1, s)
     else if id_opperandsize i1 then Some (1, i1, s)
     else case id_opperand2 i1 of
       None \<Rightarrow> do {
         (e, pf, w, s1) \<leftarrow> mapVMmemory s (id_address i1) 2;
         v \<leftarrow> load16 s1 w 0;
         Some (0, i1, set_gpr16 (id_opperand i1) v s1) }
     | Some n \<Rightarrow>
         if n < 8 then Some (0, i1, set_gpr16 (id_opperand i1) (ucast (gpr s n)) s)
         else Some (0, i1, s) }"

definition opcode_MOV8E :: "INSTRUCTIONDATA \<Rightarrow> machine \<Rightarrow> opresult" where
  "opcode_MOV8E i s = do {
     i1 \<leftarrow> handleMODRM s i;
     if id_error i1 then Some (1, i1, s)
     else if id_opperand i1 = 1 then do {
       s1 \<leftarrow> emulateRMinterrupt 6 s;
       Some (2, i1, s1) }
     else case id_opperand2 i1 of
       None \<Rightarrow> do {
         (e, pf, w, s1) \<leftarrow> mapVMmemory s (id_address i1) 2;
         v \<leftarrow> load16 s1 w 0;
         Some (0, i1, setSegment (id_opperand i1) v s1) }
     | Some n \<Rightarrow>
         Some (0, i1, setSegment (id_opperand i1) (ucast (getOpperandValue s n Register16Bit)) s) }"

text \<open>\<^verbatim>\<open>copymem\<close> of \<^verbatim>\<open>common.c\<close> between two windows: byte by byte, upwards.\<close>

fun copymem :: "window \<Rightarrow> window \<Rightarrow> nat \<Rightarrow> nat \<Rightarrow> pmem \<Rightarrow> pmem option" where
  "copymem d s k 0 m = Some m"
| "copymem d s k (Suc n) m =
     (case (win_pa s k, win_pa d k) of
        (Some p, Some q) \<Rightarrow> copymem d s (Suc k) n (m(q := m p))
      | _ \<Rightarrow> None)"

definition opcode_MOVSA5 :: "INSTRUCTIONDATA \<Rightarrow> machine \<Rightarrow> opresult" where
  "opcode_MOVSA5 i s =
     (if \<not> id_addresssize i then Some (1, i, s)
      else
        (let DF = bit (vmread s vm_guest_rflags) 10;
             moves = (if id_rep i then ucast (rcx (regs s)) else 1) :: DWORD;
             bytespermove = (if id_opperandsize i then 4 else 2) :: DWORD;
             total = sint (bytespermove * moves)
         in do {
           (e1, pf1, destination, s1) \<leftarrow> mapVMmemory s (rdi (regs s)) total;
           (e2, pf2, src, s2) \<leftarrow> mapVMmemory s1 (rsi (regs s)) total;
           (let r = regs s2 in
            if rdi r < vmmstart s2 then
              (if \<not> DF then do {
                 m \<leftarrow> copymem destination src 0 (nat total) (mem s2);
                 Some (0, i, s2\<lparr>mem := m,
                   regs := r\<lparr>rdi := rdi r + of_int total, rsi := rsi r + of_int total,
                             rcx := 0\<rparr>\<rparr>) }
               else do {
                 m \<leftarrow> copymem destination src 0 (unat bytespermove) (mem s2);
                 (let r1 = r\<lparr>rsi := rsi r - ucast bytespermove,
                             rdi := rdi r - ucast bytespermove\<rparr>
                  in if id_rep i then
                       (let r2 = r1\<lparr>rcx := rcx r - 1\<rparr>
                        in Some (0, (if rcx r2 \<noteq> 0 then i\<lparr>id_size := 0\<rparr> else i),
                                 s2\<lparr>mem := m, regs := r2\<rparr>))
                     else Some (0, i, s2\<lparr>mem := m, regs := r1\<rparr>)) })
            else
              Some (0, i, s2\<lparr>regs := r\<lparr>rsi := rsi r + rcx r * ucast bytespermove,
                                       rdi := rdi r + rcx r * ucast bytespermove,
                                       rcx := 0\<rparr>\<rparr>)) }))"

text \<open>
  The byte registers. For \<^verbatim>\<open>bh\<close> (7) the source combines RBX but stores into RDX.
\<close>

definition opcode_MOVB0toB7 :: "nat \<Rightarrow> INSTRUCTIONDATA \<Rightarrow> machine \<Rightarrow> opresult" where
  "opcode_MOVB0toB7 offset i s =
     (if id_lock i then do {
        s1 \<leftarrow> emulateRMinterrupt 6 s;
        Some (2, i, s1) }
      else do {
        b \<leftarrow> insn8 i (id_size i);
        (let high = (\<lambda>r. (r AND 0xffffffffffff00ff) + push_bit 8 (ucast b :: UINT64));
             s1 = (if offset < 4 then set_gpr8 offset b s
                   else if offset < 7 then set_gpr (offset - 4) (high (gpr s (offset - 4))) s
                   else if offset = 7 then set_gpr 2 (high (gpr s 3)) s
                   else s)
         in Some (0, i\<lparr>id_size := id_size i + 1\<rparr>, s1)) })"

definition opcode_MOVB8toBF :: "nat \<Rightarrow> INSTRUCTIONDATA \<Rightarrow> machine \<Rightarrow> opresult" where
  "opcode_MOVB8toBF offset i s =
     (if id_lock i then do {
        s1 \<leftarrow> emulateRMinterrupt 6 s;
        Some (2, i, s1) }
      else if \<not> id_opperandsize i then do {
        v \<leftarrow> insn16 i (id_size i);
        Some (0, i\<lparr>id_size := id_size i + 2\<rparr>, set_gpr16 offset v s) }
      else do {
        v \<leftarrow> insn32 i (id_size i);
        Some (0, i\<lparr>id_size := id_size i + 4\<rparr>, set_gpr32 offset v s) })"

text \<open>For \<^verbatim>\<open>ah\<close> (4) the source adds the immediate unshifted.\<close>

definition opcode_MOVC6 :: "INSTRUCTIONDATA \<Rightarrow> machine \<Rightarrow> opresult" where
  "opcode_MOVC6 i s = do {
     i1 \<leftarrow> handleMODRM s i;
     if id_error i1 then Some (1, i1, s)
     else case id_opperand2 i1 of
       None \<Rightarrow> do {
         (e, pf, w, s1) \<leftarrow> mapVMmemory s (id_address i1) 16;
         if e \<noteq> 0 then Some (1, i1, s1)
         else do {
           b \<leftarrow> insn8 i1 (id_size i1);
           s2 \<leftarrow> store w 0 [b] s1;
           Some (0, i1\<lparr>id_size := id_size i1 + 1\<rparr>, s2) } }
     | Some n \<Rightarrow> do {
         b \<leftarrow> insn8 i1 (id_size i1);
         (let keep = (\<lambda>r. r AND 0xffffffffffff00ff);
              s1 = (if n < 4 then set_gpr8 n b s
                    else if n = 4 then set_gpr 0 (keep (gpr s 0) + ucast b) s
                    else if n < 8 then
                      set_gpr (n - 4) (keep (gpr s (n - 4)) + push_bit 8 (ucast b)) s
                    else s)
          in Some (0, i1\<lparr>id_size := id_size i1 + 1\<rparr>, s1)) } }"

definition opcode_MOVC7 :: "INSTRUCTIONDATA \<Rightarrow> machine \<Rightarrow> opresult" where
  "opcode_MOVC7 i s = do {
     i1 \<leftarrow> handleMODRM s i;
     if id_error i1 then Some (1, i1, s)
     else case id_opperand2 i1 of
       None \<Rightarrow> do {
         (e, pf, w, s1) \<leftarrow> mapVMmemory s (id_address i1) 16;
         if e \<noteq> 0 then Some (1, i1, s1)
         else if id_opperandsize i1 then do {
           v \<leftarrow> insn32 i1 (id_size i1);
           s2 \<leftarrow> store w 0 (le_bytes 4 v) s1;
           Some (0, i1\<lparr>id_size := id_size i1 + 4\<rparr>, s2) }
         else do {
           v \<leftarrow> insn16 i1 (id_size i1);
           s2 \<leftarrow> store w 0 (le_bytes 2 v) s1;
           Some (0, i1\<lparr>id_size := id_size i1 + 2\<rparr>, s2) } }
     | Some n \<Rightarrow>
         if \<not> id_opperandsize i1 then do {
           v \<leftarrow> insn16 i1 (id_size i1);
           Some (0, i1\<lparr>id_size := id_size i1 + 2\<rparr>, set_gpr16 n v s) }
         else do {
           v \<leftarrow> insn32 i1 (id_size i1);
           Some (0, i1\<lparr>id_size := id_size i1 + 4\<rparr>, set_gpr32 n v s) } }"

section \<open>Stack\<close>

text \<open>\<^verbatim>\<open>(rsp & ~0xffff) + (WORD)(rsp+d)\<close>.\<close>

definition bump_sp :: "UINT64 \<Rightarrow> machine \<Rightarrow> machine" where
  "bump_sp d s = vmwrite vm_guest_rsp
     ((vmread s vm_guest_rsp AND 0xffffffffffff0000)
      + ucast (ucast (vmread s vm_guest_rsp + d) :: WORD)) s"

definition stack_top :: "machine \<Rightarrow> UINT64" where
  "stack_top s = vmread s vm_guest_ss_base + (vmread s vm_guest_rsp AND 0xffff)"

definition opcode_POP58to5F :: "nat \<Rightarrow> INSTRUCTIONDATA \<Rightarrow> machine \<Rightarrow> opresult" where
  "opcode_POP58to5F offset i s =
     (if \<not> id_opperandsize i then do {
        (e, pf, stack, s1) \<leftarrow> mapVMmemory s (stack_top s) 2;
        v \<leftarrow> load16 s1 stack 0;
        Some (0, i, bump_sp 2 (set_gpr16 offset v s1)) }
      else do {
        (e, pf, stack, s1) \<leftarrow> mapVMmemory s (stack_top s) 4;
        v \<leftarrow> load32 s1 stack 0;
        Some (0, i, bump_sp 4 (set_gpr32 offset v s1)) })"

definition opcode_POPSegment :: "nat \<Rightarrow> INSTRUCTIONDATA \<Rightarrow> machine \<Rightarrow> opresult" where
  "opcode_POPSegment segment i s = do {
     (e, pf, w, s1) \<leftarrow> mapVMmemory s (vmread s vm_guest_ss_base + vmread s vm_guest_rsp) 2;
     segmentvalue \<leftarrow> load16 s1 w 0;
     (let d = (if \<not> id_opperandsize i then 2 else 4);
          s2 = vmwrite vm_guest_rsp (ucast (ucast (vmread s1 vm_guest_rsp + d) :: WORD)) s1
      in Some (0, i, setSegment segment segmentvalue s2)) }"

definition opcode_PUSH50to57 :: "nat \<Rightarrow> INSTRUCTIONDATA \<Rightarrow> machine \<Rightarrow> opresult" where
  "opcode_PUSH50to57 offset i s =
     (if \<not> id_opperandsize i then
        (let s0 = bump_sp (-2) s in do {
          (e, pf, stack, s1) \<leftarrow> mapVMmemory s0 (stack_top s0) 2;
          s2 \<leftarrow> store stack 0
            (le_bytes 2 (if offset = 4 then ucast (vmread s1 vm_guest_rsp) + 2
                         else ucast (gpr s1 offset) :: WORD)) s1;
          Some (0, i, s2) })
      else
        (let s0 = bump_sp (-4) s in do {
          (e, pf, stack, s1) \<leftarrow> mapVMmemory s0 (stack_top s0) 4;
          s2 \<leftarrow> store stack 0
            (le_bytes 4 (if offset = 4 then ucast (vmread s1 vm_guest_rsp) + 4
                         else ucast (gpr s1 offset) :: DWORD)) s1;
          Some (0, i, s2) }))"

text \<open>The 32-bit pushes below map two bytes and store four.\<close>

definition opcode_PUSHSegment :: "nat \<Rightarrow> INSTRUCTIONDATA \<Rightarrow> machine \<Rightarrow> opresult" where
  "opcode_PUSHSegment segment i s =
     (let segmentValue = ucast (vmread s (vm_guest_es + 2 * segment)) :: WORD;
          sp = (if \<not> id_opperandsize i then ucast (vmread s vm_guest_rsp) - 2
                else ucast (vmread s vm_guest_rsp) - 4) :: WORD
      in do {
        (e, pf, stack, s1) \<leftarrow> mapVMmemory s (vmread s vm_guest_ss_base + ucast sp) 2;
        s2 \<leftarrow> store stack 0
          (if \<not> id_opperandsize i then le_bytes 2 segmentValue
           else le_bytes 4 (ucast segmentValue :: DWORD)) s1;
        Some (0, i, vmwrite vm_guest_rsp (ucast sp) s2) })"

definition opcode_PUSH68 :: "INSTRUCTIONDATA \<Rightarrow> machine \<Rightarrow> opresult" where
  "opcode_PUSH68 i s =
     (if \<not> id_opperandsize i then
        (let sp = ucast (vmread s vm_guest_rsp) - 2 :: WORD in do {
          (e, pf, stack, s1) \<leftarrow> mapVMmemory s (vmread s vm_guest_ss_base + ucast sp) 2;
          v \<leftarrow> insn16 i (id_size i);
          s2 \<leftarrow> store stack 0 (le_bytes 2 v) s1;
          Some (0, i\<lparr>id_size := id_size i + 2\<rparr>, vmwrite vm_guest_rsp (ucast sp) s2) })
      else
        (let sp = ucast (vmread s vm_guest_rsp) - 4 :: WORD in do {
          (e, pf, stack, s1) \<leftarrow> mapVMmemory s (vmread s vm_guest_ss_base + ucast sp) 2;
          v \<leftarrow> insn32 i (id_size i);
          s2 \<leftarrow> store stack 0 (le_bytes 4 v) s1;
          Some (0, i\<lparr>id_size := id_size i + 4\<rparr>, vmwrite vm_guest_rsp (ucast sp) s2) }))"

section \<open>Flags and XOR\<close>

definition opcode_CLI :: "INSTRUCTIONDATA \<Rightarrow> machine \<Rightarrow> opresult" where
  "opcode_CLI i s = Some (0, i, vmwrite 0x6820 (set_flag 9 False (vmread s vm_guest_rflags)) s)"

definition opcode_STI :: "INSTRUCTIONDATA \<Rightarrow> machine \<Rightarrow> opresult" where
  "opcode_STI i s =
     (let guestrflags = vmread s vm_guest_rflags;
          is = vmread s vm_guest_interruptability_state;
          s1 = (if \<not> bit guestrflags 9 \<and> is AND 1 = 0
                then vmwrite vm_guest_interruptability_state (is OR 1) s else s)
      in Some (0, i, vmwrite 0x6820 (set_flag 9 True guestrflags) s1))"

definition opcode_CLD :: "INSTRUCTIONDATA \<Rightarrow> machine \<Rightarrow> opresult" where
  "opcode_CLD i s = Some (0, i, vmwrite 0x6820 (set_flag 10 False (vmread s vm_guest_rflags)) s)"

text \<open>The flags XOR leaves: OF, CF and SF cleared, ZF and PF from the result.\<close>

definition xor_flags :: "DWORD \<Rightarrow> UINT64 \<Rightarrow> UINT64" where
  "xor_flags result fl =
     set_flag 2 (getparityflag (ucast result))
       (set_flag 6 (result = 0) (set_flag 7 False (set_flag 0 False (set_flag 11 False fl))))"

definition opcode_XOR31 :: "INSTRUCTIONDATA \<Rightarrow> machine \<Rightarrow> opresult" where
  "opcode_XOR31 i s =
     (let guestrflags = vmread s vm_guest_rflags in do {
       i1 \<leftarrow> handleMODRM s i;
       if id_error i1 then Some (1, i1, s)
       else
         (let opv = (if \<not> id_opperandsize i1
                     then getOpperandValue s (id_opperand i1) Register16Bit
                     else getOpperandValue s (id_opperand i1) Register32Bit)
          in case id_opperand2 i1 of
               None \<Rightarrow> do {
                 (e, pf, w, s1) \<leftarrow> mapVMmemory s (id_address i1) 16;
                 if e \<noteq> 0 then Some (1, i1, s1)
                 else if id_opperandsize i1 then do {
                   v \<leftarrow> load32 s1 w 0;
                   (let result = v XOR ucast opv in do {
                     s2 \<leftarrow> store w 0 (le_bytes 4 result) s1;
                     Some (0, i1, vmwrite vm_guest_rflags (xor_flags result guestrflags) s2) }) }
                 else do {
                   v \<leftarrow> load16 s1 w 0;
                   (let result = ucast v XOR ucast opv :: DWORD in do {
                     s2 \<leftarrow> store w 0 (le_bytes 2 (ucast result :: WORD)) s1;
                     Some (0, i1, vmwrite vm_guest_rflags (xor_flags result guestrflags) s2) }) } }
             | Some n \<Rightarrow>
                 if id_opperandsize i1 then
                   (let result = ucast (gpr s n XOR opv) :: DWORD;
                        s1 = set_gpr32 n result s
                    in Some (0, i1, vmwrite vm_guest_rflags (xor_flags result guestrflags) s1))
                 else
                   (let result = ucast (gpr s n XOR (opv AND 0xffff)) :: DWORD;
                        s1 = set_gpr16 n (ucast result) s
                    in Some (0, i1, vmwrite vm_guest_rflags
                         (xor_flags (ucast (ucast result :: WORD)) guestrflags) s1))) })"

end
