(* ===== verification/Critical_Section.thy ===== *)
theory Critical_Section
  imports Main
begin

text \<open>
  The recursive spin lock of the hypervisor: \<^verbatim>\<open>csEnter\<close> and \<^verbatim>\<open>csLeave\<close> of
  \<^verbatim>\<open>dbvm/vmm/common.c\<close> with \<^verbatim>\<open>spinlock\<close> of \<^verbatim>\<open>commona.asm\<close>. A CPU is
  identified by its initial APIC id; the value it stores is \<^verbatim>\<open>getAPICID()+1\<close>, that is the
  id plus 2.

  \<open>csEnter\<close> and \<open>csLeave\<close> are the functions as one CPU runs them alone. \<open>cs_step\<close>
  is the same code with the accesses of any number of CPUs to the shared structure
  interleaved: one rule per access, \<open>pc\<close> being the place between two of them. Loads and
  stores of one CPU are seen in program order, as x86 and the \<^verbatim>\<open>volatile\<close> structure give
  it; \<^verbatim>\<open>xchg\<close> is atomic. \<open>depth\<close> counts the entries a CPU has not left; it is not
  part of the code.
\<close>

section \<open>The functions\<close>

record criticalSection =
  locked :: int
  apicid :: int
  lockcount :: int

definition cs_id :: "nat \<Rightarrow> int" where
  "cs_id c = int c + 2"

text \<open>\<open>None\<close>: the lock is taken by another CPU and the call spins.\<close>

definition csEnter :: "nat \<Rightarrow> criticalSection \<Rightarrow> criticalSection option" where
  "csEnter c CS =
     (if locked CS \<noteq> 0 \<and> apicid CS = cs_id c then Some (CS\<lparr>lockcount := lockcount CS + 1\<rparr>)
      else if locked CS \<noteq> 0 then None
      else Some (CS\<lparr>locked := 1, lockcount := 1, apicid := cs_id c\<rparr>))"

definition csLeave :: "nat \<Rightarrow> criticalSection \<Rightarrow> criticalSection" where
  "csLeave c CS =
     (if locked CS \<noteq> 0 \<and> apicid CS = cs_id c then
        (let CS1 = CS\<lparr>lockcount := lockcount CS - 1\<rparr>
         in if lockcount CS1 = 0 then CS1\<lparr>apicid := -1, locked := 0\<rparr> else CS1)
      else CS)"

section \<open>Interleaved accesses\<close>

text \<open>
  \<open>Run\<close>: outside the functions. \<open>E0\<close>: before \<^verbatim>\<open>CS->locked\<close> in \<^verbatim>\<open>csEnter\<close>, \<open>E1\<close>:
  before \<^verbatim>\<open>CS->apicid\<close>, \<open>E2\<close>: before \<^verbatim>\<open>lockcount++\<close>. \<open>S0\<close>: the compare of
  \<^verbatim>\<open>spinlock\<close>, \<open>S1\<close>: its exchange. \<open>G1\<close>, \<open>G2\<close>: before the two stores after
  \<^verbatim>\<open>spinlock\<close>. \<open>L0\<close> to \<open>L5\<close>: the accesses of \<^verbatim>\<open>csLeave\<close> in order.
\<close>

datatype cs_pc = Run | E0 | E1 | E2 | S0 | S1 | G1 | G2 | L0 | L1 | L2 | L3 | L4 | L5

record cs_system =
  lck :: criticalSection
  pc :: "nat \<Rightarrow> cs_pc"
  depth :: "nat \<Rightarrow> nat"

abbreviation goto :: "nat \<Rightarrow> cs_pc \<Rightarrow> cs_system \<Rightarrow> cs_system" where
  "goto c p s \<equiv> s\<lparr>pc := (pc s)(c := p)\<rparr>"

inductive cs_step :: "cs_system \<Rightarrow> cs_system \<Rightarrow> bool" where
  call_enter: "pc s c = Run \<Longrightarrow> cs_step s (goto c E0 s)"
| call_leave: "pc s c = Run \<Longrightarrow> cs_step s (goto c L0 s)"
| enter_locked: "pc s c = E0 \<Longrightarrow>
    cs_step s (goto c (if locked (lck s) \<noteq> 0 then E1 else S0) s)"
| enter_apicid: "pc s c = E1 \<Longrightarrow>
    cs_step s (goto c (if apicid (lck s) = cs_id c then E2 else S0) s)"
| enter_again: "pc s c = E2 \<Longrightarrow>
    cs_step s (s\<lparr>pc := (pc s)(c := Run), depth := (depth s)(c := Suc (depth s c)),
      lck := (lck s)\<lparr>lockcount := lockcount (lck s) + 1\<rparr>\<rparr>)"
| spin: "pc s c = S0 \<Longrightarrow> cs_step s (goto c (if locked (lck s) = 0 then S1 else S0) s)"
| exchange_fail: "pc s c = S1 \<Longrightarrow> locked (lck s) \<noteq> 0 \<Longrightarrow>
    cs_step s (s\<lparr>pc := (pc s)(c := S0), lck := (lck s)\<lparr>locked := 1\<rparr>\<rparr>)"
| exchange: "pc s c = S1 \<Longrightarrow> locked (lck s) = 0 \<Longrightarrow>
    cs_step s (s\<lparr>pc := (pc s)(c := G1), depth := (depth s)(c := 1),
      lck := (lck s)\<lparr>locked := 1\<rparr>\<rparr>)"
| got_count: "pc s c = G1 \<Longrightarrow>
    cs_step s (s\<lparr>pc := (pc s)(c := G2), lck := (lck s)\<lparr>lockcount := 1\<rparr>\<rparr>)"
| got_apicid: "pc s c = G2 \<Longrightarrow>
    cs_step s (s\<lparr>pc := (pc s)(c := Run), lck := (lck s)\<lparr>apicid := cs_id c\<rparr>\<rparr>)"
| leave_locked: "pc s c = L0 \<Longrightarrow>
    cs_step s (goto c (if locked (lck s) \<noteq> 0 then L1 else Run) s)"
| leave_apicid: "pc s c = L1 \<Longrightarrow>
    cs_step s (goto c (if apicid (lck s) = cs_id c then L2 else Run) s)"
| leave_count: "pc s c = L2 \<Longrightarrow>
    cs_step s (s\<lparr>pc := (pc s)(c := L3),
      lck := (lck s)\<lparr>lockcount := lockcount (lck s) - 1\<rparr>\<rparr>)"
| leave_nested: "pc s c = L3 \<Longrightarrow> lockcount (lck s) \<noteq> 0 \<Longrightarrow>
    cs_step s (s\<lparr>pc := (pc s)(c := Run), depth := (depth s)(c := depth s c - 1)\<rparr>)"
| leave_last: "pc s c = L3 \<Longrightarrow> lockcount (lck s) = 0 \<Longrightarrow> cs_step s (goto c L4 s)"
| leave_clear: "pc s c = L4 \<Longrightarrow>
    cs_step s (s\<lparr>pc := (pc s)(c := L5), lck := (lck s)\<lparr>apicid := -1\<rparr>\<rparr>)"
| leave_unlock: "pc s c = L5 \<Longrightarrow>
    cs_step s (s\<lparr>pc := (pc s)(c := Run), depth := (depth s)(c := 0),
      lck := (lck s)\<lparr>locked := 0\<rparr>\<rparr>)"

text \<open>A critical section is a zeroed global variable.\<close>

definition cs_init :: cs_system where
  "cs_init = \<lparr>lck = \<lparr>locked = 0, apicid = 0, lockcount = 0\<rparr>, pc = (\<lambda>_. Run), depth = (\<lambda>_. 0)\<rparr>"

section \<open>The contract of a lock\<close>

text \<open>
  What the users of a critical section rely on, for any step system: an invariant that
  holds at the start and is kept, and under which at most one CPU owns the lock.
\<close>

locale lock_system =
  fixes init :: 's and step :: "'s \<Rightarrow> 's \<Rightarrow> bool"
    and inv :: "'s \<Rightarrow> bool" and owns :: "'s \<Rightarrow> nat \<Rightarrow> bool"
  assumes inv_init: "inv init"
    and inv_step: "step s t \<Longrightarrow> inv s \<Longrightarrow> inv t"
    and inv_owner: "inv s \<Longrightarrow> owns s c \<Longrightarrow> owns s d \<Longrightarrow> c = d"
begin

lemma reach_inv: "rtranclp step init s \<Longrightarrow> inv s"
  by (induction rule: rtranclp_induct) (auto intro: inv_init inv_step)

lemma exclusive: "rtranclp step init s \<Longrightarrow> owns s c \<Longrightarrow> owns s d \<Longrightarrow> c = d"
  using reach_inv inv_owner by blast

text \<open>Data that only the owner writes changes in no step of another CPU while it is owned.\<close>

lemma stable_under_owner:
  assumes "\<And>s t. step s t \<Longrightarrow> data t \<noteq> data s \<Longrightarrow> owns s (who s t)"
    and "rtranclp step init s" "owns s c" "step s t" "who s t \<noteq> c"
  shows "data t = data s"
  using assms exclusive by blast

end

section \<open>The invariant\<close>

text \<open>A CPU that does not own the lock, and the owner, place by place.\<close>

definition cs_other :: "nat \<Rightarrow> cs_system \<Rightarrow> bool" where
  "cs_other c s \<longleftrightarrow> depth s c = 0 \<and> apicid (lck s) \<noteq> cs_id c
     \<and> pc s c \<in> {Run, E0, E1, S0, S1, L0, L1}"

definition cs_owner :: "nat \<Rightarrow> cs_system \<Rightarrow> bool" where
  "cs_owner c s \<longleftrightarrow> 0 < depth s c \<and> pc s c \<notin> {S0, S1}
     \<and> (apicid (lck s) = cs_id c \<longleftrightarrow> pc s c \<notin> {G1, G2, L5})
     \<and> (pc s c \<in> {G1, G2, L4, L5} \<longrightarrow> depth s c = 1)
     \<and> (pc s c \<noteq> G1 \<longrightarrow>
          lockcount (lck s) = int (depth s c) - (if pc s c \<in> {L3, L4, L5} then 1 else 0))"

definition cs_ok :: "nat option \<Rightarrow> cs_system \<Rightarrow> bool" where
  "cs_ok ow s \<longleftrightarrow> locked (lck s) = (if ow = None then 0 else 1)
     \<and> (\<forall>c. if ow = Some c then cs_owner c s else cs_other c s)"

definition cs_inv :: "cs_system \<Rightarrow> bool" where
  "cs_inv s \<longleftrightarrow> (\<exists>ow. cs_ok ow s)"

lemma cs_id_inj [simp]: "cs_id c = cs_id d \<longleftrightarrow> c = d"
  by (simp add: cs_id_def)

lemma cs_id_pos [simp]: "cs_id c \<noteq> 0" "cs_id c \<noteq> -1" "- 1 \<noteq> cs_id c" "0 \<noteq> cs_id c"
  by (simp_all add: cs_id_def)

lemma cs_ok_owner: "cs_ok (Some c) s \<Longrightarrow> cs_owner c s"
  unfolding cs_ok_def by (metis (full_types))

lemma cs_ok_other: "cs_ok ow s \<Longrightarrow> ow \<noteq> Some c \<Longrightarrow> cs_other c s"
  unfolding cs_ok_def by (metis (full_types))

lemma cs_ok_locked: "cs_ok ow s \<Longrightarrow> locked (lck s) = (if ow = None then 0 else 1)"
  by (simp add: cs_ok_def)

lemma owner_at:
  assumes "cs_ok ow s" "pc s c \<in> {E2, G1, G2, L2, L3, L4, L5}"
  shows "ow = Some c"
proof (rule ccontr)
  assume "ow \<noteq> Some c"
  with assms(1) have "cs_other c s" by (rule cs_ok_other)
  with assms(2) show False by (auto simp: cs_other_def)
qed

text \<open>A CPU that does not own the lock only moves on.\<close>

lemma other_moves:
  assumes "cs_ok ow s" "ow \<noteq> Some c" "p \<in> {Run, E0, E1, S0, S1, L0, L1}"
  shows "cs_ok ow (goto c p s)"
  unfolding cs_ok_def
proof (intro conjI allI)
  fix d
  show "if ow = Some d then cs_owner d (goto c p s) else cs_other d (goto c p s)"
  proof (cases "ow = Some d")
    case True
    then have "cs_owner d s" "d \<noteq> c" using assms(1,2) cs_ok_owner by auto
    with True show ?thesis by (simp add: cs_owner_def)
  next
    case False
    with assms(1) have "cs_other d s" by (rule cs_ok_other)
    with False assms(3) show ?thesis by (simp add: cs_other_def)
  qed
qed (use cs_ok_locked [OF assms(1)] in simp)

text \<open>A step of the owner, which may change everything but \<^verbatim>\<open>locked\<close>.\<close>

lemma owner_moves:
  assumes "cs_ok (Some c) s" "cs_owner c t" "locked (lck t) = locked (lck s)"
    and "\<And>d. d \<noteq> c \<Longrightarrow> pc t d = pc s d \<and> depth t d = depth s d"
    and "\<And>d. d \<noteq> c \<Longrightarrow> apicid (lck t) \<noteq> cs_id d"
  shows "cs_ok (Some c) t"
  unfolding cs_ok_def
proof (intro conjI allI)
  fix d
  show "if Some c = Some d then cs_owner d t else cs_other d t"
  proof (cases "c = d")
    case True
    with assms(2) show ?thesis by simp
  next
    case False
    with assms(1) have "cs_other d s" by (intro cs_ok_other) auto
    with False assms(4,5) show ?thesis by (simp add: cs_other_def)
  qed
qed (use cs_ok_locked [OF assms(1)] assms(3) in simp)

text \<open>Taking and giving back the lock.\<close>

lemma lock_taken:
  assumes "cs_ok None s"
  shows "cs_ok (Some c) (s\<lparr>pc := (pc s)(c := G1), depth := (depth s)(c := 1),
      lck := (lck s)\<lparr>locked := 1\<rparr>\<rparr>)"
  unfolding cs_ok_def
  using cs_ok_other [OF assms] by (auto simp: cs_owner_def cs_other_def)

lemma lock_released:
  assumes "cs_ok (Some c) s" "pc s c = L5"
  shows "cs_ok None (s\<lparr>pc := (pc s)(c := Run), depth := (depth s)(c := 0),
      lck := (lck s)\<lparr>locked := 0\<rparr>\<rparr>)"
proof -
  have "cs_owner c s" using assms(1) by (rule cs_ok_owner)
  moreover have "cs_other d s" if "d \<noteq> c" for d
    using assms(1) that by (intro cs_ok_other) auto
  ultimately show ?thesis
    using assms(2) by (auto simp: cs_ok_def cs_owner_def cs_other_def)
qed

lemma owner_apicid:
  assumes "cs_ok (Some c) s" "d \<noteq> c"
  shows "apicid (lck s) \<noteq> cs_id d"
  using cs_ok_other [OF assms(1), of d] assms(2) by (auto simp: cs_other_def)

lemma cs_step_ok:
  assumes "cs_step s t" "cs_ok ow s"
  shows "\<exists>ow'. cs_ok ow' t"
proof -
  have moves: "cs_ok ow (goto c p s)"
    if "p \<in> {Run, E0, E1, L0, L1} \<or> p = S0 \<and> ow \<noteq> Some c \<or> p = S1 \<and> ow \<noteq> Some c
        \<or> p \<in> {E2, L2, L4} \<and> ow = Some c"
      and "ow = Some c \<Longrightarrow> cs_owner c (goto c p s)" for c p
  proof (cases "ow = Some c")
    case True
    show ?thesis
      unfolding True
      by (rule owner_moves) (use assms(2) True that(2) owner_apicid in auto)
  next
    case False
    with assms(2) that show ?thesis by (intro other_moves) auto
  qed
  have own: "cs_owner c s" if "ow = Some c" for c using assms(2) that cs_ok_owner by simp
  note at = owner_at [OF assms(2)]
  have owned: "\<exists>ow'. cs_ok ow' t"
    if "pc s c \<in> {E2, G1, G2, L2, L3, L4, L5}" "cs_owner c s \<Longrightarrow> cs_owner c t"
      "locked (lck t) = locked (lck s)" "\<forall>d. d \<noteq> c \<longrightarrow> pc t d = pc s d \<and> depth t d = depth s d"
      "apicid (lck t) \<in> {apicid (lck s), cs_id c, -1}" for c
  proof -
    have ow: "ow = Some c" using that(1) by (rule at)
    show ?thesis
      by (rule exI, rule owner_moves [OF assms(2) [unfolded ow]])
        (use that own [OF ow] owner_apicid [OF assms(2) [unfolded ow]] in auto)
  qed
  from assms(1) show ?thesis
  proof cases
    case (enter_locked c)
    have "ow = Some c \<Longrightarrow> locked (lck s) \<noteq> 0" using cs_ok_locked [OF assms(2)] by auto
    then show ?thesis
      unfolding enter_locked
      by (intro exI [of _ ow] moves) (use own enter_locked(2) in \<open>auto simp: cs_owner_def\<close>)
  next
    case (enter_apicid c)
    have "ow = Some c \<Longrightarrow> apicid (lck s) = cs_id c"
      using own enter_apicid(2) by (auto simp: cs_owner_def)
    moreover have "ow \<noteq> Some c \<Longrightarrow> apicid (lck s) \<noteq> cs_id c"
      using cs_ok_other [OF assms(2), of c] by (auto simp: cs_other_def)
    ultimately show ?thesis
      unfolding enter_apicid
      by (intro exI [of _ ow] moves) (use own enter_apicid(2) in \<open>auto simp: cs_owner_def\<close>)
  next
    case (leave_apicid c)
    have "ow = Some c \<Longrightarrow> apicid (lck s) = cs_id c"
      using own leave_apicid(2) by (auto simp: cs_owner_def)
    moreover have "ow \<noteq> Some c \<Longrightarrow> apicid (lck s) \<noteq> cs_id c"
      using cs_ok_other [OF assms(2), of c] by (auto simp: cs_other_def)
    ultimately show ?thesis
      unfolding leave_apicid
      by (intro exI [of _ ow] moves) (use own leave_apicid(2) in \<open>auto simp: cs_owner_def\<close>)
  next
    case (call_enter c)
    then show ?thesis
      by (auto intro!: exI [of _ ow] moves simp: cs_owner_def dest: own)
  next
    case (call_leave c)
    then show ?thesis
      by (auto intro!: exI [of _ ow] moves simp: cs_owner_def dest: own)
  next
    case (leave_locked c)
    then show ?thesis
      unfolding leave_locked
      by (intro exI [of _ ow] moves) (use own leave_locked(2) in \<open>auto simp: cs_owner_def\<close>)
  next
    case (spin c)
    then have "ow \<noteq> Some c" using own by (auto simp: cs_owner_def)
    then show ?thesis unfolding spin by (intro exI [of _ ow] moves) auto
  next
    case (exchange_fail c)
    then have "ow \<noteq> Some c" "ow \<noteq> None"
      using own [of c] cs_ok_locked [OF assms(2)] by (auto simp: cs_owner_def split: if_splits)
    then have "lck s\<lparr>locked := 1\<rparr> = lck s" using cs_ok_locked [OF assms(2)] by simp
    then have "t = goto c S0 s" unfolding exchange_fail(1) by simp
    with \<open>ow \<noteq> Some c\<close> show ?thesis using other_moves [OF assms(2), of c S0] by auto
  next
    case (exchange c)
    then have "ow = None" using cs_ok_locked [OF assms(2)] by (auto split: if_splits)
    then show ?thesis unfolding exchange(1) using lock_taken assms(2) by blast
  next
    case (leave_unlock c)
    then have "ow = Some c" using at by simp
    then show ?thesis unfolding leave_unlock(1) using lock_released assms(2) leave_unlock(2) by blast
  next
    case (leave_last c)
    then have "ow = Some c" using at by simp
    then show ?thesis
      unfolding leave_last(1)
      by (intro exI [of _ ow] moves) (use own leave_last in \<open>auto simp: cs_owner_def\<close>)
  next
    case (enter_again c)
    then show ?thesis by (intro owned [of c]) (auto simp: cs_owner_def)
  next
    case (got_count c)
    then show ?thesis by (intro owned [of c]) (auto simp: cs_owner_def)
  next
    case (got_apicid c)
    then show ?thesis by (intro owned [of c]) (auto simp: cs_owner_def)
  next
    case (leave_count c)
    then show ?thesis by (intro owned [of c]) (auto simp: cs_owner_def)
  next
    case (leave_nested c)
    then show ?thesis by (intro owned [of c]) (auto simp: cs_owner_def)
  next
    case (leave_clear c)
    then show ?thesis by (intro owned [of c]) (auto simp: cs_owner_def)
  qed
qed


interpretation csl: lock_system cs_init cs_step cs_inv "\<lambda>s c. 0 < depth s c"
proof
  have "cs_ok None cs_init" by (simp add: cs_ok_def cs_init_def cs_other_def)
  then show "cs_inv cs_init" unfolding cs_inv_def ..
  show "cs_step s t \<Longrightarrow> cs_inv s \<Longrightarrow> cs_inv t" for s t
    unfolding cs_inv_def using cs_step_ok by blast
  show "cs_inv s \<Longrightarrow> 0 < depth s c \<Longrightarrow> 0 < depth s d \<Longrightarrow> c = d" for s c d
    unfolding cs_inv_def using cs_ok_other
    by (metis (no_types) cs_other_def less_irrefl option.inject)
qed

section \<open>One CPU alone\<close>

lemma step_then: "cs_step s t \<Longrightarrow> rtranclp cs_step t u \<Longrightarrow> rtranclp cs_step s u"
  by (rule converse_rtranclp_into_rtranclp)

lemma enter_free_run:
  assumes "pc s c = Run" "locked (lck s) = 0"
  shows "rtranclp cs_step s (s\<lparr>depth := (depth s)(c := 1),
    lck := (lck s)\<lparr>locked := 1, lockcount := 1, apicid := cs_id c\<rparr>\<rparr>)"
proof -
  let ?s5 = "s\<lparr>pc := (pc s)(c := G2), depth := (depth s)(c := 1),
    lck := (lck s)\<lparr>locked := 1, lockcount := 1\<rparr>\<rparr>"
  have "cs_step s (goto c E0 s)" using assms by (auto intro: cs_step.call_enter)
  moreover have "cs_step (goto c E0 s) (goto c S0 s)"
    using cs_step.enter_locked [of "goto c E0 s" c] assms by simp
  moreover have "cs_step (goto c S0 s) (goto c S1 s)"
    using cs_step.spin [of "goto c S0 s" c] assms by simp
  moreover have "cs_step (goto c S1 s) (s\<lparr>pc := (pc s)(c := G1), depth := (depth s)(c := 1),
      lck := (lck s)\<lparr>locked := 1\<rparr>\<rparr>)" (is "cs_step _ ?s4")
    using cs_step.exchange [of "goto c S1 s" c] assms by simp
  moreover have "cs_step ?s4 ?s5"
    by (rule back_subst [where P = "cs_step ?s4", OF cs_step.got_count [of ?s4 c]]) simp_all
  moreover have "cs_step ?s5 (s\<lparr>depth := (depth s)(c := 1),
      lck := (lck s)\<lparr>locked := 1, lockcount := 1, apicid := cs_id c\<rparr>\<rparr>)"
    by (rule back_subst [where P = "cs_step ?s5", OF cs_step.got_apicid [of ?s5 c]])
      (use assms(1) in \<open>simp_all add: fun_upd_idem\<close>)
  ultimately show ?thesis by (meson rtranclp.rtrancl_refl step_then)
qed

lemma enter_nested_run:
  assumes "pc s c = Run" "locked (lck s) \<noteq> 0" "apicid (lck s) = cs_id c"
  shows "rtranclp cs_step s (s\<lparr>depth := (depth s)(c := Suc (depth s c)),
    lck := (lck s)\<lparr>lockcount := lockcount (lck s) + 1\<rparr>\<rparr>)"
proof -
  have "cs_step s (goto c E0 s)" using assms by (auto intro: cs_step.call_enter)
  moreover have "cs_step (goto c E0 s) (goto c E1 s)"
    using cs_step.enter_locked [of "goto c E0 s" c] assms by simp
  moreover have "cs_step (goto c E1 s) (goto c E2 s)"
    using cs_step.enter_apicid [of "goto c E1 s" c] assms by simp
  moreover have "cs_step (goto c E2 s) (s\<lparr>depth := (depth s)(c := Suc (depth s c)),
      lck := (lck s)\<lparr>lockcount := lockcount (lck s) + 1\<rparr>\<rparr>)"
    using cs_step.enter_again [of "goto c E2 s" c] assms(1) [symmetric] by (simp add: fun_upd_idem)
  ultimately show ?thesis by (meson rtranclp.rtrancl_refl step_then)
qed

text \<open>
  C37: mutual exclusion. In no interleaving of any number of CPUs that enter and leave the
  critical section, nested or not, are two of them inside it.
\<close>

theorem cs_mutual_exclusion:
  assumes "rtranclp cs_step cs_init s" "0 < depth s c" "0 < depth s d"
  shows "c = d"
  using assms by (rule csl.exclusive)

lemma cs_entered: "rtranclp cs_step cs_init (cs_init\<lparr>depth := (depth cs_init)(3 := 1),
    lck := (lck cs_init)\<lparr>locked := 1, lockcount := 1, apicid := cs_id 3\<rparr>\<rparr>)"
  by (rule enter_free_run) (simp_all add: cs_init_def)

theorem cs_mutual_exclusion_witness:
  "\<exists>s. rtranclp cs_step cs_init s \<and> 0 < depth s 3 \<and> (3 :: nat) = 3"
  using cs_mutual_exclusion [OF cs_entered, of 3 3] cs_entered by force

text \<open>
  The lock variables tell the truth although they are read and written one at a time. While
  a CPU is inside and outside of the two functions, the lock is taken, \<^verbatim>\<open>apicid\<close> is its own
  and \<^verbatim>\<open>lockcount\<close> the number of entries it has to leave; and at no moment, not even in
  the middle of another CPU's entry or exit, does \<^verbatim>\<open>apicid\<close> name a CPU that is outside, so
  the unlocked test for recursion at the start of \<^verbatim>\<open>csEnter\<close> cannot let a second CPU in.
\<close>

theorem cs_variables_match:
  assumes "rtranclp cs_step cs_init s"
  shows "(0 < depth s c \<and> pc s c = Run \<longrightarrow> locked (lck s) = 1 \<and> apicid (lck s) = cs_id c
      \<and> lockcount (lck s) = int (depth s c))
    \<and> (apicid (lck s) = cs_id c \<longrightarrow> 0 < depth s c)"
proof -
  obtain ow where ok: "cs_ok ow s"
    using csl.reach_inv [OF assms] unfolding cs_inv_def by blast
  show ?thesis
  proof (cases "ow = Some c")
    case True
    with ok have "cs_owner c s" by (simp add: cs_ok_owner)
    with True show ?thesis using cs_ok_locked [OF ok] by (auto simp: cs_owner_def)
  next
    case False
    with ok have "cs_other c s" by (rule cs_ok_other)
    then show ?thesis by (simp add: cs_other_def)
  qed
qed

theorem cs_variables_match_witness:
  "\<exists>s. rtranclp cs_step cs_init s \<and> 0 < depth s 3 \<and> pc s 3 = Run
    \<and> locked (lck s) = 1 \<and> apicid (lck s) = cs_id 3 \<and> lockcount (lck s) = int (depth s 3)"
  by (rule exI, rule conjI [OF cs_entered])
    (use cs_variables_match [OF cs_entered, of 3] in \<open>simp add: cs_init_def\<close>)

text \<open>
  The interleaved code run by one CPU without interruption is the function: whenever
  \<^verbatim>\<open>csEnter\<close> returns, its accesses in sequence lead to the state it computes.
\<close>

theorem csEnter_refined:
  assumes "pc s c = Run" "csEnter c (lck s) = Some CS"
  shows "\<exists>t. rtranclp cs_step s t \<and> lck t = CS \<and> pc t = pc s \<and> 0 < depth t c"
proof (cases "locked (lck s) \<noteq> 0 \<and> apicid (lck s) = cs_id c")
  case True
  let ?t = "s\<lparr>depth := (depth s)(c := Suc (depth s c)),
    lck := (lck s)\<lparr>lockcount := lockcount (lck s) + 1\<rparr>\<rparr>"
  have "rtranclp cs_step s ?t" using True assms(1) by (intro enter_nested_run) auto
  with True assms(2) show ?thesis by (intro exI [of _ ?t]) (auto simp: csEnter_def)
next
  case False
  with assms have "locked (lck s) = 0" by (auto simp: csEnter_def split: if_splits)
  let ?t = "s\<lparr>depth := (depth s)(c := 1),
    lck := (lck s)\<lparr>locked := 1, lockcount := 1, apicid := cs_id c\<rparr>\<rparr>"
  have "rtranclp cs_step s ?t" using assms(1) \<open>locked (lck s) = 0\<close> by (rule enter_free_run)
  with \<open>locked (lck s) = 0\<close> assms(2) show ?thesis
    by (intro exI [of _ ?t]) (auto simp: csEnter_def)
qed

theorem csEnter_refined_witness:
  "\<exists>t. rtranclp cs_step cs_init t \<and> lck t = \<lparr>locked = 1, apicid = 5, lockcount = 1\<rparr>
    \<and> pc t = pc cs_init \<and> 0 < depth t 3"
  by (rule csEnter_refined) (simp_all add: cs_init_def csEnter_def cs_id_def)

section \<open>Nesting\<close>

lemma enters:
  assumes "locked CS = 0"
  shows "((\<lambda>x. Option.bind x (csEnter c)) ^^ Suc n) (Some CS)
    = Some (CS\<lparr>locked := 1, lockcount := int (Suc n), apicid := cs_id c\<rparr>)"
  by (induction n) (use assms in \<open>simp_all add: csEnter_def\<close>)

lemma leaves:
  "locked CS \<noteq> 0 \<Longrightarrow> apicid CS = cs_id c \<Longrightarrow> lockcount CS = int (Suc n) \<Longrightarrow>
    (csLeave c ^^ Suc n) CS = CS\<lparr>lockcount := 0, apicid := -1, locked := 0\<rparr>"
proof (induction n arbitrary: CS)
  case 0
  then show ?case by (simp add: csLeave_def)
next
  case (Suc n)
  have "(csLeave c ^^ Suc (Suc n)) CS = (csLeave c ^^ Suc n) (csLeave c CS)"
    by (simp only: funpow_swap1 funpow.simps o_apply)
  also have "csLeave c CS = CS\<lparr>lockcount := int (Suc n)\<rparr>"
    using Suc.prems by (simp add: csLeave_def)
  finally show ?case using Suc.IH [of "CS\<lparr>lockcount := int (Suc n)\<rparr>"] Suc.prems by simp
qed

text \<open>
  Nested entries. After entering a free critical section \<open>n\<close> times a CPU has to leave
  it exactly \<open>n\<close> times before it is free again; until then another CPU cannot enter, and
  a \<^verbatim>\<open>csLeave\<close> of another CPU has no effect.
\<close>

theorem cs_nesting:
  assumes "locked CS = 0" "k < n" "d \<noteq> c"
  shows "\<exists>CS'. ((\<lambda>x. Option.bind x (csEnter c)) ^^ n) (Some CS) = Some CS'
    \<and> locked ((csLeave c ^^ n) CS') = 0
    \<and> csEnter d ((csLeave c ^^ k) CS') = None \<and> csLeave d ((csLeave c ^^ k) CS') = (csLeave c ^^ k) CS'"
proof -
  obtain m where n: "n = Suc m" using assms(2) by (cases n) auto
  let ?CS = "CS\<lparr>locked := 1, lockcount := int n, apicid := cs_id c\<rparr>"
  have part: "(csLeave c ^^ j) ?CS = ?CS\<lparr>lockcount := int n - int j\<rparr>" if "j < n" for j
    using that
  proof (induction j)
    case (Suc j)
    then show ?case by (simp add: csLeave_def)
  qed simp
  have "((\<lambda>x. Option.bind x (csEnter c)) ^^ n) (Some CS) = Some ?CS"
    unfolding n by (rule enters [OF assms(1)])
  moreover have "locked ((csLeave c ^^ n) ?CS) = 0"
    unfolding n using leaves [of "CS\<lparr>locked := 1, lockcount := int (Suc m), apicid := cs_id c\<rparr>" c m]
    by simp
  ultimately show ?thesis
    using assms(3) by (intro exI [of _ ?CS]) (simp add: part [OF assms(2)] csEnter_def csLeave_def)
qed

theorem cs_nesting_witness:
  "\<exists>CS'. ((\<lambda>x. Option.bind x (csEnter 0)) ^^ 3) (Some \<lparr>locked = 0, apicid = 0, lockcount = 0\<rparr>)
      = Some CS'
    \<and> locked ((csLeave 0 ^^ 3) CS') = 0
    \<and> csEnter 1 ((csLeave 0 ^^ 2) CS') = None \<and> csLeave 1 ((csLeave 0 ^^ 2) CS') = (csLeave 0 ^^ 2) CS'"
  by (rule cs_nesting) simp_all

end
