(* ===== verification/VM_Call.thy ===== *)
theory VM_Call
  imports Exception_Emulation Ultimap_Ops RM_Data Critical_Section
begin

text \<open>
  The vmcall interface, \<^verbatim>\<open>dbvm/vmm/vmcall.c\<close>: \<^verbatim>\<open>_handleVMCall\<close> checks two passwords,
  maps the guest's request structure and carries out one of the commands of
  \<^verbatim>\<open>vmcall.h\<close>; \<^verbatim>\<open>handleVMCall\<close> serialises the calls of all CPUs. With it
  \<^verbatim>\<open>readMSRSafe\<close>, \<^verbatim>\<open>returnFromCR3Callback\<close>, \<^verbatim>\<open>getpid\<close> of \<^verbatim>\<open>osspecific.c\<close> and
  \<^verbatim>\<open>ultimap_debugoutput\<close> of \<^verbatim>\<open>ultimap.c\<close>. The C result is always 0 and is left out.

  \<open>None\<close> is a fault of the hypervisor itself: an access outside its windows, or a write to
  an MSR the processor does not have.
\<close>

unbundle bit_operations_syntax

section \<open>Access to the request\<close>

definition req_dword :: "machine \<Rightarrow> window \<Rightarrow> nat \<Rightarrow> ULONG option" where
  "req_dword s w k = map_option le_word (win_read (mem s) w (4 * k) 4)"

definition req_qword :: "machine \<Rightarrow> window \<Rightarrow> nat \<Rightarrow> UINT64 option" where
  "req_qword s w k = map_option le_word (win_read (mem s) w (4 * k) 8)"

definition set_rax :: "UINT64 \<Rightarrow> machine \<Rightarrow> machine" where
  "set_rax v s = s\<lparr>regs := (regs s)\<lparr>rax := v\<rparr>\<rparr>"

definition set_info :: "(event_info \<Rightarrow> event_info) \<Rightarrow> machine \<Rightarrow> machine" where
  "set_info f s = s\<lparr>cpu := (cpu s)\<lparr>info := f (info (cpu s))\<rparr>\<rparr>"

definition set_globals :: "(dbvm_globals \<Rightarrow> dbvm_globals) \<Rightarrow> machine \<Rightarrow> machine" where
  "set_globals f s = s\<lparr>globals := f (globals s)\<rparr>"

text \<open>\<open>Next s\<close>: the command breaks out of the switch. \<open>Stop s\<close>: it returns from the handler.\<close>

datatype outcome = Next machine | Stop machine

type_synonym command = "window \<Rightarrow> machine \<Rightarrow> outcome option"

section \<open>Model specific registers\<close>

text \<open>An access to a missing MSR faults; \<^verbatim>\<open>readMSRSafe\<close> then returns its initial 0.\<close>

definition readMSRSafe :: "DWORD \<Rightarrow> machine \<Rightarrow> UINT64 \<times> machine" where
  "readMSRSafe m s =
     (let c = (cpu s)\<lparr>LastInterrupt := (if msr_exists (host s) m then 0 else 13)\<rparr>
      in (if msr_exists (host s) m then msr s m else 0, s\<lparr>cpu := c\<rparr>))"

definition wrmsr :: "DWORD \<Rightarrow> UINT64 \<Rightarrow> machine \<Rightarrow> machine option" where
  "wrmsr m v s = (if msr_exists (host s) m then Some (writeMSR m v s) else None)"

section \<open>Physical memory\<close>

text \<open>
  The window \<^verbatim>\<open>MapPhysicalMemory\<close> makes on physical address \<open>a\<close>, as 4 KB frames: 4 MB
  from \<open>a\<close> rounded down to 2 MB.
\<close>

definition phys_pa :: "UINT64 \<Rightarrow> nat \<Rightarrow> UINT64 option" where
  "phys_pa a k = (if unat a mod 0x200000 + k < 0x400000 then Some (a + of_nat k) else None)"

text \<open>\<^verbatim>\<open>copymem\<close> between the windows, upwards, byte by byte.\<close>

fun copy_windows :: "(nat \<Rightarrow> UINT64 option) \<Rightarrow> (nat \<Rightarrow> UINT64 option) \<Rightarrow> nat \<Rightarrow> nat \<Rightarrow> pmem \<Rightarrow> pmem option" where
  "copy_windows d s k 0 m = Some m"
| "copy_windows d s k (Suc n) m =
     (case (s k, d k) of (Some p, Some q) \<Rightarrow> copy_windows d s (Suc k) n (m(q := m p)) | _ \<Rightarrow> None)"

text \<open>
  The size after the mapping of the guest's buffer: \<^verbatim>\<open>size\<close> is an \<^verbatim>\<open>unsigned int\<close>, handed
  to \<^verbatim>\<open>mapVMmemory\<close> and \<^verbatim>\<open>copymem\<close> as \<^verbatim>\<open>int\<close>. \<open>Inl\<close> is the page fault to raise.
\<close>

definition transfer_size :: "int \<Rightarrow> UINT64 \<Rightarrow> UINT64 \<Rightarrow> ULONG \<Rightarrow> ULONG \<Rightarrow> UINT64 + ULONG" where
  "transfer_size error pagefaultaddress va sz noPageFault =
     (if error = 0 then Inr sz
      else if error = 2 then
        (if noPageFault \<noteq> 0 then Inr (ucast (pagefaultaddress - va)) else Inl pagefaultaddress)
      else Inr 0)"

definition vmcall_physical :: "bool \<Rightarrow> command" where
  "vmcall_physical writing w s = do {
     pa \<leftarrow> req_qword s w 3;
     sz \<leftarrow> req_dword s w 5;
     va \<leftarrow> req_qword s w 6;
     noPageFault \<leftarrow> req_dword s w 8;
     (error, pf, gw, s1) \<leftarrow> mapVMmemory s va (sint sz);
     case transfer_size error pf va sz noPageFault of
       Inl address \<Rightarrow> Some (Stop (raisePagefault address s1))
     | Inr n \<Rightarrow> do {
         m \<leftarrow> (if writing then copy_windows (phys_pa pa) (win_pa gw) 0 (nat (sint n)) (mem s1)
               else copy_windows (win_pa gw) (phys_pa pa) 0 (nat (sint n)) (mem s1));
         Some (Next (set_rax (ucast n) (s1\<lparr>mem := m\<rparr>))) } }"

section \<open>Sysenter\<close>

definition intel_only :: "command \<Rightarrow> command" where
  "intel_only c w s = (if isAMD s then Some (Next (set_rax 0xcedead s)) else c w s)"

definition vmcall_fake_sysenter :: command where
  "vmcall_fake_sysenter w s =
     Some (Next (set_rax 0
       (if hidden_sysenter_modification (info (cpu s)) = 0 then
          set_info (\<lambda>i. i\<lparr>actual_sysenter_CS := sysenter_CS i, actual_sysenter_ESP := sysenter_ESP i,
            actual_sysenter_EIP := sysenter_EIP i\<rparr>) s
        else s)))"

definition store_dword :: "window \<Rightarrow> UINT64 \<Rightarrow> machine \<Rightarrow> machine option" where
  "store_dword w v s = map_option (\<lambda>m. s\<lparr>mem := m\<rparr>) (win_write (mem s) w 0 (le_bytes 4 v))"

definition vmcall_get_sysenter :: command where
  "vmcall_get_sysenter w s =
     (if hidden_sysenter_modification (info (cpu s)) = 0 then Some (Stop (raiseInvalidOpcodeException s))
      else do {
        a1 \<leftarrow> req_dword s w 3;
        (e1, pf1, w1, s1) \<leftarrow> mapVMmemory s (ucast a1) 4;
        if e1 = 2 then Some (Stop (raisePagefault pf1 s1)) else do {
          a2 \<leftarrow> req_dword s1 w 4;
          (e2, pf2, w2, s2) \<leftarrow> mapVMmemory s1 (ucast a2) 4;
          if e2 = 2 then Some (Stop (raisePagefault pf2 s2)) else do {
            a3 \<leftarrow> req_dword s2 w 5;
            (e3, pf3, w3, s3) \<leftarrow> mapVMmemory s2 (ucast a3) 4;
            if e3 = 2 then Some (Stop (raisePagefault pf3 s3)) else do {
              s4 \<leftarrow> store_dword w1 (actual_sysenter_CS (info (cpu s3))) s3;
              s5 \<leftarrow> store_dword w3 (actual_sysenter_ESP (info (cpu s4))) s4;
              s6 \<leftarrow> store_dword w2 (actual_sysenter_EIP (info (cpu s5))) s5;
              Some (Next (set_rax 0 s6)) }}}})"

definition vmcall_set_sysenter :: command where
  "vmcall_set_sysenter w s = do {
     cs \<leftarrow> req_dword s w 3;
     esp \<leftarrow> req_dword s w 4;
     eip \<leftarrow> req_dword s w 5;
     if hidden_sysenter_modification (info (cpu s)) = 0 then Some (Stop (raiseInvalidOpcodeException s))
     else
       (let s1 = set_info (\<lambda>i. i\<lparr>actual_sysenter_CS := ucast cs, actual_sysenter_ESP := ucast esp,
              actual_sysenter_EIP := ucast eip\<rparr>) s
        in Some (Next (set_rax 0
             (vmwrite 0x482a (ucast cs) (vmwrite 0x6824 (ucast esp) (vmwrite 0x6826 (ucast eip) s1)))))) }"

section \<open>Interrupt redirection\<close>

text \<open>
  The three redirection commands differ in the global they set and the vector they intercept
  on AMD.
\<close>

definition new_redirection :: "window \<Rightarrow> machine \<Rightarrow> redirection \<Rightarrow> redirection option" where
  "new_redirection w s r = do {
     mode \<leftarrow> req_dword s w 3;
     if mode = 0 then do {
       n \<leftarrow> req_dword s w 4;
       Some (r\<lparr>redir_int := sint n, redir_idtbypass := 0\<rparr>) }
     else do {
       cs \<leftarrow> req_dword s w 7;
       rip \<leftarrow> req_qword s w 5;
       Some (r\<lparr>redir_cs := ucast cs, redir_rip := rip, redir_idtbypass := 1\<rparr>) } }"

definition intercept_exception :: "nat \<Rightarrow> bool \<Rightarrow> machine \<Rightarrow> machine" where
  "intercept_exception n on s =
     set_vmcb (\<lambda>b. b\<lparr>InterceptExceptions :=
         (if on then set_bit n (InterceptExceptions b) else unset_bit n (InterceptExceptions b)),
       VMCB_CLEAN_BITS := unset_bit 0 (VMCB_CLEAN_BITS b)\<rparr>) s"

definition vmcall_redirect :: "nat \<Rightarrow> (dbvm_globals \<Rightarrow> redirection)
    \<Rightarrow> (redirection \<Rightarrow> dbvm_globals \<Rightarrow> dbvm_globals) \<Rightarrow> command" where
  "vmcall_redirect n get put w s = do {
     mode \<leftarrow> req_dword s w 3;
     r \<leftarrow> new_redirection w s (get (globals s));
     (let s1 = set_globals (put r) s;
          s2 = (if isAMD s then intercept_exception n (mode \<noteq> 2) s1 else s1)
      in Some (Next (set_rax 0 s2))) }"

section \<open>Interrupts and privilege\<close>

definition vmcall_block_interrupts :: command where
  "vmcall_block_interrupts w s =
     (let s1 = vmwrite vm_guest_interruptability_state 8
                 (set_info (\<lambda>i. i\<lparr>Previous_Interuptability_State := vmread s vm_guest_interruptability_state\<rparr>) s);
          s2 = set_info (\<lambda>i. i\<lparr>Previous_CLI := of_bool (bit (vmread s1 vm_guest_rflags) 9)\<rparr>) s1
      in Some (Next (set_rax 0
           (vmwrite vm_guest_rflags (vmread s2 vm_guest_rflags AND 0xFFFFFFFFFFFFFDFF) s2))))"

definition vmcall_restore_interrupts :: command where
  "vmcall_restore_interrupts w s =
     (let s1 = vmwrite vm_guest_interruptability_state (Previous_Interuptability_State (info (cpu s))) s
      in Some (Next (set_rax 0 (vmwrite vm_guest_rflags
           ((vmread s1 vm_guest_rflags AND 0xFFFFFFFFFFFFFDFF)
            OR push_bit 9 (of_int (Previous_CLI (info (cpu s1))))) s1))))"

definition getpid :: "machine \<Rightarrow> ULONG option" where
  "getpid s = do {
     p1 \<leftarrow> getPhysicalAddressVM s (ucast (ucast (vmread s vm_guest_fs_base) + 0x124 :: ULONG));
     case p1 of
       None \<Rightarrow> do {
         p2 \<leftarrow> getPhysicalAddressVM s (ucast (rd32 (mem s) 0 + 0x1ec));
         (case p2 of None \<Rightarrow> Some 0 | Some p \<Rightarrow> Some (rd32 (mem s) p)) }
     | Some _ \<Rightarrow> Some 0 }"

section \<open>The CR3 edit callback\<close>

definition vmcall_register_callback :: command where
  "vmcall_register_callback w s = do {
     conv \<leftarrow> req_dword s w 3;
     rip \<leftarrow> req_qword s w 4;
     cs \<leftarrow> req_dword s w 6;
     rsp \<leftarrow> req_qword s w 7;
     ss \<leftarrow> req_dword s w 9;
     (let s1 = set_info (\<lambda>i. i\<lparr>callback := (callback i)\<lparr>calling_convention := sint conv, callback_rip := rip,
            callback_cs := ucast cs, callback_rsp := rsp, callback_ss := ucast ss\<rparr>\<rparr>) s
      in Some (Next (s1\<lparr>cpu := (cpu s1)\<lparr>cr3_change_callback := 1\<rparr>\<rparr>))) }"

text \<open>
  The VMCS fields written back, in the order of the code. The members for segments are
  \<^verbatim>\<open>ULONG\<close>, the others 64 bits wide.
\<close>

definition callback_fields :: "nat list" where
  "callback_fields =
     map (\<lambda>i. 0x800 + 2 * i) [0..<6] @ map (\<lambda>i. 0x4800 + 2 * i) [0..<6]
     @ map (\<lambda>i. 0x6806 + 2 * i) [0..<6] @ map (\<lambda>i. 0x4814 + 2 * i) [0..<6]"

definition returnFromCR3Callback :: "UINT64 \<Rightarrow> machine \<Rightarrow> machine" where
  "returnFromCR3Callback newcr3 s =
     (let cb = callback (info (cpu s));
          s1 = s\<lparr>regs := saved_regs cb\<rparr>;
          s2 = fold (\<lambda>f. vmwrite f (take_bit 32 (saved_field cb f))) callback_fields s1;
          s3 = fold (\<lambda>f. vmwrite f (saved_field cb f))
                 [vm_guest_rsp, vm_guest_rip, vm_guest_rflags, vm_guest_interruptability_state] s2;
          s4 = vmwrite vm_guest_cr3 newcr3 s3;
          c = (cpu s4)\<lparr>callback_newcr3 := newcr3,
                 callback_changedcr3 := (if newcr3 \<noteq> guestCR3 (cpu s4) then 1 else 0)\<rparr>
      in set_info (\<lambda>i. i\<lparr>callback := (callback i)\<lparr>called_callback := 0\<rparr>\<rparr>) (s4\<lparr>cpu := c\<rparr>))"

definition vmcall_return_callback :: command where
  "vmcall_return_callback w s = do {
     newcr3 \<leftarrow> req_qword s w 3;
     if isAMD s then Some (Next (set_rax 0xcedead s))
     else Some (Stop (returnFromCR3Callback newcr3 s)) }"

section \<open>Ultimap\<close>

definition ultimap_debugoutput :: "window \<Rightarrow> machine \<Rightarrow> machine option" where
  "ultimap_debugoutput w s =
     (let u = ultimap (cpu s);
          out = [of_int (um_Active u), um_CR3 u, um_DEBUGCTL u, um_DS_AREA u, um_OriginalDebugCTL u,
                 um_OriginalDS_AREA u, um_CR3_switchcount u, um_CR3_switchcount2 u, um_LastOldCR3 u,
                 um_LastNewCR3 u, ucast (cpunr (info (cpu s)))]
      in map_option (\<lambda>m. s\<lparr>mem := m\<rparr>) (win_write (mem s) w 12 (concat (map (le_bytes 8) out))))"

definition vmcall_ultimap :: command where
  "vmcall_ultimap w s = do {
     CR3 \<leftarrow> req_qword s w 3;
     DEBUGCTL \<leftarrow> req_qword s w 5;
     DS_AREA \<leftarrow> req_qword s w 7;
     Some (Next (set_rax 0 (ultimap_setup CR3 DEBUGCTL DS_AREA s))) }"


section \<open>The commands\<close>

definition guest_control :: "(cpuinfo \<Rightarrow> UINT64) \<Rightarrow> nat \<Rightarrow> command" where
  "guest_control get field w s =
     Some (Next (set_rax (if isAMD s then get (cpu s) else vmread s field) s))"

definition vmcall_change_password :: command where
  "vmcall_change_password w s = do {
     p1 \<leftarrow> req_dword s w 3;
     p2 \<leftarrow> req_dword s w 4;
     Some (Next (set_rax 0 (set_globals (\<lambda>g. g\<lparr>Password1 := p1, Password2 := p2\<rparr>) s))) }"

definition vmcall_memory_cloak :: command where
  "vmcall_memory_cloak w s =
     (if memorycloak s then Some (Next s) else Some (Next (set_rax 1 (s\<lparr>memorycloak := True\<rparr>))))"

definition vmcall_change_selectors :: command where
  "vmcall_change_selectors w s = do {
     cs \<leftarrow> req_dword s w 3;
     ss \<leftarrow> req_dword s w 4;
     ds \<leftarrow> req_dword s w 5;
     es \<leftarrow> req_dword s w 6;
     fs \<leftarrow> req_dword s w 7;
     gs \<leftarrow> req_dword s w 8;
     s1 \<leftarrow> change_selectors cs ss ds es fs gs s;
     Some (Next (set_rax 0 s1)) }"

definition vmcall_readmsr :: command where
  "vmcall_readmsr w s = do {
     m \<leftarrow> req_dword s w 3;
     (let (v, s1) = readMSRSafe m s in do {
        mm \<leftarrow> win_write (mem s1) w 16 (le_bytes 8 v);
        r \<leftarrow> req_qword (s1\<lparr>mem := mm\<rparr>) w 4;
        Some (Next (set_rax r (s1\<lparr>mem := mm\<rparr>))) }) }"

definition vmcall_writemsr :: command where
  "vmcall_writemsr w s = do {
     m \<leftarrow> req_dword s w 3;
     v \<leftarrow> req_qword s w 4;
     s1 \<leftarrow> wrmsr m v s;
     Some (Next s1) }"

definition vmcall_kernelmode :: "WORD \<Rightarrow> command" where
  "vmcall_kernelmode junk w s = do {
     cs \<leftarrow> req_dword s w 3;
     rip \<leftarrow> req_qword s w 4;
     parameters \<leftarrow> req_qword s w 6;
     (let s1 = vmwrite vm_guest_rip (vmread s vm_guest_rip + vmread s vm_exit_instructionlength) s in do {
        (r, s2) \<leftarrow> emulateExceptionInterrupt junk cs rip True parameters True s1;
        Some (Stop (set_rax 0 s2)) }) }"

definition redirected :: "(event_info \<Rightarrow> int) \<Rightarrow> (event_info \<Rightarrow> event_info) \<Rightarrow> command" where
  "redirected get clear w s = Some (Next (set_info clear (set_rax (of_int (get (info (cpu s)))) s)))"

text \<open>
  \<^verbatim>\<open>switch (vmcall_instruction[2])\<close>; \<open>junk\<close> is the uninitialised part of a variable of
  \<^verbatim>\<open>getSegmentAttrib\<close>.
\<close>

definition vmcall_command :: "WORD \<Rightarrow> nat \<Rightarrow> command" where
  "vmcall_command junk n w s =
     (if n = 0 then Some (Next (set_rax (ucast (0xce000000 + dbvmversion (globals s))) s))
      else if n = 1 then vmcall_change_password w s
      else if n = 2 then intel_only vmcall_memory_cloak w s
      else if n = 3 then vmcall_physical False w s
      else if n = 4 then vmcall_physical True w s
      else if n = 5 then intel_only vmcall_fake_sysenter w s
      else if n = 6 then intel_only vmcall_get_sysenter w s
      else if n = 7 then intel_only vmcall_set_sysenter w s
      else if n = 9 then vmcall_redirect 1 redirect1 (\<lambda>r g. g\<lparr>redirect1 := r\<rparr>) w s
      else if n = 10 then redirected int1happened (\<lambda>i. i\<lparr>int1happened := 0\<rparr>) w s
      else if n = 12 then intel_only vmcall_change_selectors w s
      else if n = 13 then intel_only vmcall_block_interrupts w s
      else if n = 14 then intel_only vmcall_restore_interrupts w s
      else if n = 15 then intel_only (\<lambda>w s. map_option (\<lambda>p. Next (set_rax (scast p) s)) (getpid s)) w s
      else if n = 16 then intel_only vmcall_register_callback w s
      else if n = 17 then vmcall_return_callback w s
      else if n = 18 then guest_control vmcb_CR0 vm_guest_cr0 w s
      else if n = 19 then guest_control vmcb_CR3 vm_guest_cr3 w s
      else if n = 20 then guest_control vmcb_CR4 vm_guest_cr4 w s
      else if n = 21 then
        intel_only (\<lambda>w s. let (r, s1) = raisePrivilege s in Some (Next (set_rax (of_int r) s1))) w s
      else if n = 22 then vmcall_redirect 14 redirect14 (\<lambda>r g. g\<lparr>redirect14 := r\<rparr>) w s
      else if n = 23 then redirected int14happened (\<lambda>i. i\<lparr>int14happened := 0\<rparr>) w s
      else if n = 24 then vmcall_redirect 3 redirect3 (\<lambda>r g. g\<lparr>redirect3 := r\<rparr>) w s
      else if n = 25 then redirected (\<lambda>_. 0) (\<lambda>i. i\<lparr>int3happened := 0\<rparr>) w s
      else if n = 26 then vmcall_readmsr w s
      else if n = 27 then vmcall_writemsr w s
      else if n = 28 then intel_only vmcall_ultimap w s
      else if n = 29 then intel_only (\<lambda>w s. Some (Next (set_rax 0 (ultimap_disable s)))) w s
      else if n = 30 then intel_only (vmcall_kernelmode junk) w s
      else if n = 31 then intel_only (\<lambda>w s. Some (Next (set_rax 0
        (set_info (\<lambda>i. i\<lparr>IgnorePageFaults_Active := 1, LastIgnoredPageFault := 0\<rparr>) s)))) w s
      else if n = 32 then intel_only (\<lambda>w s. Some (Next (set_rax 0
        (set_info (\<lambda>i. i\<lparr>IgnorePageFaults_Active := 0\<rparr>) s)))) w s
      else if n = 33 then intel_only (\<lambda>w s. Some (Next
        (set_info (\<lambda>i. i\<lparr>LastIgnoredPageFault := 0\<rparr>) (set_rax (LastIgnoredPageFault (info (cpu s))) s)))) w s
      else if n = 34 then intel_only (\<lambda>w s. Some (Next (set_rax 0 (ultimap_pause s)))) w s
      else if n = 35 then intel_only (\<lambda>w s. Some (Next (set_rax 0 (ultimap_resume s)))) w s
      else if n = 36 then
        intel_only (\<lambda>w s. map_option (\<lambda>s1. Next (set_rax 0 s1)) (ultimap_debugoutput w s)) w s
      else if n = 37 then intel_only (\<lambda>w s. Some (Next s)) w s
      else Some (Next (set_rax 0xcedead s)))"

definition vmcall_finish :: "machine \<Rightarrow> machine" where
  "vmcall_finish s =
     (if isAMD s then set_vmcb (\<lambda>b. b\<lparr>vmcb_RAX := rax (regs s), vmcb_RIP := vmcb_RIP b + 3\<rparr>) s
      else vmwrite vm_guest_rip (vmread s vm_guest_rip + vmread s vm_exit_instructionlength) s)"

section \<open>The handler\<close>

definition outcome_state :: "outcome \<Rightarrow> machine" where
  "outcome_state r = (case r of Next t \<Rightarrow> vmcall_finish t | Stop t \<Rightarrow> t)"

definition map_failed :: "int \<Rightarrow> UINT64 \<Rightarrow> machine \<Rightarrow> machine" where
  "map_failed error pagefaultaddress s =
     (if error = 2 then raisePagefault pagefaultaddress s else raiseInvalidOpcodeException s)"

definition handleVMCall_inner :: "WORD \<Rightarrow> machine \<Rightarrow> machine option" where
  "handleVMCall_inner junk s0 =
     (let s = (if isAMD s0 then set_rax (vmcb_RAX (amd s0)) s0 else s0) in
      if ucast (rdx (regs s)) \<noteq> Password1 (globals s) then Some (raiseInvalidOpcodeException s)
      else do {
        (e1, pf1, w1, s1) \<leftarrow> mapVMmemory s (rax (regs s)) 12;
        if e1 \<noteq> 0 then Some (map_failed e1 pf1 s1)
        else do {
          size \<leftarrow> req_dword s1 w1 0;
          pass2 \<leftarrow> req_dword s1 w1 1;
          if size < 12 \<or> pass2 \<noteq> Password2 (globals s1) then Some (raiseInvalidOpcodeException s1)
          else do {
            (e2, pf2, w2, s2) \<leftarrow> (if size > 12 then mapVMmemory s1 (rax (regs s1)) (sint size)
                                  else Some (e1, pf1, w1, s1));
            if e2 \<noteq> 0 then Some (map_failed e2 pf2 s2)
            else do {
              n \<leftarrow> req_dword s2 w2 2;
              r \<leftarrow> vmcall_command junk (unat n) w2 s2;
              Some (outcome_state r) }}}})"

text \<open>
  \<^verbatim>\<open>handleVMCall\<close> runs it inside \<^verbatim>\<open>vmcallCS\<close>; \<open>c\<close> is the CPU. \<open>None\<close> also when
  another CPU holds the lock and the call spins.
\<close>

definition handleVMCall :: "WORD \<Rightarrow> nat \<Rightarrow> criticalSection \<Rightarrow> machine \<Rightarrow> (criticalSection \<times> machine) option" where
  "handleVMCall junk c vmcallCS s = do {
     CS1 \<leftarrow> csEnter c vmcallCS;
     s1 \<leftarrow> handleVMCall_inner junk s;
     Some (csLeave c CS1, s1) }"

end
