(* ===== verification/VM_Call_Access.thy ===== *)
theory VM_Call_Access
  imports VM_Call
begin

text \<open>
  Who may use the vmcall interface: without both passwords a call changes nothing of the guest
  or the hypervisor but the exception that is raised in the guest.
\<close>

unbundle bit_operations_syntax

section \<open>The request as the guest sees it\<close>

definition guest_dword :: "machine \<Rightarrow> UINT64 \<Rightarrow> ULONG option" where
  "guest_dword s a = map_option le_word (those (map (\<lambda>j. guest_byte s (a + of_nat j)) [0..<4]))"

text \<open>A range that ends in the last page of the address space is never mapped.\<close>

lemma map_pages_last_page:
  assumes "18446744073709547520 < unat lst" "take_bit 12 cur = 0"
  shows "map_pages n s cur lst fs \<noteq> Some (None, fs')"
  using assms(2)
proof (induction n arbitrary: cur fs)
  case (Suc n)
  have "unat cur mod 4096 = 0" using Suc.prems unat_take_bit_12 [of cur] by simp
  then obtain q where q: "unat cur = 4096 * q" by auto
  have "unat cur < 18446744073709551616" by (rule unat_less_64)
  then have "q < 4503599627370496" unfolding q by simp
  then have "unat cur \<le> 18446744073709547520" unfolding q by simp
  then have "cur < lst" using assms(1) by (simp add: word_less_nat_alt)
  moreover have "take_bit 12 (cur + 4096) = 0"
    using Suc.prems by (rule aligned_add) (simp add: take_bit_eq_mod)
  ultimately show ?case using Suc.IH
    by (auto split: option.splits simp del: map_pages.simps simp: map_pages.simps(2) [of n s cur])
qed simp

lemma request_byte:
  assumes ok: "mapVMmemory s a 12 = Some (0, pf, w, s1)" and "k < 12" "win_pa w k = Some p"
  shows "getPhysicalAddressVM s (a + of_nat k) = Some (Some p)"
proof (cases "unat a + 12 \<le> 18446744073709547520")
  case True
  then show ?thesis using mapVMmemory_translates [OF ok, of k] assms(2,3) by simp
next
  case False
  obtain fs where w: "w = Mapped (unat a mod 4096) fs"
    and mp: "map_pages 514 s1 (page_base a) (a + of_int 12) [] = Some (None, fs)"
    using ok by (rule mapVMmemory_ok_cases)
  have small: "\<not> 18446744073709547520 < unat (a + 12)"
    using mp map_pages_last_page [of "a + 12" "page_base a"] by auto
  have "unat (a + 12) = (unat a + 12) mod 18446744073709551616" by (simp add: unat_word_ariths)
  then have "unat (a + 12) < 12"
    using small False unat_less_64 [of a] by (cases "unat a + 12 < 18446744073709551616") (auto simp: le_mod_geq)
  moreover have "18446744073709551604 - 4096 \<le> unat (page_base a)"
  proof -
    have "18446744073709551604 \<le> unat a"
      using small False unat_less_64 [of a] \<open>unat (a + 12) = _\<close>
      by (cases "unat a + 12 < 18446744073709551616") auto
    moreover have "unat a = 4096 * (unat a div 4096) + unat a mod 4096" by simp
    moreover have "unat a mod 4096 < 4096" by simp
    ultimately show ?thesis unfolding unat_page_base by linarith
  qed
  ultimately have "\<not> page_base a < a + 12" by (simp add: word_less_nat_alt)
  then have "fs = []" using mp map_pages.simps(2) [of 513 s1 "page_base a" "a + 12" "[]"]
    by (simp del: map_pages.simps)
  then show ?thesis using assms(3) w by (simp add: Let_def)
qed

lemma req_dword_guest:
  assumes ok: "mapVMmemory s a 12 = Some (0, pf, w, s1)" and k: "k < 3"
    and r: "req_dword s1 w k = Some v"
  shows "guest_dword s (a + of_nat (4 * k)) = Some v"
proof -
  obtain bs where bs: "map (\<lambda>j. map_option (mem s1) (win_pa w (4 * k + j))) [0..<4] = map Some bs"
    and v: "v = le_word bs"
    using r by (auto simp: req_dword_def win_read_def those_eq_Some simp del: upt_4_8)
  have len: "length bs = 4" using arg_cong [OF bs, of length] by simp
  have "map (\<lambda>j. guest_byte s (a + of_nat (4 * k) + of_nat j)) [0..<4] = map Some bs"
  proof (rule nth_equalityI)
    fix j assume "j < length (map (\<lambda>j. guest_byte s (a + of_nat (4 * k) + of_nat j)) [0..<4])"
    then have j: "j < 4" by simp
    have "map_option (mem s1) (win_pa w (4 * k + j)) = Some (bs ! j)"
      using arg_cong [OF bs, of "\<lambda>l. l ! j"] j len by (simp del: upt_4_8)
    then obtain p where p: "win_pa w (4 * k + j) = Some p" "mem s1 p = bs ! j" by blast
    have "4 * k + j < 12" using j k by linarith
    from request_byte [OF ok this p(1)]
    show "map (\<lambda>j. guest_byte s (a + of_nat (4 * k) + of_nat j)) [0..<4] ! j = map Some bs ! j"
      using j len p(2) by (simp add: guest_byte_def add.assoc mapVMmemory_state(2) [OF ok] del: upt_4_8)
  qed (simp add: len)
  then show ?thesis by (simp add: guest_dword_def v those_eq_Some del: upt_4_8)
qed

section \<open>What an exception changes\<close>

text \<open>
  \<open>erase\<close> forgets what raising an exception and mapping guest memory may change: the fields
  that describe the exception, CR2 and the position in the virtual TLB. Two states with the
  same image agree on everything else.
\<close>

definition erase_vmcb :: "vmcb \<Rightarrow> vmcb" where
  "erase_vmcb b = b\<lparr>vmcb_CR2 := 0, inject_Vector := 0, inject_Type := 0, inject_EV := False,
     inject_Valid := False, inject_ERRORCODE := 0, VMCB_CLEAN_BITS := 0\<rparr>"

definition erase_vmcs :: "(nat \<Rightarrow> UINT64) \<Rightarrow> nat \<Rightarrow> UINT64" where
  "erase_vmcs c f = (if f \<in> entry_fields then 0 else c f)"

definition erase :: "machine \<Rightarrow> machine" where
  "erase s = s\<lparr>vmcs := erase_vmcs (vmcs s),
     cpu := (cpu s)\<lparr>virtualTLB_FreeSpot := 0, virtualTLB_whiped := 0,
       info := (info (cpu s))\<lparr>vmcb := erase_vmcb (vmcb (info (cpu s)))\<rparr>\<rparr>,
     host := (host s)\<lparr>hostCR2 := 0\<rparr>\<rparr>"

lemma erase_map:
  assumes "mapVMmemory s a n = Some (e, pf, w, s1)"
  shows "erase s1 = erase s" "globals s1 = globals s"
  using assms by (auto simp: mapVMmemory_def Let_def erase_def split: if_splits option.splits)

lemma erase_vmwrite: "f \<in> entry_fields \<Longrightarrow> erase (vmwrite f v s) = erase s"
proof -
  assume "f \<in> entry_fields"
  then have "erase_vmcs ((vmcs s)(f := v)) = erase_vmcs (vmcs s)" for v
    by (auto simp: erase_vmcs_def)
  then show ?thesis by (simp add: erase_def vmwrite_def)
qed

lemma erase_inject: "erase (inject_entry i e s) = erase s"
  unfolding inject_entry_def Let_def by (simp add: erase_vmwrite entry_fields_def)

lemma erase_raise: "erase (raiseInvalidOpcodeException s) = erase s" "erase (raisePagefault a s) = erase s"
proof -
  show "erase (raiseInvalidOpcodeException s) = erase s"
    by (simp add: raiseInvalidOpcodeException_def erase_inject) (simp add: set_vmcb_def erase_def erase_vmcb_def)
  have "erase (t\<lparr>host := (host s)\<lparr>hostCR2 := a\<rparr>\<rparr>) = erase t" if "host t = host s" for t
    using that by (simp add: erase_def)
  then show "erase (raisePagefault a s) = erase s"
    by (simp add: raisePagefault_def Let_def erase_inject) (simp add: set_vmcb_def erase_def erase_vmcb_def)
qed

lemma erase_map_failed: "erase (map_failed e pf s) = erase s"
  by (simp add: map_failed_def erase_raise)

lemma pending_inject:
  assumes "\<not> isAMD s"
  shows "pending_exception (inject_entry (entry_interruption v ty err True) x s)
    = Some (unat (take_bit 8 v), unat (take_bit 3 ty), if err then Some (take_bit 32 x) else None)"
proof -
  have "unat (take_bit 8 (ucast w :: UINT64)) = unat (take_bit 8 w)"
    "unat (take_bit 3 (drop_bit 8 (ucast w :: UINT64))) = unat (take_bit 3 (drop_bit 8 w))" for w :: ULONG
    by (simp_all add: unat_low unat_shr unat_ucast32)
  then show ?thesis using assms
    by (simp add: pending_exception_def inject_entry_read entry_interruption_bits bit_simps Let_def)
qed

lemma pending_raise:
  "pending_exception (raiseInvalidOpcodeException s) = Some (6, 3, None)"
  "pending_exception (raisePagefault a s) = Some (14, 3, Some (if guest_cpl3 s then 4 else 0))"
proof -
  note e = pending_inject
  show "pending_exception (raiseInvalidOpcodeException s) = Some (6, 3, None)"
    by (simp add: raiseInvalidOpcodeException_def e take_bit_eq_mod)
      (simp add: pending_exception_def set_vmcb_def Let_def)
  have h: "pending_exception (t\<lparr>host := h\<rparr>) = pending_exception t" for t h
    by (simp add: pending_exception_def Let_def cong: if_cong)
  show "pending_exception (raisePagefault a s) = Some (14, 3, Some (if guest_cpl3 s then 4 else 0))"
    by (simp add: raisePagefault_def Let_def h e take_bit_eq_mod)
      (simp add: pending_exception_def set_vmcb_def Let_def)
qed

section \<open>Passwords\<close>

definition request_addr :: "machine \<Rightarrow> UINT64" where
  "request_addr s = (if isAMD s then vmcb_RAX (amd s) else rax (regs s))"

definition knows_passwords :: "machine \<Rightarrow> bool" where
  "knows_passwords s \<longleftrightarrow> ucast (rdx (regs s)) = Password1 (globals s)
     \<and> guest_dword s (request_addr s + 4) = Some (Password2 (globals s))"

definition load_rax :: "machine \<Rightarrow> machine" where
  "load_rax s = (if isAMD s then set_rax (vmcb_RAX (amd s)) s else s)"

lemma load_rax_simps:
  "rax (regs (load_rax s)) = request_addr s" "rdx (regs (load_rax s)) = rdx (regs s)"
  "globals (load_rax s) = globals s" "isAMD (load_rax s) = isAMD s"
  "guest_dword (load_rax s) a = guest_dword s a"
proof -
  show "rax (regs (load_rax s)) = request_addr s" "rdx (regs (load_rax s)) = rdx (regs s)"
    "globals (load_rax s) = globals s" "isAMD (load_rax s) = isAMD s"
    by (simp_all add: load_rax_def set_rax_def request_addr_def)
  have "getPhysicalAddressVM (load_rax s) = getPhysicalAddressVM s"
    by (intro getPhysicalAddressVM_cong) (simp_all add: load_rax_def set_rax_def)
  moreover have "mem (load_rax s) = mem s" by (simp add: load_rax_def set_rax_def)
  ultimately have "guest_byte (load_rax s) = guest_byte s"
    by (intro ext) (simp add: guest_byte_def cong: option.case_cong)
  then show "guest_dword (load_rax s) a = guest_dword s a" by (simp only: guest_dword_def)
qed

text \<open>
  C3: the passwords. A vmcall by a guest that does not present both of them, the first in
  EDX, the second in its request structure, leaves all of the machine as it was, guest
  registers, memory, VMCS, MSRs, hypervisor globals and all, except for an invalid opcode or a
  page fault exception that is now pending.
\<close>

theorem vmcall_needs_passwords:
  assumes "\<not> knows_passwords s" "handleVMCall_inner junk s = Some t"
  shows "erase t = erase (load_rax s)
    \<and> (\<exists>e. pending_exception t = Some (6, 3, None) \<or> pending_exception t = Some (14, 3, Some e))"
proof -
  let ?s = "load_rax s"
  have inner: "(if ucast (rdx (regs ?s)) \<noteq> Password1 (globals ?s) then Some (raiseInvalidOpcodeException ?s)
      else do {
        (e1, pf1, w1, s1) \<leftarrow> mapVMmemory ?s (rax (regs ?s)) 12;
        if e1 \<noteq> 0 then Some (map_failed e1 pf1 s1)
        else do {
          size \<leftarrow> req_dword s1 w1 0;
          pass2 \<leftarrow> req_dword s1 w1 1;
          if size < 12 \<or> pass2 \<noteq> Password2 (globals s1) then Some (raiseInvalidOpcodeException s1)
          else do {
            (e2, pf2, w2, s2) \<leftarrow> (if size > 12 then mapVMmemory s1 (rax (regs s1)) (sint size)
                                  else Some (e1, pf1, w1, s1));
            if e2 \<noteq> 0 then Some (map_failed e2 pf2 s2)
            else do {
              n \<leftarrow> req_dword s2 w2 2;
              r \<leftarrow> vmcall_command junk (unat n) w2 s2;
              Some (outcome_state r) }}}}) = Some t"
    using assms(2) unfolding handleVMCall_inner_def load_rax_def Let_def .
  have "(\<exists>s1. erase s1 = erase ?s \<and> t = raiseInvalidOpcodeException s1)
      \<or> (\<exists>s1 e pf. erase s1 = erase ?s \<and> t = map_failed e pf s1)"
  proof (cases "ucast (rdx (regs ?s)) = Password1 (globals ?s)")
    case True
    obtain e1 pf1 w1 s1 where m: "mapVMmemory ?s (rax (regs ?s)) 12 = Some (e1, pf1, w1, s1)"
      using inner True by (auto simp: bind_Some_iff)
    note e = erase_map [OF m]
    show ?thesis
    proof (cases "e1 = 0")
      case False
      then show ?thesis using inner True m e(1) by auto
    next
      case e0: True
      then obtain size pass2 where r: "req_dword s1 w1 0 = Some size" "req_dword s1 w1 1 = Some pass2"
        using inner True m by (auto simp: bind_Some_iff)
      have "guest_dword s (request_addr s + 4) = Some pass2"
        using req_dword_guest [OF m [unfolded e0] _ r(2)] by (simp add: load_rax_simps)
      then have "pass2 \<noteq> Password2 (globals s1)"
        using assms(1) True e(2) by (auto simp: knows_passwords_def load_rax_simps)
      then show ?thesis using inner True m e0 r e(1) by auto
    qed
  qed (use inner in auto)
  then show ?thesis
    by (auto simp: erase_raise erase_map_failed map_failed_def pending_raise)
qed

theorem vmcall_needs_passwords_witness:
  "erase (raiseInvalidOpcodeException sample) = erase (load_rax sample)
    \<and> handleVMCall_inner 0 sample = Some (raiseInvalidOpcodeException sample)"
proof -
  have h: "handleVMCall_inner 0 sample = Some (raiseInvalidOpcodeException sample)"
    by (simp add: handleVMCall_inner_def sample_def sample_globals_def)
  have "\<not> knows_passwords sample" by (simp add: knows_passwords_def sample_def sample_globals_def)
  from vmcall_needs_passwords [OF this h] h show ?thesis by simp
qed

section \<open>A request that is accepted\<close>

lemma req_dword_mapped:
  assumes ok: "mapVMmemory s a (int n) = Some (0, pf, w, s1)" and "guest_mapped s a n" "n \<le> 0x1ff000"
    and k: "4 * k + 4 \<le> n"
  shows "req_dword s1 w k = guest_dword s (a + of_nat (4 * k))"
proof -
  have "map_option (mem s1) (win_pa w (4 * k + j)) = guest_byte s (a + of_nat (4 * k) + of_nat j)"
    if "j < 4" for j
    using mapVMmemory_bytes(1) [OF ok assms(2,3), of "4 * k + j"] that k
    by (simp add: guest_byte_def mapVMmemory_state(2) [OF ok] add.assoc split: option.split)
  then have "map (\<lambda>j. map_option (mem s1) (win_pa w (4 * k + j))) [0..<4]
      = map (\<lambda>j. guest_byte s (a + of_nat (4 * k) + of_nat j)) [0..<4]"
    by (intro map_cong refl) (simp del: upt_4_8)
  then show ?thesis unfolding req_dword_def guest_dword_def win_read_def by (simp only:)
qed

lemma bind_Some_map: "x \<bind> (\<lambda>c. y c \<bind> (\<lambda>r. Some (f r))) = map_option f (x \<bind> y)"
  by (cases x) (simp_all add: map_conv_bind_option comp_def)

lemma mapped_prefix: "guest_mapped s a n \<Longrightarrow> m \<le> n \<Longrightarrow> guest_mapped s a m"
  by (auto simp: guest_mapped_def)

lemma map_keeps:
  assumes "mapVMmemory s a n = Some (e, pf, w, s1)"
  shows "tlb_ready s1 = tlb_ready s" "guest_mapped s1 = guest_mapped s" "guest_dword s1 = guest_dword s"
proof -
  have "virtualTLB (cpu s1) = virtualTLB (cpu s)" "virtualTLB_Max (cpu s1) = virtualTLB_Max (cpu s)"
    using assms by (auto simp: mapVMmemory_def Let_def split: if_splits option.splits)
  then show "tlb_ready s1 = tlb_ready s" by (simp add: tlb_ready_def)
  show "guest_mapped s1 = guest_mapped s"
    by (intro ext) (simp add: guest_mapped_def mapVMmemory_state(1) [OF assms])
  have "guest_byte s1 = guest_byte s"
    by (intro ext) (simp add: guest_byte_def mapVMmemory_state(1,2) [OF assms] cong: option.case_cong)
  then show "guest_dword s1 = guest_dword s" by (intro ext) (simp only: guest_dword_def)
qed

text \<open>
  C24: a request with both passwords is carried out. For a request structure of \<open>n\<close> bytes
  (at least 12, under 2 MB less a page) that is paged in, the handler executes the command
  the third doubleword names, on a state that differs from the caller's in the virtual TLB
  only, with a window that shows every doubleword of the structure as the guest sees it.
\<close>

theorem vmcall_dispatches:
  assumes "\<not> isAMD s" "knows_passwords s" "tlb_ready s" "guest_mapped s (rax (regs s)) n"
    and n: "12 \<le> n" "n \<le> 0x1ff000" and size: "guest_dword s (rax (regs s)) = Some (of_nat n)"
  shows "\<exists>w s2. handleVMCall_inner junk s
      = map_option outcome_state (do { c \<leftarrow> guest_dword s (rax (regs s) + 8); vmcall_command junk (unat c) w s2 })
    \<and> erase s2 = erase s
    \<and> (\<forall>k. 4 * k + 4 \<le> n \<longrightarrow> req_dword s2 w k = guest_dword s (rax (regs s) + of_nat (4 * k)))"
proof -
  let ?a = "rax (regs s)"
  have p: "ucast (rdx (regs s)) = Password1 (globals s)" "guest_dword s (?a + 4) = Some (Password2 (globals s))"
    using assms(1,2) by (simp_all add: knows_passwords_def request_addr_def)
  have sn: "sint (of_nat n :: ULONG) = int n"
    using n(2) by (simp add: signed_of_nat signed_take_bit_int_eq_self)
  have un: "unat (of_nat n :: ULONG) = n"
    using n(2) by (simp add: unat_of_nat)
  obtain w1 s1 where m1: "mapVMmemory s ?a (int 12) = Some (0, 0, w1, s1)"
    using mapVMmemory_total [OF assms(3) mapped_prefix [OF assms(4) n(1)]] by auto
  have r1: "req_dword s1 w1 k = guest_dword s (?a + of_nat (4 * k))" if "4 * k + 4 \<le> 12" for k
    using req_dword_mapped [OF m1 mapped_prefix [OF assms(4) n(1)] _ that] by simp
  note e1 = erase_map [OF m1] map_keeps [OF m1] mapVMmemory_state(4) [OF m1]
  have h1: "handleVMCall_inner junk s = do {
      (e2, pf2, w2, s2) \<leftarrow> (if 12 < n then mapVMmemory s1 ?a (int n) else Some (0, 0, w1, s1));
      if e2 \<noteq> 0 then Some (map_failed e2 pf2 s2)
      else do { c \<leftarrow> req_dword s2 w2 2; r \<leftarrow> vmcall_command junk (unat c) w2 s2;
                Some (outcome_state r) } }"
  proof -
    have "(12 :: ULONG) < of_nat n \<longleftrightarrow> 12 < n" "\<not> of_nat n < (12 :: ULONG)"
      using n(1) un by (simp_all add: word_less_nat_alt)
    then show ?thesis
      using assms(1) p m1 r1 [of 0] r1 [of 1] e1 size sn
      by (simp add: handleVMCall_inner_def)
  qed
  show ?thesis
  proof (cases "12 < n")
    case True
    obtain w2 s2 where m2: "mapVMmemory s1 ?a (int n) = Some (0, 0, w2, s2)"
      using mapVMmemory_total [of s1 ?a n] assms(3,4) n e1 by auto
    have r2: "req_dword s2 w2 k = guest_dword s (?a + of_nat (4 * k))" if "4 * k + 4 \<le> n" for k
      using req_dword_mapped [OF m2 _ n(2) that] assms(4) e1 by simp
    have "erase s2 = erase s" using erase_map(1) [OF m2] e1 by simp
    then show ?thesis
      using h1 True m2 r2 [of 2] r2 n
      by (intro exI [of _ w2] exI [of _ s2]) (simp add: bind_Some_map)
  next
    case False
    then show ?thesis
      using h1 r1 [of 2] r1 n e1
      by (intro exI [of _ w1] exI [of _ s1]) (simp add: bind_Some_map)
  qed
qed


text \<open>A guest that asks for the version, with its request at \<open>0x5000\<close>.\<close>

definition sample_request :: machine where
  "sample_request = sample\<lparr>mem := sample_mem(0x5000 := 12, 0x5004 := 0x98, 0x5005 := 0xba,
       0x5006 := 0xdc, 0x5007 := 0xfe),
     regs := (regs sample)\<lparr>rax := 0x5000, rdx := 0x76543210\<rparr>\<rparr>"

lemma sample_request_translate:
  "a < 0x400000 \<Longrightarrow> getPhysicalAddressVM sample_request a = Some (Some a)"
  by (rule sample_translate) (simp_all add: sample_request_def sample_def sample_mem_def)

lemma sample_request_dwords:
  "guest_dword sample_request 0x5000 = Some 12" "guest_dword sample_request 0x5004 = Some 0xfedcba98"
  "guest_dword sample_request 0x5008 = Some 0"
  by (simp_all add: guest_dword_def guest_byte_def sample_request_translate)
    (simp_all add: sample_request_def sample_mem_def)

theorem vmcall_dispatches_witness:
  "\<exists>t. handleVMCall_inner 0 sample_request = Some t \<and> rax (regs t) = 0xce000009"
proof -
  have r: "rax (regs sample_request) = 0x5000" "\<not> isAMD sample_request"
    "rdx (regs sample_request) = 0x76543210" "globals sample_request = sample_globals"
    by (simp_all add: sample_request_def sample_def)
  have "knows_passwords sample_request"
    using r sample_request_dwords(2)
    by (simp add: knows_passwords_def request_addr_def sample_globals_def)
  moreover have "tlb_ready sample_request" by (simp add: tlb_ready_def sample_request_def sample_def)
  moreover have "guest_mapped sample_request 0x5000 12"
    using low_add [of "0x5000" 12] sample_request_translate by (auto simp: guest_mapped_def)
  ultimately obtain w s2 where
    h: "handleVMCall_inner 0 sample_request
      = map_option outcome_state (do { c \<leftarrow> guest_dword sample_request 0x5008; vmcall_command 0 (unat c) w s2 })"
    and e: "erase s2 = erase sample_request"
    using vmcall_dispatches [of sample_request 12 0] r sample_request_dwords(1) by auto
  have "globals s2 = globals (erase s2)" by (simp add: erase_def)
  also have "\<dots> = sample_globals" using r(4) by (simp add: e) (simp add: erase_def)
  finally have "globals s2 = sample_globals" .
  then show ?thesis
    using h sample_request_dwords(3)
    by (simp add: vmcall_command_def outcome_state_def vmcall_finish_def set_rax_def set_vmcb_def sample_globals_def)
qed

end
