(* ===== verification/VM_Call_Effects.thy ===== *)
theory VM_Call_Effects
  imports VM_Call_Access
begin

text \<open>
  What the commands of the vmcall interface do: access to physical memory, blocking and
  restoring interrupts, raising the privilege level, registering the CR3 callback, and the
  lock around the handler.
\<close>

unbundle bit_operations_syntax

section \<open>Copying between windows\<close>

text \<open>\<^verbatim>\<open>copymem\<close> between two windows of the guest is the same loop.\<close>

lemma copymem_copy_windows: "copymem d s k n m = copy_windows (win_pa d) (win_pa s) k n m"
  by (induction n arbitrary: k m) (simp_all split: option.split)

lemma copy_windows_spec:
  assumes "\<And>j. k \<le> j \<Longrightarrow> j < k + n \<Longrightarrow> src j = Some (p j) \<and> dst j = Some (q j)"
    and "\<And>i j. k \<le> i \<Longrightarrow> i < k + n \<Longrightarrow> k \<le> j \<Longrightarrow> j < k + n \<Longrightarrow> q i = q j \<Longrightarrow> i = j"
    and "\<And>i j. k \<le> i \<Longrightarrow> i < k + n \<Longrightarrow> k \<le> j \<Longrightarrow> j < k + n \<Longrightarrow> q i \<noteq> p j"
  shows "\<exists>m'. copy_windows dst src k n m = Some m' \<and> (\<forall>j. k \<le> j \<and> j < k + n \<longrightarrow> m' (q j) = m (p j))
    \<and> (\<forall>a. a \<notin> q ` {k..<k + n} \<longrightarrow> m' a = m a)"
  using assms
proof (induction n arbitrary: k m)
  case (Suc n)
  let ?m = "m(q k := m (p k))"
  have "\<exists>m'. copy_windows dst src (Suc k) n ?m = Some m'
      \<and> (\<forall>j. Suc k \<le> j \<and> j < Suc k + n \<longrightarrow> m' (q j) = ?m (p j))
      \<and> (\<forall>a. a \<notin> q ` {Suc k..<Suc k + n} \<longrightarrow> m' a = ?m a)"
  proof (rule Suc.IH)
    show "\<And>j. Suc k \<le> j \<Longrightarrow> j < Suc k + n \<Longrightarrow> src j = Some (p j) \<and> dst j = Some (q j)"
      using Suc.prems(1) by simp
    show "\<And>i j. Suc k \<le> i \<Longrightarrow> i < Suc k + n \<Longrightarrow> Suc k \<le> j \<Longrightarrow> j < Suc k + n \<Longrightarrow> q i = q j \<Longrightarrow> i = j"
      using Suc.prems(2) by simp
    show "\<And>i j. Suc k \<le> i \<Longrightarrow> i < Suc k + n \<Longrightarrow> Suc k \<le> j \<Longrightarrow> j < Suc k + n \<Longrightarrow> q i \<noteq> p j"
      using Suc.prems(3) by simp
  qed
  then obtain m' where c: "copy_windows dst src (Suc k) n ?m = Some m'"
    and rest: "\<And>j. Suc k \<le> j \<Longrightarrow> j < Suc k + n \<Longrightarrow> m' (q j) = ?m (p j)"
    and out: "\<And>a. a \<notin> q ` {Suc k..<Suc k + n} \<Longrightarrow> m' a = ?m a" by blast
  have "copy_windows dst src k (Suc n) m = Some m'" using c Suc.prems(1) [of k] by simp
  moreover have "m' (q j) = m (p j)" if "k \<le> j" "j < k + Suc n" for j
  proof (cases "j = k")
    case True
    have "q k \<notin> q ` {Suc k..<Suc k + n}"
    proof
      assume "q k \<in> q ` {Suc k..<Suc k + n}"
      then obtain j where "q k = q j" "Suc k \<le> j" "j < Suc k + n" by auto
      then show False using Suc.prems(2) [of k j] by simp
    qed
    with out True show ?thesis by simp
  next
    case False
    then show ?thesis using rest [of j] that Suc.prems(3) [of k j] by auto
  qed
  moreover have "m' a = m a" if "a \<notin> q ` {k..<k + Suc n}" for a
  proof -
    have "a \<notin> q ` {Suc k..<Suc k + n}" "a \<noteq> q k" using that by auto
    then show ?thesis using out by simp
  qed
  ultimately show ?case by blast
qed auto

section \<open>Physical memory\<close>

text \<open>The fields of a physical memory request, and what they name.\<close>

definition physical_request :: "machine \<Rightarrow> window \<Rightarrow> UINT64 \<Rightarrow> nat \<Rightarrow> UINT64 \<Rightarrow> bool" where
  "physical_request s w pa n va \<longleftrightarrow> req_qword s w 3 = Some pa \<and> req_dword s w 5 = Some (of_nat n)
     \<and> req_qword s w 6 = Some va \<and> req_dword s w 8 \<noteq> None"

definition guest_frames :: "machine \<Rightarrow> UINT64 \<Rightarrow> nat \<Rightarrow> (nat \<Rightarrow> UINT64) \<Rightarrow> bool" where
  "guest_frames s va n q \<longleftrightarrow> (\<forall>k < n. getPhysicalAddressVM s (va + of_nat k) = Some (Some (q k)))"

lemma sint_ULONG: "n < 0x80000000 \<Longrightarrow> sint (of_nat n :: ULONG) = int n"
  by (simp add: signed_of_nat signed_take_bit_int_eq_self)

lemma physical_step:
  assumes "physical_request s w pa n va" "tlb_ready s" "guest_mapped s va n" "0 < n" "n \<le> 0x1ff000"
    and q: "guest_frames s va n q"
  shows "\<exists>gw s1. (\<forall>k < n. win_pa gw k = Some (q k)) \<and> mem s1 = mem s \<and> regs s1 = regs s
    \<and> vmcall_physical writing w s = do {
       m \<leftarrow> (if writing then copy_windows (phys_pa pa) (win_pa gw) 0 n (mem s)
             else copy_windows (win_pa gw) (phys_pa pa) 0 n (mem s));
       Some (Next (set_rax (of_nat n) (s1\<lparr>mem := m\<rparr>))) }"
proof -
  have sn: "sint (of_nat n :: ULONG) = int n" using assms(5) by (simp add: sint_ULONG)
  have cn: "ucast (of_nat n :: ULONG) = (of_nat n :: UINT64)"
    using assms(5) by (simp add: word_unat_eq_iff unat_ucast32 unat_of_nat)
  obtain gw s1 where m: "mapVMmemory s va (int n) = Some (0, 0, gw, s1)"
    using mapVMmemory_total [OF assms(2,3,4,5)] by blast
  note st = mapVMmemory_state(2,4) [OF m]
  have win: "win_pa gw k = Some (q k)" if "k < n" for k
    using mapVMmemory_bytes(1) [OF m assms(3,5) that] q that by (simp add: guest_frames_def)
  show ?thesis
    by (rule exI [of _ gw], rule exI [of _ s1])
      (use assms(1) m sn cn st win in \<open>auto simp: physical_request_def vmcall_physical_def transfer_size_def\<close>)
qed

lemma phys_pa_window: "n \<le> 0x1ff000 \<Longrightarrow> k < n \<Longrightarrow> phys_pa pa k = Some (pa + of_nat k)"
proof -
  assume "n \<le> 0x1ff000" "k < n"
  moreover have "unat pa mod 0x200000 < 0x200000" by simp
  ultimately have "unat pa mod 0x200000 + k < 0x400000" by linarith
  then show ?thesis by (simp add: phys_pa_def)
qed

lemma of_nat_inj64: "i < 0x1ff000 \<Longrightarrow> j < 0x1ff000 \<Longrightarrow> (a :: UINT64) + of_nat i = a + of_nat j \<Longrightarrow> i = j"
proof -
  assume i: "i < 0x1ff000" and j: "j < 0x1ff000" and "a + of_nat i = a + of_nat j"
  then have "unat (of_nat i :: UINT64) = unat (of_nat j :: UINT64)" by simp
  with i j show "i = j" by (simp add: unat_of_nat)
qed

text \<open>
  C9: access to physical memory. For a buffer of \<open>n\<close> bytes that is paged in and has a frame
  byte of its own for each address, none of them in the physical range, the read command
  copies the physical bytes into the buffer, the write command the buffer to physical
  memory; either reports the size in RAX and changes no other byte.
\<close>

theorem vmcall_physical_memory:
  assumes "physical_request s w pa n va" "tlb_ready s" "guest_mapped s va n" "0 < n" "n \<le> 0x1ff000"
    and q: "guest_frames s va n q" and inj: "inj_on q {..<n}"
    and dis: "\<And>i j. i < n \<Longrightarrow> j < n \<Longrightarrow> q i \<noteq> pa + of_nat j"
  shows "(\<exists>t. vmcall_physical False w s = Some (Next t) \<and> rax (regs t) = of_nat n
      \<and> (\<forall>k < n. mem t (q k) = mem s (pa + of_nat k)) \<and> (\<forall>a. a \<notin> q ` {..<n} \<longrightarrow> mem t a = mem s a))
    \<and> (\<exists>t. vmcall_physical True w s = Some (Next t) \<and> rax (regs t) = of_nat n
      \<and> (\<forall>k < n. mem t (pa + of_nat k) = mem s (q k))
      \<and> (\<forall>a. a \<notin> (\<lambda>k. pa + of_nat k) ` {..<n} \<longrightarrow> mem t a = mem s a))"
proof -
  have r: "\<exists>m'. copy_windows (win_pa gw) (phys_pa pa) 0 n (mem s) = Some m'
      \<and> (\<forall>j. 0 \<le> j \<and> j < 0 + n \<longrightarrow> m' (q j) = mem s (pa + of_nat j))
      \<and> (\<forall>a. a \<notin> q ` {0..<0 + n} \<longrightarrow> m' a = mem s a)"
    if "\<And>k. k < n \<Longrightarrow> win_pa gw k = Some (q k)" for gw
    using that inj dis assms(5)
    by (intro copy_windows_spec) (auto simp: phys_pa_window inj_on_def)
  have wr: "\<exists>m'. copy_windows (phys_pa pa) (win_pa gw) 0 n (mem s) = Some m'
      \<and> (\<forall>j. 0 \<le> j \<and> j < 0 + n \<longrightarrow> m' (pa + of_nat j) = mem s (q j))
      \<and> (\<forall>a. a \<notin> (\<lambda>k. pa + of_nat k) ` {0..<0 + n} \<longrightarrow> m' a = mem s a)"
    if "\<And>k. k < n \<Longrightarrow> win_pa gw k = Some (q k)" for gw
    using that dis assms(5) of_nat_inj64 [of _ _ pa]
    by (intro copy_windows_spec) (auto simp: phys_pa_window dest: sym)
  obtain gw s1 where 1: "\<And>k. k < n \<Longrightarrow> win_pa gw k = Some (q k)" "vmcall_physical False w s = do {
       m \<leftarrow> copy_windows (win_pa gw) (phys_pa pa) 0 n (mem s);
       Some (Next (set_rax (of_nat n) (s1\<lparr>mem := m\<rparr>))) }"
    using physical_step [OF assms(1-5) q, of False] by auto
  obtain gw' s1' where 2: "\<And>k. k < n \<Longrightarrow> win_pa gw' k = Some (q k)" "vmcall_physical True w s = do {
       m \<leftarrow> copy_windows (phys_pa pa) (win_pa gw') 0 n (mem s);
       Some (Next (set_rax (of_nat n) (s1'\<lparr>mem := m\<rparr>))) }"
    using physical_step [OF assms(1-5) q, of True] by auto
  show ?thesis
    using r [OF 1(1)] wr [OF 2(1)] 1(2) 2(2)
    by (auto simp: set_rax_def lessThan_atLeast0)
qed

definition sample_phys :: machine where
  "sample_phys = sample\<lparr>mem := sample_mem(0x500d := 0x20, 0x5014 := 4, 0x5019 := 0x30, 0x2000 := 0xab)\<rparr>"

lemma sample_phys_translate: "a < 0x400000 \<Longrightarrow> getPhysicalAddressVM sample_phys a = Some (Some a)"
  by (rule sample_translate) (simp_all add: sample_phys_def sample_def sample_mem_def)

theorem vmcall_physical_memory_witness:
  "\<exists>t. vmcall_physical False (HostPtr 0x5000) sample_phys = Some (Next t) \<and> rax (regs t) = 4
    \<and> mem t 0x3000 = 0xab"
proof -
  have r: "physical_request sample_phys (HostPtr 0x5000) 0x2000 4 0x3000"
    by (simp add: physical_request_def req_qword_def req_dword_def win_read_def sample_phys_def sample_mem_def)
  have m: "guest_mapped sample_phys 0x3000 4"
    using low_add [of "0x3000" 4] sample_phys_translate by (auto simp: guest_mapped_def)
  have q: "guest_frames sample_phys 0x3000 4 (\<lambda>k. 0x3000 + of_nat k)"
    using low_add [of "0x3000" 4] sample_phys_translate by (auto simp: guest_frames_def)
  have "inj_on (\<lambda>k. 0x3000 + of_nat k :: UINT64) {..<4}"
    using of_nat_inj64 [of _ _ "0x3000"] by (auto simp: inj_on_def)
  moreover have "(0x3000 :: UINT64) + of_nat i \<noteq> 0x2000 + of_nat j" if "i < 4" "j < 4" for i j
  proof -
    have "unat ((0x3000 :: UINT64) + of_nat i) = 0x3000 + i" "unat ((0x2000 :: UINT64) + of_nat j) = 0x2000 + j"
      using low_add(2) [of "0x3000" 4 i] low_add(2) [of "0x2000" 4 j] that by simp_all
    moreover have "0x3000 + i \<noteq> 0x2000 + j" using that by simp
    ultimately show ?thesis by metis
  qed
  moreover have "tlb_ready sample_phys" by (simp add: tlb_ready_def sample_phys_def sample_def)
  ultimately obtain t where t: "vmcall_physical False (HostPtr 0x5000) sample_phys = Some (Next t)"
    "rax (regs t) = of_nat 4" "\<forall>k < 4. mem t (0x3000 + of_nat k) = mem sample_phys (0x2000 + of_nat k)"
    using vmcall_physical_memory [OF r _ m _ _ q] by auto
  have "mem t (0x3000 + of_nat 0) = mem sample_phys (0x2000 + of_nat 0)" using t(3) [rule_format, of 0] by simp
  then show ?thesis using t(1,2) by (simp add: sample_phys_def)
qed

text \<open>
  With the no-page-fault flag set, a buffer that starts inside a page that is not present
  makes the size wrap around: nothing is copied and RAX reports almost 4 GB.
\<close>

theorem vmcall_physical_size_wraps:
  assumes "req_qword s w 3 = Some pa" "req_dword s w 5 = Some (of_nat n)" "req_qword s w 6 = Some va"
    and "req_dword s w 8 = Some np" "np \<noteq> 0" "tlb_ready s" "0 < n" "n \<le> 0x1ff000"
    and "unat va + n \<le> 18446744073709547520" "getPhysicalAddressVM s (page_base va) = Some None"
    and "take_bit 12 va \<noteq> 0"
  shows "\<exists>t. vmcall_physical wr w s = Some (Next t) \<and> mem t = mem s
    \<and> unat (rax (regs t)) = 2 ^ 32 - unat va mod 4096"
proof -
  define o' where "o' = unat va mod 4096"
  have o': "0 < o'" "o' < 4096"
  proof -
    have "unat (take_bit 12 va) \<noteq> 0" using assms(11) by (simp only: unsigned_eq_0_iff not_False_eq_True)
    then show "0 < o'" "o' < 4096" by (simp_all add: unat_take_bit_12 o'_def)
  qed
  have "page_base va - va = - take_bit 12 va" using page_base_split [of va] by (metis add_diff_cancel_left' diff_0 diff_diff_eq2 diff_self)
  moreover have "take_bit 12 va = word_of_int (int o')"
    by (simp add: word_unat_eq_iff unat_take_bit_12 o'_def unat_of_nat)
  ultimately have "page_base va - va = word_of_int (- int o')" by simp
  moreover have "ucast (word_of_int i :: UINT64) = (word_of_int i :: ULONG)" for i
    by (rule bit_word_eqI) (simp add: bit_simps bit_word_of_int_iff)
  ultimately have sz: "ucast (page_base va - va) = (word_of_int (- int o') :: ULONG)" by (simp only:)
  have neg: "sint (word_of_int (- int o') :: ULONG) = - int o'"
    using o' by (simp only: sint_sbintrunc') (rule signed_take_bit_int_eq_self, simp_all)
  have "uint (word_of_int (- int o') :: ULONG) = 2 ^ 32 - int o'"
    unfolding uint_word_of_int using o' by (simp add: zmod_zminus1_eq_if)
  then have "int (unat (word_of_int (- int o') :: ULONG)) = int (2 ^ 32 - o')"
    using o' by (simp only: uint_nat [symmetric]) (simp add: of_nat_diff)
  then have u: "unat (ucast (word_of_int (- int o') :: ULONG) :: UINT64) = 2 ^ 32 - o'"
    by (simp only: unat_ucast32 of_nat_eq_iff)
  have sn: "sint (of_nat n :: ULONG) = int n" using assms(8) by (simp add: sint_ULONG)
  have "unat (va + of_nat n) = unat va + n"
    using assms(9) by (simp add: unat_word_ariths unat_of_nat mod_add_right_eq)
  moreover have "unat (page_base va) \<le> unat va" by (simp add: unat_page_base)
  ultimately have last: "page_base va < va + of_nat n" using assms(7) by (simp add: word_less_nat_alt)
  obtain gw s1 where m: "mapVMmemory s va (int n) = Some (2, page_base va, gw, s1)" "mem s1 = mem s"
  proof -
    have g: "map_pages 514 t (page_base va) (va + of_nat n) [] = Some (Some (page_base va), [])"
      if "getPhysicalAddressVM t = getPhysicalAddressVM s" for t
      using map_pages.simps(2) [of 513 t "page_base va" "va + of_nat n" "[]"] last assms(10) that by simp
    let ?c = "if virtualTLB_Max (cpu s) - ucast (virtualTLB_FreeSpot (cpu s) - virtualTLB (cpu s)) < 4096 * 2
      then (cpu s)\<lparr>virtualTLB_FreeSpot := virtualTLB (cpu s) + 4096, virtualTLB_whiped := 1\<rparr> else cpu s"
    let ?t = "s\<lparr>cpu := ?c\<lparr>virtualTLB_FreeSpot := virtualTLB_FreeSpot ?c + 4096\<rparr>\<rparr>"
    have "getPhysicalAddressVM ?t = getPhysicalAddressVM s"
      by (intro getPhysicalAddressVM_cong) simp_all
    then have "mapVMmemory s va (int n) = Some (2, page_base va, Mapped (unat (va AND 0xfff)) [], ?t)"
      using g [of ?t] assms(6,8) unfolding mapVMmemory_def tlb_ready_def Let_def by (simp add: not_less)
    then show thesis by (rule that) simp
  qed
  show ?thesis
    using assms(1-5) m sn sz neg u o'
    by (auto simp: vmcall_physical_def transfer_size_def set_rax_def o'_def)
qed


definition sample_wrap :: machine where
  "sample_wrap = sample\<lparr>mem := sample_mem(0x5014 := 4, 0x5018 := 0x10, 0x501a := 0x40, 0x5020 := 1)\<rparr>"

theorem vmcall_physical_size_wraps_witness:
  "\<exists>t. vmcall_physical False (HostPtr 0x5000) sample_wrap = Some (Next t)
    \<and> mem t = mem sample_wrap \<and> unat (rax (regs t)) = 0xfffffff0"
proof -
  have r: "req_qword sample_wrap (HostPtr 0x5000) 3 = Some 0"
    "req_dword sample_wrap (HostPtr 0x5000) 5 = Some (of_nat 4)"
    "req_qword sample_wrap (HostPtr 0x5000) 6 = Some 0x400010"
    "req_dword sample_wrap (HostPtr 0x5000) 8 = Some 1"
    by (simp_all add: req_qword_def req_dword_def win_read_def sample_wrap_def sample_mem_def)
  have "getPhysicalAddressVM sample_wrap (page_base 0x400010) = Some None"
    by (simp add: getPhysicalAddressVM_def IS64BITPAGING_def vmread_def walk_nonPAE_def sample_wrap_def
        sample_def sample_mem_def tbl_entry32_def entry_P_def page_base_def take_bit_eq_mod)
  moreover have "tlb_ready sample_wrap" by (simp add: tlb_ready_def sample_wrap_def sample_def)
  ultimately show ?thesis
    using vmcall_physical_size_wraps [OF r, of False] by (simp add: take_bit_eq_mod)
qed

section \<open>Interrupts\<close>

lemma bit_not_200: "bit (0xFFFFFFFFFFFFFDFF :: UINT64) k \<longleftrightarrow> k < 64 \<and> k \<noteq> 9"
proof -
  have "(0xFFFFFFFFFFFFFDFF :: UINT64) = NOT (push_bit 9 1)" by (simp add: push_bit_eq_mult)
  then show ?thesis
    by (simp only: bit_not_iff bit_push_bit_iff bit_1_iff possible_bit_word) auto
qed

lemma bit_clear_IF: "bit (x AND 0xFFFFFFFFFFFFFDFF :: UINT64) k \<longleftrightarrow> k \<noteq> 9 \<and> bit x k"
  by (simp only: bit_and_iff bit_not_200) (auto dest: bit_imp_le_length)

lemma take_bit_numeral_8: "take_bit 32 (8 :: UINT64) = 8"
  by (simp add: take_bit_eq_mod)

text \<open>
  Blocking and restoring interrupts. After the block command the guest's IF is clear and
  NMIs are blocked; the restore command, in any later state that has not blocked again, gives
  back the interruptibility state and the IF the guest had, and no other flag changes.
\<close>

theorem block_restore_interrupts:
  assumes "vmcall_block_interrupts w s = Some (Next s1)" "info (cpu u) = info (cpu s1)"
    and "vmcall_restore_interrupts w' u = Some (Next t)"
  shows "vmread s1 vm_guest_interruptability_state = 8
    \<and> (\<forall>k. bit (vmread s1 vm_guest_rflags) k \<longleftrightarrow> k \<noteq> 9 \<and> bit (vmread s vm_guest_rflags) k)
    \<and> vmread t vm_guest_interruptability_state = take_bit 32 (vmread s vm_guest_interruptability_state)
    \<and> (\<forall>k. bit (vmread t vm_guest_rflags) k
        \<longleftrightarrow> (if k = 9 then bit (vmread s vm_guest_rflags) 9 else bit (vmread u vm_guest_rflags) k))"
proof -
  have s1: "s1 = set_rax 0 (vmwrite vm_guest_rflags (vmread s vm_guest_rflags AND 0xFFFFFFFFFFFFFDFF)
      (set_info (\<lambda>i. i\<lparr>Previous_CLI := of_bool (bit (vmread s vm_guest_rflags) 9)\<rparr>)
        (vmwrite vm_guest_interruptability_state 8
          (set_info (\<lambda>i. i\<lparr>Previous_Interuptability_State := vmread s vm_guest_interruptability_state\<rparr>) s))))"
    using assms(1) by (simp add: vmcall_block_interrupts_def Let_def set_info_def)
  then have i: "Previous_CLI (info (cpu u)) = of_bool (bit (vmread s vm_guest_rflags) 9)"
    "Previous_Interuptability_State (info (cpu u)) = vmread s vm_guest_interruptability_state"
    unfolding assms(2) by (simp_all add: set_rax_def set_info_def)
  have "vmread s1 vm_guest_interruptability_state = 8"
    "vmread s1 vm_guest_rflags = vmread s vm_guest_rflags AND 0xFFFFFFFFFFFFFDFF"
    by (simp_all add: s1 set_rax_def set_info_def take_bit_numeral_8)
  moreover have "vmread t vm_guest_interruptability_state = take_bit 32 (vmread s vm_guest_interruptability_state)"
    "vmread t vm_guest_rflags = (vmread u vm_guest_rflags AND 0xFFFFFFFFFFFFFDFF)
      OR push_bit 9 (of_bool (bit (vmread s vm_guest_rflags) 9))"
    using assms(3) i by (auto simp: vmcall_restore_interrupts_def Let_def set_rax_def)
  ultimately show ?thesis
    by (auto simp: bit_clear_IF bit_or_iff bit_push_bit_iff bit_of_bool_iff)
qed

theorem block_restore_interrupts_witness:
  "\<exists>s1 t. vmcall_block_interrupts (HostPtr 0) sample = Some (Next s1)
    \<and> vmcall_restore_interrupts (HostPtr 0) s1 = Some (Next t)
    \<and> \<not> bit (vmread s1 vm_guest_rflags) 9 \<and> bit (vmread t vm_guest_rflags) 9"
proof -
  obtain s1 where s1: "vmcall_block_interrupts (HostPtr 0) sample = Some (Next s1)"
    by (simp add: vmcall_block_interrupts_def Let_def)
  obtain t where t: "vmcall_restore_interrupts (HostPtr 0) s1 = Some (Next t)"
    by (simp add: vmcall_restore_interrupts_def Let_def)
  have "bit (vmread sample vm_guest_rflags) 9" by (simp add: sample_def vmread_def)
  with block_restore_interrupts [OF s1 refl t] s1 t show ?thesis by auto
qed

text \<open>
  Raising the privilege level. The command refuses a guest that has interrupts enabled,
  without effect; otherwise the guest's code and stack segments get level 0, in the selectors
  and in the descriptors' DPL, and IOPL becomes 0; nothing else changes.
\<close>

theorem raisePrivilege_level0:
  "raisePrivilege s = (r, t) \<Longrightarrow>
    (if bit (vmread s vm_guest_rflags) 9 then r = 1 \<and> t = s
     else r = 0 \<and> touches {vm_guest_rflags, vm_guest_cs, vm_guest_ss, vm_guest_cs_access_rights, vm_guest_ss_access_rights} s t
       \<and> take_bit 2 (vmread t vm_guest_cs) = 0 \<and> take_bit 2 (vmread t vm_guest_ss) = 0
       \<and> take_bit 2 (drop_bit 5 (vmread t vm_guest_cs_access_rights)) = 0
       \<and> take_bit 2 (drop_bit 5 (vmread t vm_guest_ss_access_rights)) = 0
       \<and> take_bit 2 (drop_bit 12 (vmread t vm_guest_rflags)) = 0)"
proof -
  have z: "take_bit 2 (drop_bit lo (put_field lo 2 0 x)) = (0 :: UINT64)" for lo x
    by (rule bit_word_eqI) (auto simp: bit_simps bit_put_field)
  have c: "take_bit 2 (take_bit 16 (x AND 0xfffc)) = (0 :: UINT64)" for x
  proof -
    have "(0xfffc :: UINT64) = push_bit 2 (mask 14)" by (simp add: mask_eq_exp_minus_1 push_bit_eq_mult)
    then show ?thesis by (simp only:) (rule bit_word_eqI, auto simp: bit_simps)
  qed
  have w: "take_bit 2 (drop_bit 5 (take_bit 32 x)) = take_bit 2 (drop_bit 5 (x :: UINT64))" for x
    by (rule bit_word_eqI) (auto simp: bit_simps)
  assume "raisePrivilege s = (r, t)"
  then show ?thesis
    by (auto simp: raisePrivilege_def Let_def z c w intro!: touches_vmwrite)
qed

theorem raisePrivilege_level0_witness:
  "\<exists>t. raisePrivilege (vmwrite vm_guest_rflags 2 sample) = (0, t) \<and> take_bit 2 (vmread t vm_guest_cs) = 0"
proof -
  let ?s = "vmwrite vm_guest_rflags 2 sample"
  obtain r t where p: "raisePrivilege ?s = (r, t)" by fastforce
  have "\<not> bit (vmread ?s vm_guest_rflags) 9" by simp
  with raisePrivilege_level0 [OF p] p show ?thesis by auto
qed

section \<open>The CR3 callback\<close>

text \<open>
  Registering the CR3 callback hangs the CPU. Once a vmcall has registered a callback, the
  next write of CR3 by a guest with paging on does not return: \<^verbatim>\<open>handle_cr3_callback\<close> starts
  with an endless loop.
\<close>

theorem registered_callback_hangs:
  assumes "vmcall_register_callback w s = Some (Next t)" "PG_set (vmread t vm_cr0_fakeread)"
  shows "setVM_CR3 newcr3 t = None"
proof -
  have "cr3_change_callback (cpu t) = 1"
    using assms(1) by (auto simp: vmcall_register_callback_def bind_Some_iff Let_def set_info_def)
  moreover have "cr3_change_callback (cpu (ultimap_handleCR3Change a b t)) = cr3_change_callback (cpu t)"
    "vmread (ultimap_handleCR3Change a b t) vm_cr0_fakeread = vmread t vm_cr0_fakeread" for a b
    by (simp_all add: ultimap_handleCR3Change_def Let_def ultimap_defs)
  ultimately show ?thesis using assms(2) by (simp add: setVM_CR3_def Let_def)
qed

theorem registered_callback_hangs_witness:
  "\<exists>t. vmcall_register_callback (HostPtr 0x5000) (vmwrite vm_cr0_fakeread 0x80000001 sample) = Some (Next t)
    \<and> setVM_CR3 0x1000 t = None"
proof -
  let ?s = "vmwrite vm_cr0_fakeread 0x80000001 sample"
  have "req_dword ?s (HostPtr 0x5000) k = Some 0" "req_qword ?s (HostPtr 0x5000) k = Some 0" if "k < 10" for k
    using that by (auto simp: req_dword_def req_qword_def win_read_def sample_def sample_mem_def word_unat_eq_iff
        unat_word_ariths unat_of_nat)
  then obtain t where t: "vmcall_register_callback (HostPtr 0x5000) ?s = Some (Next t)"
    "vmread t vm_cr0_fakeread = 0x80000001"
    by (simp add: vmcall_register_callback_def Let_def set_info_def)
  have "PG_set (vmread t vm_cr0_fakeread)" by (simp add: t(2) PG_set_def)
  from registered_callback_hangs [OF t(1) this] t(1) show ?thesis by blast
qed

section \<open>The lock\<close>

text \<open>
  The calls are serialised. A vmcall that finds \<^verbatim>\<open>vmcallCS\<close> held by another CPU does
  not get to the handler; one that finds it free runs the handler once and leaves it free.
\<close>

theorem vmcall_serialised:
  "(locked CS \<noteq> 0 \<and> apicid CS \<noteq> cs_id c \<longrightarrow> handleVMCall junk c CS s = None)
   \<and> (locked CS = 0 \<longrightarrow> handleVMCall junk c CS s
       = map_option (\<lambda>t. (CS\<lparr>lockcount := 0, apicid := - 1, locked := 0\<rparr>, t)) (handleVMCall_inner junk s))"
  by (auto simp: handleVMCall_def csEnter_def csLeave_def map_conv_bind_option comp_def)

theorem vmcall_serialised_witness:
  "handleVMCall 0 0 \<lparr>locked = 0, apicid = - 1, lockcount = 0\<rparr> sample
    = Some (\<lparr>locked = 0, apicid = - 1, lockcount = 0\<rparr>, raiseInvalidOpcodeException sample)"
proof -
  have "handleVMCall_inner 0 sample = Some (raiseInvalidOpcodeException sample)"
    by (simp add: handleVMCall_inner_def sample_def sample_globals_def)
  then show ?thesis
    using vmcall_serialised [of "\<lparr>locked = 0, apicid = - 1, lockcount = 0\<rparr>" 0 0 sample] by simp
qed

section \<open>Reported state\<close>

text \<open>
  The query for redirected breakpoints. The commands for interrupts 1 and 14 report whether
  one has been redirected since the last query and clear the mark; the one for interrupt 3
  clears the mark too but reports 0 in every case.
\<close>

theorem int3_redirection_not_reported:
  "(\<exists>t. vmcall_command junk 10 w s = Some (Next t) \<and> rax (regs t) = of_int (int1happened (info (cpu s)))
      \<and> int1happened (info (cpu t)) = 0)
   \<and> (\<exists>t. vmcall_command junk 23 w s = Some (Next t) \<and> rax (regs t) = of_int (int14happened (info (cpu s)))
      \<and> int14happened (info (cpu t)) = 0)
   \<and> (\<exists>t. vmcall_command junk 25 w s = Some (Next t) \<and> rax (regs t) = 0 \<and> int3happened (info (cpu t)) = 0)"
  by (simp add: vmcall_command_def redirected_def set_info_def set_rax_def)

text \<open>
  \<^verbatim>\<open>getpid\<close> tests \<^verbatim>\<open>notpaged\<close> the wrong way round: whenever the page of the current
  thread pointer is present the process id is reported as 0.
\<close>

theorem getpid_zero_when_paged:
  "getPhysicalAddressVM s (ucast (ucast (vmread s vm_guest_fs_base) + 0x124 :: ULONG)) = Some (Some p)
    \<Longrightarrow> getpid s = Some 0"
  by (simp add: getpid_def)

theorem getpid_zero_when_paged_witness: "getpid sample = Some 0"
proof -
  have "vmread sample vm_guest_fs_base = 0" by (simp add: sample_def vmread_def)
  then show ?thesis by (intro getpid_zero_when_paged [of sample "0x124"]) simp
qed

end
