(* ===== verification/Interrupts.thy ===== *)
theory Interrupts
  imports VM_Call_Access
begin

text \<open>
  Exceptions of a guest in protected mode, \<^verbatim>\<open>handleInterruptProtectedMode\<close> of
  \<^verbatim>\<open>dbvm/vmm/vmeventhandler.c\<close>: the redirections of interrupts 1, 3 and 14, the page
  faults a vmcall has asked to skip, the detection of double faults, and the reflection of
  the exception to the guest.
\<close>

unbundle bit_operations_syntax

section \<open>Double faults\<close>

definition isBenignInterrupt :: "nat \<Rightarrow> bool" where
  "isBenignInterrupt n \<longleftrightarrow> 1 \<le> n \<and> n \<le> 7 \<or> n = 9 \<or> 16 \<le> n \<and> n \<le> 19"

definition isContributoryInterrupt :: "nat \<Rightarrow> bool" where
  "isContributoryInterrupt n \<longleftrightarrow> n = 0 \<or> 10 \<le> n \<and> n \<le> 13"

text \<open>The tests of the code, in their order.\<close>

definition doublefault :: "nat \<Rightarrow> nat \<Rightarrow> bool" where
  "doublefault idtvector intvector =
     (let d0 = True;
          d1 = (if isBenignInterrupt idtvector then False
                else if isBenignInterrupt intvector then False else d0);
          d2 = (if intvector = 14 \<and> isContributoryInterrupt idtvector then False else d1)
      in if d2 then
           (let d3 = False;
                d4 = (if isContributoryInterrupt idtvector \<and> isContributoryInterrupt intvector then True else d3)
            in if idtvector = 14 then
                 (let d5 = (if isContributoryInterrupt intvector then True else d4)
                  in if intvector = 14 then True else d5)
               else d4)
         else d2)"

section \<open>Interruption information\<close>

text \<open>
  The bit fields of \<^verbatim>\<open>VMExit_interruption_information\<close> and
  \<^verbatim>\<open>VMExit_idt_vector_information\<close>.
\<close>

definition ii_vector :: "ULONG \<Rightarrow> nat" where
  "ii_vector i = unat (take_bit 8 i)"

definition ii_type :: "ULONG \<Rightarrow> nat" where
  "ii_type i = unat (take_bit 3 (drop_bit 8 i))"

definition ii_haserrorcode :: "ULONG \<Rightarrow> bool" where
  "ii_haserrorcode i = bit i 11"

definition ii_valid :: "ULONG \<Rightarrow> bool" where
  "ii_valid i = bit i 31"

abbreviation vm_exit_interruptioninfo :: nat where "vm_exit_interruptioninfo \<equiv> 0x4404"
abbreviation vm_exit_interruptionerror :: nat where "vm_exit_interruptionerror \<equiv> 0x4406"
abbreviation vm_idtvector_information :: nat where "vm_idtvector_information \<equiv> 0x4408"
abbreviation vm_guest_dr7 :: nat where "vm_guest_dr7 \<equiv> 0x681a"

text \<open>\<^verbatim>\<open>intinfo.interruptvector=v\<close>: an assignment to an 8-bit field.\<close>

definition put_vector :: "int \<Rightarrow> ULONG \<Rightarrow> ULONG" where
  "put_vector v i = put_field 0 8 (of_int v) i"

section \<open>Redirection\<close>

text \<open>
  Result of the vector specific part: \<open>Inl s\<close> when the handler returns 0 there, else the
  interruption information and the state to go on with.
\<close>

type_synonym redirect_result = "(machine + ULONG \<times> machine) option"

definition redirect_bypass :: "WORD \<Rightarrow> redirection \<Rightarrow> bool \<Rightarrow> UINT64 \<Rightarrow> bool \<Rightarrow> ULONG \<Rightarrow> machine \<Rightarrow> redirect_result" where
  "redirect_bypass junk r haserr err isFault i s = do {
     (res, s1) \<leftarrow> emulateExceptionInterrupt junk (ucast (redir_cs r)) (redir_rip r) haserr err isFault s;
     Some (if res = 0 then Inl s1 else Inr (i, s1)) }"

definition handle_int1 :: "WORD \<Rightarrow> ULONG \<Rightarrow> machine \<Rightarrow> redirect_result" where
  "handle_int1 junk i s =
     (let h = (host s)\<lparr>hostDR6 := (hostDR6 (host s) AND 0xfff0) OR vmread s vm_exit_qualification\<rparr>;
          s1 = s\<lparr>host := h\<rparr>;
          s2 = (if um_Active (ultimap (cpu s1)) \<noteq> 0 then ultimap_handleDB s1
                else vmwrite vm_guest_IA32_DEBUGCTL (unset_bit 0 (vmread s1 vm_guest_IA32_DEBUGCTL)) s1);
          s3 = vmwrite vm_guest_dr7 (unset_bit 13 (vmread s2 vm_guest_dr7)) s2;
          r = redirect1 (globals s3)
      in if redir_idtbypass r = 0 then
           Some (Inr (put_vector (redir_int r) i,
             set_info (\<lambda>x. x\<lparr>int1happened := of_bool (redir_int r \<noteq> 1)\<rparr>) s3))
         else redirect_bypass junk r (ii_haserrorcode i) (vmread s3 vm_exit_interruptionerror) False i s3)"

definition handle_int3 :: "WORD \<Rightarrow> ULONG \<Rightarrow> machine \<Rightarrow> redirect_result" where
  "handle_int3 junk i s =
     (let r = redirect3 (globals s)
      in if redir_idtbypass r = 0 then
           Some (Inr (put_vector (redir_int r) i,
             set_info (\<lambda>x. x\<lparr>int3happened := of_bool (redir_int r \<noteq> 3)\<rparr>) s))
         else
           (let s1 = vmwrite vm_guest_rip (vmread s vm_guest_rip + vmread s vm_exit_instructionlength) s
            in redirect_bypass junk r (ii_haserrorcode i) (vmread s1 vm_exit_interruptionerror) False i s1))"

definition int14_redirected :: "ULONG \<Rightarrow> machine \<Rightarrow> ULONG \<times> machine" where
  "int14_redirected i s =
     (let r = redirect14 (globals s)
      in (put_vector (redir_int r) i, set_info (\<lambda>x. x\<lparr>int14happened := of_bool (redir_int r \<noteq> 14)\<rparr>) s))"

definition handle_int14 :: "WORD \<Rightarrow> ULONG \<Rightarrow> machine \<Rightarrow> redirect_result" where
  "handle_int14 junk i s =
     (let err = vmread s vm_exit_interruptionerror in
      if IgnorePageFaults_Active (info (cpu s)) \<noteq> 0 \<and> err \<le> 0xf then
        (let s1 = set_info (\<lambda>x. x\<lparr>LastIgnoredPageFault := vmread s vm_exit_qualification\<rparr>) s
         in Some (Inl (vmwrite vm_guest_rip (vmread s1 vm_guest_rip + vmread s1 vm_exit_instructionlength) s1)))
      else
        (let s1 = s\<lparr>host := (host s)\<lparr>hostCR2 := vmread s vm_exit_qualification\<rparr>\<rparr>;
             r = redirect14 (globals s1)
         in if redir_idtbypass r = 0 then Some (Inr (int14_redirected i s1))
            else if ii_haserrorcode i \<and> err AND 0x15 = 0x15 then do {
              (res, s2) \<leftarrow> emulateExceptionInterrupt junk (ucast (redir_cs r)) (redir_rip r) True
                 (scast (ucast err :: ULONG)) True s1;
              Some (if res = 0 then Inl s2 else Inr (int14_redirected i s2)) }
            else Some (Inr (int14_redirected i s1))))"

section \<open>The handler\<close>

text \<open>
  The end of the handler: the exception, or the double fault it has turned into, goes to the
  guest. A fault while a double fault was being delivered halts the CPU (\<^verbatim>\<open>while (1)\<close>):
  \<open>None\<close>.
\<close>

definition reflect_exception :: "ULONG \<Rightarrow> bool \<Rightarrow> bool \<Rightarrow> machine \<Rightarrow> machine" where
  "reflect_exception i df isFault s =
     (let s1 = (if df then vmwrite vm_entry_exceptionerrorcode 0 s
                else vmwrite vm_entry_exceptionerrorcode (vmread s vm_exit_interruptionerror) s);
          newintinfo = (if df then entry_interruption 8 3 True True
                        else entry_interruption (of_nat (ii_vector i)) (of_nat (ii_type i))
                               (ii_haserrorcode i) (ii_valid i));
          s2 = vmwrite vm_entry_interruptioninfo (ucast newintinfo) s1;
          s3 = vmwrite vm_entry_instructionlength (vmread s2 vm_exit_instructionlength) s2
      in if isFault then vmwrite vm_guest_rflags (set_bit 16 (vmread s3 vm_guest_rflags)) s3 else s3)"

definition handleInterruptProtectedMode :: "WORD \<Rightarrow> machine \<Rightarrow> machine option" where
  "handleInterruptProtectedMode junk s =
     (let i0 = ucast (vmread s vm_exit_interruptioninfo) :: ULONG;
          idt = ucast (vmread s vm_idtvector_information) :: ULONG;
          isFault = (ii_vector i0 \<noteq> 1 \<and> ii_vector i0 \<noteq> 3)
      in do {
        r \<leftarrow> (if ii_vector i0 = 1 then handle_int1 junk i0 s
              else if ii_vector i0 = 3 then handle_int3 junk i0 s
              else if ii_vector i0 = 14 then handle_int14 junk i0 s
              else Some (Inr (i0, s)));
        case r of
          Inl t \<Rightarrow> Some t
        | Inr (i, t) \<Rightarrow>
            if ii_valid idt \<and> ii_type idt = 3 \<and> ii_vector idt = 8 then None
            else Some (reflect_exception i
              (ii_valid idt \<and> ii_type idt = 3 \<and> doublefault (ii_vector idt) (ii_vector i)) isFault t) })"

section \<open>The double fault table\<close>

text \<open>The classes of exceptions and the conditions for a double fault in the processor manual.\<close>

datatype exception_class = Benign | Contributory | Page_Fault

definition classify :: "nat \<Rightarrow> exception_class" where
  "classify n = (if n = 14 then Page_Fault
     else if n \<in> {0, 10, 11, 12, 13} then Contributory else Benign)"

fun manual_double_fault :: "exception_class \<Rightarrow> exception_class \<Rightarrow> bool" where
  "manual_double_fault Contributory Contributory = True"
| "manual_double_fault Page_Fault Contributory = True"
| "manual_double_fault Page_Fault Page_Fault = True"
| "manual_double_fault _ _ = False"

text \<open>
  C17: double faults. The nested tests of the handler decide exactly the table of the processor
  manual: a contributory exception during the delivery of a contributory one or of a page
  fault, and a page fault during the delivery of a page fault, become a double fault; no other
  pair of vectors does.
\<close>

theorem doublefault_table: "doublefault first second = manual_double_fault (classify first) (classify second)"
proof -
  have c: "isContributoryInterrupt n \<longleftrightarrow> classify n = Contributory" for n
    by (auto simp: isContributoryInterrupt_def classify_def)
  have b: "isBenignInterrupt n \<Longrightarrow> classify n = Benign" for n
    by (auto simp: isBenignInterrupt_def classify_def)
  have p: "n = 14 \<longleftrightarrow> classify n = Page_Fault" for n by (simp add: classify_def)
  show ?thesis
    unfolding doublefault_def Let_def c p
    by (cases "classify first"; cases "classify second") (auto dest: b)
qed

section \<open>Reflected exceptions\<close>

lemma ii_put_vector:
  "ii_vector (put_vector v i) = nat (v mod 256)" "ii_type (put_vector v i) = ii_type i"
  "ii_haserrorcode (put_vector v i) = ii_haserrorcode i" "ii_valid (put_vector v i) = ii_valid i"
proof -
  have "take_bit 8 (put_vector v i) = take_bit 8 (of_int v)"
    by (rule bit_word_eqI) (auto simp: put_vector_def bit_put_field bit_simps)
  also have "\<dots> = word_of_int (v mod 256)"
  proof -
    have "v mod 256 = take_bit 8 v" by (simp add: take_bit_eq_mod)
    then show ?thesis by (simp only:) (rule bit_word_eqI, auto simp: bit_simps bit_word_of_int_iff)
  qed
  finally have "int (unat (take_bit 8 (put_vector v i))) = v mod 256"
    by (simp only: uint_nat [symmetric] uint_word_of_int) (simp add: mod_pos_pos_trivial less_trans [of _ 256])
  then show "ii_vector (put_vector v i) = nat (v mod 256)" unfolding ii_vector_def by linarith
  have "take_bit 3 (drop_bit 8 (put_vector v i)) = take_bit 3 (drop_bit 8 i)"
    by (rule bit_word_eqI) (auto simp: put_vector_def bit_put_field bit_simps)
  then show "ii_type (put_vector v i) = ii_type i" by (simp add: ii_type_def)
  show "ii_haserrorcode (put_vector v i) = ii_haserrorcode i" "ii_valid (put_vector v i) = ii_valid i"
    by (auto simp: ii_haserrorcode_def ii_valid_def put_vector_def bit_put_field)
qed

lemma reflect_pending:
  assumes "\<not> isAMD s" "ii_valid i"
  shows "pending_exception (reflect_exception i df flt s)
    = Some (if df then (8, 3, Some 0)
        else (ii_vector i, ii_type i, if ii_haserrorcode i
          then Some (take_bit 32 (vmread s vm_exit_interruptionerror)) else None))"
    and "regs (reflect_exception i df flt s) = regs s" "mem (reflect_exception i df flt s) = mem s"
    and "vmread (reflect_exception i df flt s) vm_guest_rip = vmread s vm_guest_rip"
    and "host (reflect_exception i df flt s) = host s"
proof -
  have u: "unat (take_bit 8 (of_nat (ii_vector i) :: ULONG)) = ii_vector i"
    "unat (take_bit 3 (of_nat (ii_type i) :: ULONG)) = ii_type i"
    unfolding ii_vector_def ii_type_def unsigned_of_nat by (simp_all add: unat_low unat_of_nat)
  have w: "unat (take_bit 8 (ucast w :: UINT64)) = unat (take_bit 8 w)"
    "unat (take_bit 3 (drop_bit 8 (ucast w :: UINT64))) = unat (take_bit 3 (drop_bit 8 w))"
    "bit (ucast w :: UINT64) 31 = bit w 31" "bit (ucast w :: UINT64) 11 = bit w 11" for w :: ULONG
    by (simp_all add: unat_low unat_shr unat_ucast32 bit_simps)
  have n: "unat (take_bit 8 (8 :: ULONG)) = 8" "unat (take_bit 3 (3 :: ULONG)) = 3"
    by (simp_all add: take_bit_eq_mod)
  show "pending_exception (reflect_exception i df flt s)
    = Some (if df then (8, 3, Some 0)
        else (ii_vector i, ii_type i, if ii_haserrorcode i
          then Some (take_bit 32 (vmread s vm_exit_interruptionerror)) else None))"
    using assms
    by (cases flt; cases df)
      (simp_all add: pending_exception_def reflect_exception_def Let_def ucast_width32 w u n entry_interruption_bits)
  show "regs (reflect_exception i df flt s) = regs s" "mem (reflect_exception i df flt s) = mem s"
    "vmread (reflect_exception i df flt s) vm_guest_rip = vmread s vm_guest_rip"
    "host (reflect_exception i df flt s) = host s"
    by (simp_all add: reflect_exception_def Let_def)
qed


text \<open>
  A configuration that redirects nothing: each of the three vectors goes to itself through the
  interrupt table, and no page fault is skipped.
\<close>

definition no_redirection :: "machine \<Rightarrow> bool" where
  "no_redirection s \<longleftrightarrow> redir_idtbypass (redirect1 (globals s)) = 0 \<and> redir_int (redirect1 (globals s)) = 1
     \<and> redir_idtbypass (redirect3 (globals s)) = 0 \<and> redir_int (redirect3 (globals s)) = 3
     \<and> redir_idtbypass (redirect14 (globals s)) = 0 \<and> redir_int (redirect14 (globals s)) = 14
     \<and> IgnorePageFaults_Active (info (cpu s)) = 0"

definition exit_exception :: "machine \<Rightarrow> ULONG" where
  "exit_exception s = ucast (vmread s vm_exit_interruptioninfo)"

definition interrupted_delivery :: "machine \<Rightarrow> ULONG" where
  "interrupted_delivery s = ucast (vmread s vm_idtvector_information)"

text \<open>\<open>carries i s j t\<close>: the exception and the guest state that a reflection depends on stay.\<close>

definition carries :: "ULONG \<Rightarrow> machine \<Rightarrow> ULONG \<Rightarrow> machine \<Rightarrow> bool" where
  "carries i s j t \<longleftrightarrow> ii_vector j = ii_vector i \<and> ii_type j = ii_type i
     \<and> ii_haserrorcode j = ii_haserrorcode i \<and> ii_valid j = ii_valid i
     \<and> isAMD t = isAMD s \<and> regs t = regs s \<and> mem t = mem s
     \<and> vmread t vm_guest_rip = vmread s vm_guest_rip
     \<and> vmread t vm_exit_interruptionerror = vmread s vm_exit_interruptionerror"

lemma handlers_carry:
  assumes "no_redirection s"
  shows "ii_vector i = 1 \<Longrightarrow> \<exists>j t. handle_int1 junk i s = Some (Inr (j, t)) \<and> carries i s j t"
    and "ii_vector i = 3 \<Longrightarrow> \<exists>j t. handle_int3 junk i s = Some (Inr (j, t)) \<and> carries i s j t"
    and "ii_vector i = 14 \<Longrightarrow> \<exists>j t. handle_int14 junk i s = Some (Inr (j, t)) \<and> carries i s j t
      \<and> hostCR2 (host t) = vmread s vm_exit_qualification"
  using assms
  by (auto simp: handle_int1_def handle_int3_def handle_int14_def int14_redirected_def Let_def carries_def
      no_redirection_def ii_put_vector set_info_def ultimap_handleDB_def set_ultimap_def)

text \<open>
  C10: exceptions are transparent to the guest. With nothing redirected, an exception of the
  guest in protected mode is pending again after the handler with its vector, type and error
  code, or as a double fault where the processor would have raised one; registers, memory and
  RIP are untouched, and for a page fault CR2 holds the faulting address. Only a fault in the
  delivery of a double fault is not handled.
\<close>

theorem exceptions_reflected:
  assumes "\<not> isAMD s" "no_redirection s" and v: "ii_valid (exit_exception s)"
    and idt: "\<not> (ii_valid (interrupted_delivery s) \<and> ii_type (interrupted_delivery s) = 3
      \<and> ii_vector (interrupted_delivery s) = 8)"
  shows "\<exists>t. handleInterruptProtectedMode junk s = Some t
    \<and> pending_exception t = Some
        (if ii_valid (interrupted_delivery s) \<and> ii_type (interrupted_delivery s) = 3
            \<and> doublefault (ii_vector (interrupted_delivery s)) (ii_vector (exit_exception s))
         then (8, 3, Some 0)
         else (ii_vector (exit_exception s), ii_type (exit_exception s),
           if ii_haserrorcode (exit_exception s)
           then Some (take_bit 32 (vmread s vm_exit_interruptionerror)) else None))
    \<and> regs t = regs s \<and> mem t = mem s \<and> vmread t vm_guest_rip = vmread s vm_guest_rip
    \<and> (ii_vector (exit_exception s) = 14 \<longrightarrow> hostCR2 (host t) = vmread s vm_exit_qualification)"
proof -
  let ?i = "exit_exception s" and ?d = "interrupted_delivery s"
  have "\<exists>i t. (if ii_vector ?i = 1 then handle_int1 junk ?i s
      else if ii_vector ?i = 3 then handle_int3 junk ?i s
      else if ii_vector ?i = 14 then handle_int14 junk ?i s else Some (Inr (?i, s))) = Some (Inr (i, t))
      \<and> carries ?i s i t \<and> (ii_vector ?i = 14 \<longrightarrow> hostCR2 (host t) = vmread s vm_exit_qualification)"
    using handlers_carry [OF assms(2), of ?i] by (auto simp: carries_def)
  then obtain i t where r: "(if ii_vector ?i = 1 then handle_int1 junk ?i s
      else if ii_vector ?i = 3 then handle_int3 junk ?i s
      else if ii_vector ?i = 14 then handle_int14 junk ?i s else Some (Inr (?i, s))) = Some (Inr (i, t))"
    and t: "carries ?i s i t" "ii_vector ?i = 14 \<longrightarrow> hostCR2 (host t) = vmread s vm_exit_qualification"
    by blast
  have "handleInterruptProtectedMode junk s = Some (reflect_exception i
      (ii_valid ?d \<and> ii_type ?d = 3 \<and> doublefault (ii_vector ?d) (ii_vector i))
      (ii_vector ?i \<noteq> 1 \<and> ii_vector ?i \<noteq> 3) t)"
    using r idt unfolding handleInterruptProtectedMode_def exit_exception_def interrupted_delivery_def Let_def
    by simp
  then show ?thesis
    using reflect_pending [of t i] t v assms(1) by (simp add: carries_def)
qed


definition sample_fault :: machine where
  "sample_fault = vmwrite vm_exit_qualification 0x1234 (vmwrite vm_exit_interruptionerror 2
     (vmwrite vm_exit_interruptioninfo 0x80000b0e sample))"

theorem exceptions_reflected_witness:
  "\<exists>t. handleInterruptProtectedMode 0 sample_fault = Some t
    \<and> pending_exception t = Some (14, 3, Some 2) \<and> hostCR2 (host t) = 0x1234"
proof -
  have e: "exit_exception sample_fault = 0x80000b0e" "interrupted_delivery sample_fault = 0"
    "vmread sample_fault vm_exit_interruptionerror = 2" "vmread sample_fault vm_exit_qualification = 0x1234"
    by (simp_all add: exit_exception_def interrupted_delivery_def sample_fault_def sample_def vmread_def
        vmwrite_def vm_width_def take_bit_eq_mod)
  have i: "ii_vector 0x80000b0e = 14" "ii_type 0x80000b0e = 3" "ii_haserrorcode 0x80000b0e" "ii_valid 0x80000b0e"
    "\<not> ii_valid 0"
    by (simp_all add: ii_vector_def ii_type_def ii_haserrorcode_def ii_valid_def take_bit_eq_mod drop_bit_eq_div bit_simps)
  have "\<not> isAMD sample_fault" "no_redirection sample_fault"
    by (simp_all add: sample_fault_def sample_def no_redirection_def sample_globals_def sample_info_def vmwrite_def)
  then show ?thesis
    using exceptions_reflected [of sample_fault 0] e i by (simp add: take_bit_eq_mod) blast
qed

text \<open>
  Skipped page faults. While a vmcall has data page faults disabled, a page fault that is
  not an instruction fetch raises nothing in the guest: its address is recorded and execution
  goes on at the next instruction.
\<close>

theorem data_page_fault_skipped:
  assumes "ii_vector (exit_exception s) = 14" "IgnorePageFaults_Active (info (cpu s)) \<noteq> 0"
    and "vmread s vm_exit_interruptionerror \<le> 0xf"
  shows "\<exists>t. handleInterruptProtectedMode junk s = Some t
    \<and> LastIgnoredPageFault (info (cpu t)) = vmread s vm_exit_qualification
    \<and> touches {vm_guest_rip} s t \<and> mem t = mem s \<and> host t = host s
    \<and> vmread t vm_guest_rip = vmread s vm_guest_rip + vmread s vm_exit_instructionlength"
  using assms
  by (auto simp: handleInterruptProtectedMode_def exit_exception_def handle_int14_def Let_def set_info_def
      touches_def vmwrite_def vmread_def)

theorem data_page_fault_skipped_witness:
  "\<exists>t. handleInterruptProtectedMode 0 (set_info (\<lambda>i. i\<lparr>IgnorePageFaults_Active := 1\<rparr>) sample_fault) = Some t
    \<and> LastIgnoredPageFault (info (cpu t)) = 0x1234"
proof -
  let ?s = "set_info (\<lambda>i. i\<lparr>IgnorePageFaults_Active := 1\<rparr>) sample_fault"
  have e: "exit_exception ?s = 0x80000b0e" "vmread ?s vm_exit_interruptionerror = 2"
    "vmread ?s vm_exit_qualification = 0x1234" "IgnorePageFaults_Active (info (cpu ?s)) = 1"
    by (simp_all add: exit_exception_def sample_fault_def set_info_def vm_width_def take_bit_eq_mod)
  moreover have "ii_vector 0x80000b0e = 14" by (simp add: ii_vector_def take_bit_eq_mod)
  ultimately show ?thesis using data_page_fault_skipped [of ?s 0] by auto
qed

end
