(* ===== verification/MSR_Events.thy ===== *)
theory MSR_Events
  imports Interrupts
begin

text \<open>
  Exits on single instructions, of \<^verbatim>\<open>dbvm/vmm/vmeventhandler.c\<close>: \<^verbatim>\<open>handleWRMSR\<close>,
  \<^verbatim>\<open>handleRDMSR\<close>, \<^verbatim>\<open>handleCPUID\<close>, \<^verbatim>\<open>handleXSETBV\<close>, \<^verbatim>\<open>handleHLT\<close> and
  \<^verbatim>\<open>handleSIPI\<close>. All return 0, which is left out.
\<close>

unbundle bit_operations_syntax

section \<open>Model specific registers\<close>

abbreviation IA32_EFER :: DWORD where "IA32_EFER \<equiv> 0xc0000080"

text \<open>\<^verbatim>\<open>(rdx << 32)+rax\<close>, with all 64 bits of RAX.\<close>

definition edx_eax :: "VMRegisters \<Rightarrow> UINT64" where
  "edx_eax r = push_bit 32 (rdx r) + rax r"

definition paged_protected :: "machine \<Rightarrow> bool" where
  "paged_protected s \<longleftrightarrow> guestCR0 (cpu s) AND 0x80000001 = 0x80000001"

definition sysenter_write :: "(event_info \<Rightarrow> event_info) \<Rightarrow> (event_info \<Rightarrow> event_info) \<Rightarrow> nat \<Rightarrow> UINT64
    \<Rightarrow> machine \<Rightarrow> machine" where
  "sysenter_write visible actual field v s =
     (let s1 = set_info visible s
      in if hidden_sysenter_modification (info (cpu s1)) = 0 then vmwrite field v (set_info actual s1) else s1)"

definition write_efer :: "UINT64 \<Rightarrow> machine \<Rightarrow> machine option" where
  "write_efer newvalue s =
     (let s1 = s\<lparr>cpu := (cpu s)\<lparr>efer := newvalue AND 0xfffffffffffffbff\<rparr>\<rparr> in do {
        s2 \<leftarrow> wrmsr IA32_EFER (efer (cpu s1) OR 0x100 OR 0x400) s1;
        if bit (efer (cpu s2)) 8 \<and> paged_protected s2
        then emulatePaging (vmwrite vm_entry_controls (vmread s2 vm_entry_controls OR 0x200) s2)
        else Some (vmwrite vm_entry_controls (vmread s2 vm_entry_controls AND 0xfffffffffffffdff) s2) })"

definition handleWRMSR :: "machine \<Rightarrow> machine option" where
  "handleWRMSR s =
     (let newvalue = edx_eax (regs s);
          m = ucast (rcx (regs s)) :: DWORD
      in if m = 0x3a then Some (raiseGeneralProtectionFault 0 s)
         else map_option next_instruction
           (if m = 0x174 then Some (sysenter_write (\<lambda>i. i\<lparr>sysenter_CS := newvalue\<rparr>)
              (\<lambda>i. i\<lparr>actual_sysenter_CS := newvalue\<rparr>) 0x482a newvalue s)
            else if m = 0x175 then Some (sysenter_write (\<lambda>i. i\<lparr>sysenter_ESP := newvalue\<rparr>)
              (\<lambda>i. i\<lparr>actual_sysenter_ESP := newvalue\<rparr>) 0x6824 newvalue s)
            else if m = 0x176 then Some (sysenter_write (\<lambda>i. i\<lparr>sysenter_EIP := newvalue\<rparr>)
              (\<lambda>i. i\<lparr>actual_sysenter_EIP := newvalue\<rparr>) 0x6826 newvalue s)
            else if m = 0x1d9 \<or> m = 0x600 then Some (ultimap_handleMSRWrite m newvalue s)
            else if m = IA32_EFER then write_efer newvalue s
            else do {
              s1 \<leftarrow> wrmsr m newvalue s;
              if paged_protected s1 then emulatePaging s1 else Some s1 }))"

text \<open>The value a guest reads; \<open>None\<close> for an MSR whose read is answered with a fault.\<close>

definition read_efer :: "machine \<Rightarrow> UINT64" where
  "read_efer s =
     (let r = efer (cpu s) in if drop_bit 8 r = 1 \<and> paged_protected s then r OR 0x400 else r)"

definition handleRDMSR :: "machine \<Rightarrow> machine option" where
  "handleRDMSR s =
     (let m = ucast (rcx (regs s)) :: DWORD;
          answer = (\<lambda>result t. next_instruction (t\<lparr>regs := (regs t)\<lparr>rax := take_bit 32 result,
                      rdx := drop_bit 32 result\<rparr>\<rparr>))
      in if m = 0x3a then
           (let (v, s1) = readMSRSafe 0x3a s
            in Some (answer (unset_bit 2 (unset_bit 1 (set_bit 0 v))) s1))
         else if m = 0x174 then Some (answer (sysenter_CS (info (cpu s))) s)
         else if m = 0x175 then Some (answer (sysenter_ESP (info (cpu s))) s)
         else if m = 0x176 then Some (answer (sysenter_EIP (info (cpu s))) s)
         else if m = 0x1d9 \<or> m = 0x600 then map_option (\<lambda>v. answer v s) (ultimap_handleMSRRead m s)
         else if m = IA32_EFER then Some (answer (read_efer s) s)
         else Some (raiseGeneralProtectionFault 0 s))"

section \<open>CPUID\<close>

definition handleCPUID :: "machine \<Rightarrow> machine" where
  "handleCPUID s =
     (let oldeax = rax (regs s);
          s1 = (if bit (vmread s vm_guest_rflags) 8 then vmwrite 0x6822 0x4000 s else s);
          (a, b, c, d) = cpuid_leaf (host s1) (ucast (rax (regs s1))) (ucast (rcx (regs s1)));
          c1 = (if oldeax = 1 then
                  (let c0 = unset_bit 31 (ucast c :: UINT64)
                   in if bit c0 26 \<and> bit (vmread s1 vm_guest_cr4) 18 then set_bit 27 c0 else c0)
                else ucast c)
      in next_instruction (s1\<lparr>regs := (regs s1)\<lparr>rax := ucast a, rbx := ucast b, rcx := c1, rdx := ucast d\<rparr>\<rparr>))"

section \<open>XSETBV\<close>

definition handleXSETBV :: "machine \<Rightarrow> machine" where
  "handleXSETBV s =
     (let v = edx_eax (regs s);
          n = ucast (rcx (regs s)) :: ULONG;
          h = (host s)\<lparr>hostCR4 := (if bit (vmread s vm_guest_cr4) 18 then set_bit 18 (hostCR4 (host s))
                                   else unset_bit 18 (hostCR4 (host s)))\<rparr>
      in case xsetbv_fault h (hostCR4 h) n v of
           None \<Rightarrow> next_instruction (s\<lparr>host := h\<lparr>xcr := (xcr h)(n := v)\<rparr>,
                     cpu := (cpu s)\<lparr>LastInterrupt := 0\<rparr>\<rparr>)
         | Some e \<Rightarrow>
             (let s1 = s\<lparr>host := h, cpu := (cpu s)\<lparr>LastInterrupt := e\<rparr>\<rparr>
              in if e = 13 then raiseGeneralProtectionFault 0 s1
                 else if e = 6 then raiseInvalidOpcodeException s1 else s1))"

section \<open>HLT and SIPI\<close>

abbreviation vm_execution_controls_pin :: nat where "vm_execution_controls_pin \<equiv> 0x4000"
abbreviation vm_guest_activity_state :: nat where "vm_guest_activity_state \<equiv> 0x4826"

definition handleHLT :: "machine \<Rightarrow> machine" where
  "handleHLT s =
     (let s1 = (if ISREALMODE s then
          (let s0 = (if hasIF (cpu s) \<noteq> 0
                     then vmwrite vm_execution_controls_pin (vmread s vm_execution_controls_pin OR 1) s else s);
               fl = ucast (vmread s0 vm_guest_rflags) :: ULONG
           in vmwrite vm_guest_rflags (ucast (put_field 9 1 (hasIF (cpu s0))
                (put_field 16 1 0 (put_field 12 2 0 (put_field 8 1 0 (put_field 17 1 0 fl)))))) s0)
          else s)
      in next_instruction (vmwrite vm_guest_activity_state 1 s1))"

definition handleSIPI :: "machine \<Rightarrow> machine" where
  "handleSIPI s =
     (let newcs = push_bit 8 (vmread s vm_exit_qualification);
          newcsbase = push_bit 4 newcs
      in vmwrite vm_guest_activity_state 0 (vmwrite vm_guest_rip 0
           (vmwrite vm_guest_cs_base newcsbase (vmwrite vm_guest_cs newcs s))))"

section \<open>Properties\<close>

lemma next_instruction_parts [simp]:
  "regs (next_instruction s) = regs s" "cpu (next_instruction s) = cpu s" "mem (next_instruction s) = mem s"
  "msr (next_instruction s) = msr s" "host (next_instruction s) = host s" "isAMD (next_instruction s) = isAMD s"
  "globals (next_instruction s) = globals s"
  by (simp_all add: next_instruction_def)


text \<open>
  The filter on CPUID looks at all of RAX. The processor takes the leaf from EAX only, so a
  64-bit guest that sets a bit in the upper half of RAX gets leaf 1 unfiltered.
\<close>

theorem cpuid_upper_half_unfiltered:
  assumes "ucast (rax (regs s)) = (1 :: ULONG)" "rax (regs s) \<noteq> 1"
    and "cpuid_leaf (host s) 1 (ucast (rcx (regs s))) = (a, b, c, d)"
  shows "rcx (regs (handleCPUID s)) = ucast c"
  using assms by (simp add: handleCPUID_def Let_def)

theorem cpuid_upper_half_unfiltered_witness:
  "rcx (regs (handleCPUID (sample\<lparr>regs := (regs sample)\<lparr>rax := 0x100000001\<rparr>,
     host := (host sample)\<lparr>cpuid_leaf := (\<lambda>_ _. (0, 0, 0x80000000, 0))\<rparr>\<rparr>))) = 0x80000000"
  by (subst cpuid_upper_half_unfiltered [where c = "0x80000000"]) simp_all


lemma zero_pages_efer [simp]: "efer (cpu (zero_pages n p s)) = efer (cpu s)"
  by (induction n arbitrary: p s) simp_all

lemma emulatePaging_efer: "emulatePaging s = Some t \<Longrightarrow> efer (cpu t) = efer (cpu s)"
  by (auto simp: emulatePaging_def Let_def split_beta vmwrite_def split: if_splits)

lemma efer_mask: "(0xfffffffffffffbff :: UINT64) = mask 64 AND NOT (push_bit 10 1)"
  by (simp add: mask_eq_exp_minus_1)

text \<open>
  The LMA bit. For a guest that runs in long mode (LME set, paging on) with any EFER
  bit above LME set as well, such as NXE, reading EFER shows LMA clear although the VM entry
  controls are set for IA-32e mode.
\<close>

theorem efer_LMA_lost:
  assumes "write_efer v s = Some t" "bit v 8" "9 \<le> k" "k \<noteq> 10" "k < 64" "bit v k" "paged_protected s"
  shows "\<not> bit (read_efer t) 10"
proof -
  have e: "efer (cpu t) = v AND 0xfffffffffffffbff"
    using assms(1) by (auto simp: write_efer_def wrmsr_def writeMSR_def Let_def bind_Some_iff split: if_splits
        dest: emulatePaging_efer)
  have m: "bit (0xfffffffffffffbff :: UINT64) k"
    unfolding efer_mask bit_and_iff bit_mask_iff bit_not_iff bit_push_bit_iff bit_1_iff possible_bit_word
    using assms by simp
  have "bit (efer (cpu t)) k" unfolding e by (simp only: bit_and_iff m assms simp_thms)
  then have "bit (drop_bit 8 (efer (cpu t))) (k - 8)"
    using assms by (simp add: bit_drop_bit_eq)
  moreover have "\<not> bit (1 :: UINT64) (k - 8)" using assms by (simp add: bit_simps)
  ultimately have "drop_bit 8 (efer (cpu t)) \<noteq> 1" by metis
  moreover have "\<not> bit (efer (cpu t)) 10" unfolding e by (simp add: bit_simps)
  ultimately show ?thesis by (simp add: read_efer_def Let_def)
qed


abbreviation esp_writer :: machine where
  "esp_writer \<equiv> sample\<lparr>regs := (regs sample)\<lparr>rcx := 0x175, rdx := 0xfffff800, rax := 0x1000\<rparr>\<rparr>"


abbreviation long_mode :: machine where
  "long_mode \<equiv> sample\<lparr>cpu := (cpu sample)\<lparr>guestCR0 := 0x80000011\<rparr>,
     host := sample_host\<lparr>msr_exists := (\<lambda>_. True)\<rparr>\<rparr>"

theorem efer_LMA_lost_witness:
  "\<exists>t. write_efer 0x901 long_mode = Some t \<and> \<not> bit (read_efer t) 10"
proof -
  have "\<exists>t. write_efer 0x901 long_mode = Some t"
    by (simp add: write_efer_def wrmsr_def sample_def sample_host_def writeMSR_def Let_def
        emulatePaging_def split_beta)
  then obtain t where w: "write_efer 0x901 long_mode = Some t" by blast
  have "paged_protected long_mode" by (simp add: paged_protected_def)
  then show ?thesis using efer_LMA_lost [OF w, of 11] w by simp
qed

end
