(* ===== verification/Task_Switch.thy ===== *)
theory Task_Switch
  imports MSR_Events
begin

text \<open>
  The hardware task switch, \<^verbatim>\<open>handleTaskswitch\<close> of \<^verbatim>\<open>dbvm/vmm/vmeventhandler.c\<close>.
  A processor in VMX operation leaves the switch to the hypervisor, which does what the
  processor would: it marks the descriptors, saves the registers in the old task state
  segment and loads them from the new one. The windows on the tables and the two segments are
  4 MB apart and do not hide each other. \<^verbatim>\<open>returnToRealmode\<close> is here too.
\<close>

unbundle bit_operations_syntax

section \<open>Task state segments\<close>

definition tss32 :: "pmem \<Rightarrow> UINT64 \<Rightarrow> nat \<Rightarrow> ULONG" where
  "tss32 m t off = rd32 m (t + of_nat off)"

definition tss16 :: "pmem \<Rightarrow> UINT64 \<Rightarrow> nat \<Rightarrow> ULONG" where
  "tss16 m t off = take_bit 16 (tss32 m t off)"

text \<open>The causes of a switch, bits 30 and 31 of the exit qualification.\<close>

abbreviation TS_CALL :: ULONG where "TS_CALL \<equiv> 0"
abbreviation TS_IRET :: ULONG where "TS_IRET \<equiv> 1"
abbreviation TS_JMP :: ULONG where "TS_JMP \<equiv> 2"
abbreviation TS_GATE :: ULONG where "TS_GATE \<equiv> 3"

definition resume_rip :: "ULONG \<Rightarrow> machine \<Rightarrow> UINT64" where
  "resume_rip TScause s =
     (let i = vmread s vm_idtvector_information
      in if TScause = TS_GATE \<and> drop_bit 31 i = 1 \<and> take_bit 3 (drop_bit 8 i) \<noteq> 4
         then vmread s vm_guest_rip
         else vmread s vm_guest_rip + vmread s vm_exit_instructionlength)"

definition saved_flags :: "ULONG \<Rightarrow> machine \<Rightarrow> UINT64" where
  "saved_flags TScause s =
     (let fl = vmread s vm_guest_rflags in if TScause = TS_IRET then unset_bit 14 fl else fl)"

text \<open>The fields that are stored, with their offset in \<^verbatim>\<open>TSS\<close>, in the order of the code.\<close>

definition saved_fields :: "ULONG \<Rightarrow> machine \<Rightarrow> (nat \<times> BYTE list) list" where
  "saved_fields TScause s =
     (let r = regs s in
      [(40, le_bytes 4 (rax r)), (44, le_bytes 4 (rcx r)), (48, le_bytes 4 (rdx r)),
       (52, le_bytes 4 (rbx r)), (60, le_bytes 4 (rbp r)), (64, le_bytes 4 (rsi r)),
       (68, le_bytes 4 (rdi r)),
       (72, le_bytes 2 (vmread s vm_guest_es)), (76, le_bytes 2 (vmread s vm_guest_cs)),
       (80, le_bytes 2 (vmread s vm_guest_ss)), (84, le_bytes 2 (vmread s vm_guest_ds)),
       (88, le_bytes 2 (vmread s vm_guest_fs)), (92, le_bytes 2 (vmread s vm_guest_gs)),
       (56, le_bytes 4 (vmread s vm_guest_rsp)), (32, le_bytes 4 (resume_rip TScause s)),
       (36, le_bytes 4 (saved_flags TScause s))])"

fun store_fields :: "UINT64 \<Rightarrow> (nat \<times> BYTE list) list \<Rightarrow> pmem \<Rightarrow> pmem" where
  "store_fields t [] m = m"
| "store_fields t ((off, bs) # fs) m = store_fields t fs (put_bytes m (t + of_nat off) bs)"

definition save_task :: "UINT64 \<Rightarrow> ULONG \<Rightarrow> machine \<Rightarrow> machine" where
  "save_task oldTSS TScause s = s\<lparr>mem := store_fields oldTSS (saved_fields TScause s) (mem s)\<rparr>"

definition link_task :: "UINT64 \<Rightarrow> ULONG \<Rightarrow> ULONG \<Rightarrow> machine \<Rightarrow> machine" where
  "link_task newTSS TScause oldTSSselector s =
     (if TScause = TS_CALL \<or> TScause = TS_GATE
      then s\<lparr>mem := put_bytes (mem s) newTSS (le_bytes 2 oldTSSselector)\<rparr> else s)"

definition task_registers :: "pmem \<Rightarrow> UINT64 \<Rightarrow> VMRegisters \<Rightarrow> VMRegisters" where
  "task_registers m t r = r\<lparr>rax := ucast (tss32 m t 40), rcx := ucast (tss32 m t 44),
     rdx := ucast (tss32 m t 48), rbx := ucast (tss32 m t 52), rbp := ucast (tss32 m t 60),
     rsi := ucast (tss32 m t 64), rdi := ucast (tss32 m t 68)\<rparr>"

text \<open>ES to GS and LDT, by their index in the VMCS; the selector is read again for every pass.\<close>

definition task_selectors :: "pmem \<Rightarrow> UINT64 \<Rightarrow> (nat \<times> ULONG) list" where
  "task_selectors m t = map (\<lambda>i. (i, tss16 m t (72 + 4 * i))) [0..<7]"

fun mark_task :: "dtable \<Rightarrow> dtable \<Rightarrow> UINT64 \<Rightarrow> nat list \<Rightarrow> machine \<Rightarrow> machine option" where
  "mark_task gdt ldt t [] s = Some s"
| "mark_task gdt ldt t (i # is) s = do {
     m \<leftarrow> setDescriptorAccessedFlag gdt ldt (tss16 (mem s) t (72 + 4 * i)) (mem s);
     mark_task gdt ldt t is (s\<lparr>mem := m\<rparr>) }"

section \<open>The busy flag\<close>

definition entry_Type :: "UINT64 \<Rightarrow> UINT64" where
  "entry_Type e = take_bit 4 (drop_bit 40 e)"

definition set_Type :: "UINT64 \<times> nat \<Rightarrow> ULONG \<Rightarrow> UINT64 \<Rightarrow> pmem \<Rightarrow> pmem option" where
  "set_Type t idx v m = do {
     e \<leftarrow> dt_entry m t idx;
     Some (put_bytes m (fst t + of_nat (8 * unat idx)) (le_bytes 8 (put_field 40 4 v e))) }"

text \<open>The tests and the two stores; \<open>Some None\<close> is the refusal, with nothing stored.\<close>

definition switch_busy :: "UINT64 \<times> nat \<Rightarrow> ULONG \<Rightarrow> ULONG \<Rightarrow> ULONG \<Rightarrow> pmem \<Rightarrow> pmem option option" where
  "switch_busy gdt TScause oldentry newentry m = do {
     new \<leftarrow> dt_entry m gdt newentry;
     if entry_Type new = 0xb \<and> TScause \<noteq> TS_IRET then Some None
     else if TScause = TS_IRET \<or> TScause = TS_JMP then do {
       m1 \<leftarrow> set_Type gdt oldentry 9 m;
       m2 \<leftarrow> set_Type gdt newentry 0xb m1;
       Some (Some m2) }
     else do {
       old \<leftarrow> dt_entry m gdt oldentry;
       if entry_Type old \<noteq> 0xb then Some None
       else do {
         m1 \<leftarrow> set_Type gdt oldentry 0xb m;
         m2 \<leftarrow> set_Type gdt newentry 0xb m1;
         Some (Some m2) } } }"

section \<open>The switch\<close>

definition task_ldt :: "UINT64 \<times> nat \<Rightarrow> ULONG \<Rightarrow> machine \<Rightarrow> dtable option" where
  "task_ldt gdt LDTss s =
     (if LDTss = 0 then Some None
      else do {
        e \<leftarrow> dt_entry (mem s) gdt (drop_bit 3 LDTss);
        l \<leftarrow> phys_or_0 s (ucast (segment_base32 e));
        Some (phys_table l) })"

definition load_segments ::
  "UINT64 \<times> nat \<Rightarrow> UINT64 \<Rightarrow> ULONG \<Rightarrow> UINT64 \<Rightarrow> ULONG \<Rightarrow> machine \<Rightarrow> machine option" where
  "load_segments gdt newTSS newTSSselector newTSSaddress newsize s = do {
     s1 \<leftarrow> segment_pass (\<lambda>m sel. Some sel) 0x800 (task_selectors (mem s) newTSS) s;
     (let s2 = vmwrite vm_guest_tr (ucast newTSSselector) s1 in do {
        ldt \<leftarrow> task_ldt gdt (tss16 (mem s2) newTSS 96) s2;
        s3 \<leftarrow> segment_pass (\<lambda>m. getSegmentLimit m (Some gdt) ldt) 0x4800 (task_selectors (mem s2) newTSS) s2;
        (let s4 = vmwrite vm_guest_tr_limit (ucast newsize) s3 in do {
           s5 \<leftarrow> segment_pass (\<lambda>m. getSegmentBase m (Some gdt) ldt) 0x6806 (task_selectors (mem s4) newTSS) s4;
           (let s6 = vmwrite vm_guest_tr_base newTSSaddress s5 in do {
              s7 \<leftarrow> mark_task (Some gdt) ldt newTSS [0..<7] s6;
              m \<leftarrow> setDescriptorAccessedFlag (Some gdt) ldt newTSSselector (mem s7);
              (let s8 = s7\<lparr>mem := m\<rparr> in do {
                 s9 \<leftarrow> segment_pass (\<lambda>m. getSegmentAccessRights m (Some gdt) ldt) 0x4814
                         (task_selectors (mem s8) newTSS) s8;
                 ar \<leftarrow> getSegmentAccessRights (mem s9) (Some gdt) ldt newTSSselector;
                 Some (vmwrite vm_guest_tr_access_rights (ucast ar) s9) }) }) }) }) }"

definition loaded_flags :: "ULONG \<Rightarrow> ULONG \<Rightarrow> UINT64" where
  "loaded_flags TScause EFLAGS =
     set_bit 16 (if TScause = TS_CALL \<or> TScause = TS_GATE then set_bit 14 (ucast EFLAGS) else ucast EFLAGS)"

definition clear_local_breakpoints :: "UINT64 \<Rightarrow> UINT64" where
  "clear_local_breakpoints dr7 = unset_bit 8 (unset_bit 6 (unset_bit 4 (unset_bit 2 (unset_bit 0 dr7))))"

definition enter_task :: "UINT64 \<Rightarrow> ULONG \<Rightarrow> machine \<Rightarrow> machine option" where
  "enter_task newTSS TScause s =
     (let m = mem s;
          s1 = vmwrite vm_guest_rflags (loaded_flags TScause (tss32 m newTSS 36)) s;
          s2 = vmwrite vm_guest_rip (ucast (tss32 m newTSS 32)) s1;
          s3 = vmwrite vm_guest_rsp (ucast (tss32 m newTSS 56)) s2;
          s4 = s3\<lparr>cpu := (cpu s3)\<lparr>guestCR3 := ucast (tss32 m newTSS 28)\<rparr>\<rparr>
      in do {
        s5 \<leftarrow> (if vmread s4 vm_cr0_fakeread AND 0x80000001 = 0x80000001 then emulatePaging s4 else Some s4);
        (let s6 = vmwrite vm_cr0_fakeread (vmread s5 vm_cr0_fakeread OR 8) s5;
             s7 = vmwrite vm_guest_cr0 (vmread s6 vm_guest_cr0 OR 8) s6
         in Some (vmwrite vm_guest_dr7 (clear_local_breakpoints (vmread s7 vm_guest_dr7)) s7)) })"

definition handleTaskswitch :: "machine \<Rightarrow> (int \<times> machine) option" where
  "handleTaskswitch s =
     (let exitqualification = ucast (vmread s vm_exit_qualification) :: ULONG;
          TScause = drop_bit 30 exitqualification;
          newTSSselector = take_bit 16 exitqualification;
          oldTSSselector = ucast (vmread s vm_guest_tr) :: ULONG
      in do {
        g \<leftarrow> phys_or_0 s (vmread s vm_guest_gdtr_base);
        (let gdt = the (phys_table g); newentry = drop_bit 3 newTSSselector in do {
           busy \<leftarrow> switch_busy gdt TScause (drop_bit 3 oldTSSselector) newentry (mem s);
           case busy of
             None \<Rightarrow> Some (1, s)
           | Some m \<Rightarrow> (let s1 = s\<lparr>mem := m\<rparr> in do {
               e \<leftarrow> dt_entry m gdt newentry;
               (let newTSSaddress = scast (segment_base32 e) in do {
                  oldTSS \<leftarrow> phys_or_0 s1 (vmread s1 vm_guest_tr_base);
                  newTSS \<leftarrow> phys_or_0 s1 newTSSaddress;
                  (let s2 = link_task newTSS TScause oldTSSselector (save_task oldTSS TScause s1);
                       s3 = s2\<lparr>regs := task_registers (mem s2) newTSS (regs s2)\<rparr>
                   in do {
                     s4 \<leftarrow> load_segments gdt newTSS newTSSselector newTSSaddress (Limit_field e) s3;
                     s5 \<leftarrow> enter_task newTSS TScause s4;
                     Some (0, s5) }) }) }) }) })"

section \<open>Back to real mode\<close>

text \<open>The access rights byte of a real-mode segment: type 3, code or data, DPL 3, present.\<close>

definition realmode_rights :: UINT64 where
  "realmode_rights = 0xf3"

definition returnToRealmode :: "machine \<Rightarrow> machine" where
  "returnToRealmode s =
     (if ISREALMODE s then
        (let s1 = fold (\<lambda>i. vmwrite (0x4814 + 2 * i) realmode_rights) [0..<6] s;
             s2 = fold (\<lambda>i. vmwrite (0x4800 + 2 * i) 0xffff) [0..<6] s1;
             s3 = fold (\<lambda>i t. vmwrite (0x800 + 2 * i) (drop_bit 4 (vmread t (0x6806 + 2 * i))) t) [0..<6] s2
         in vmwrite vm_guest_rflags
              (put_field 9 1 (ucast (hasIF (cpu s))) (put_field 12 2 3 (unset_bit 16
                (unset_bit 8 (set_bit 17 (vmread s vm_guest_rflags)))))) s3)
      else s)"

section \<open>What is saved is loaded again\<close>

lemma put_bytes_at:
  assumes "o' < 1024" "q < 1024" "length bs \<le> 8"
  shows "put_bytes m (t + of_nat o') bs (t + of_nat q) =
    (if o' \<le> q \<and> q < o' + length bs then bs ! (q - o') else m (t + of_nat q))"
proof -
  have "t + of_nat q - (t + of_nat o') = (of_nat q - of_nat o' :: UINT64)" by simp
  moreover have "unat (of_nat q - of_nat o' :: UINT64) = (if o' \<le> q then q - o' else q + 2 ^ 64 - o')"
    using assms by (simp add: unat_sub_if' unat_of_nat)
  ultimately show ?thesis using assms by (auto simp: put_bytes_def Let_def)
qed

lemma tss32_bytes: "tss32 m t q = le_word (map (\<lambda>j. m (t + of_nat (q + j))) [0..<4])"
  by (simp add: tss32_def rd32_def add.assoc del: upt_4_8)

definition apart_from :: "nat \<Rightarrow> nat \<times> BYTE list \<Rightarrow> bool" where
  "apart_from q f \<longleftrightarrow> q + 4 \<le> fst f \<or> fst f + length (snd f) \<le> q"

lemma tss32_put_other:
  assumes "o' < 1000" "q < 1000" "length bs \<le> 8" "apart_from q (o', bs)"
  shows "tss32 (put_bytes m (t + of_nat o') bs) t q = tss32 m t q"
  unfolding tss32_bytes
  by (rule arg_cong [where f = le_word], rule map_cong [OF refl])
    (use assms in \<open>auto simp: put_bytes_at apart_from_def simp del: of_nat_add upt_4_8\<close>)

lemma bit_tss32: "k < 32 \<Longrightarrow> bit (tss32 m t q) k = bit (m (t + of_nat (q + k div 8))) (k mod 8)"
  unfolding tss32_bytes by (subst bit_le_word) (auto simp del: upt_4_8 of_nat_add)

lemma bit_tss32_put:
  assumes "q < 1000" "k < 8 * n" "n \<le> 4"
  shows "bit (tss32 (put_bytes m (t + of_nat q) (le_bytes n (v :: UINT64))) t q) k = bit v k"
proof -
  have "k div 8 < n" "k < 32" using assms by auto
  moreover from this have "put_bytes m (t + of_nat q) (le_bytes n v) (t + of_nat (q + k div 8)) = ucast (drop_bit (8 * (k div 8)) v)"
    using assms by (subst put_bytes_at) (simp_all add: nth_le_bytes)
  moreover have "8 * (k div 8) + k mod 8 = k" by simp
  ultimately show ?thesis by (simp add: bit_tss32 bit_simps del: of_nat_add)
qed

lemma tss32_put:
  assumes "q < 1000"
  shows "tss32 (put_bytes m (t + of_nat q) (le_bytes 4 (v :: UINT64))) t q = ucast v"
    and "tss16 (put_bytes m (t + of_nat q) (le_bytes 2 v)) t q = take_bit 16 (ucast v)"
  by (rule bit_word_eqI; use assms in \<open>auto simp: tss16_def bit_simps bit_tss32_put\<close>)+

lemma store_fields_other:
  assumes "\<forall>f\<in>set fs. apart_from q f \<and> fst f < 1000 \<and> length (snd f) \<le> 8" "q < 1000"
  shows "tss32 (store_fields t fs m) t q = tss32 m t q"
  using assms by (induction t fs m rule: store_fields.induct) (auto simp: tss32_put_other)

text \<open>A list of fields that do not overlap.\<close>

fun separate :: "(nat \<times> BYTE list) list \<Rightarrow> bool" where
  "separate [] = True"
| "separate ((off, bs) # fs) \<longleftrightarrow> off < 1000 \<and> length bs \<le> 4
     \<and> (\<forall>f\<in>set fs. fst f \<ge> off + 4 \<or> fst f + 4 \<le> off) \<and> separate fs"

lemma separate_bounds: "separate fs \<Longrightarrow> f \<in> set fs \<Longrightarrow> fst f < 1000 \<and> length (snd f) \<le> 4"
  by (induction fs rule: separate.induct) auto

lemma separate_head:
  assumes "separate ((q, bs) # fs)"
  shows "tss32 (store_fields t fs m) t q = tss32 m t q"
  using assms separate_bounds [of fs] by (intro store_fields_other) (force simp: apart_from_def)+

lemma store_fields_same:
  assumes "separate fs"
  shows "(q, le_bytes 4 (v :: UINT64)) \<in> set fs \<Longrightarrow> tss32 (store_fields t fs m) t q = ucast v"
    and "(q, le_bytes 2 v) \<in> set fs \<Longrightarrow> tss16 (store_fields t fs m) t q = take_bit 16 (ucast v)"
proof -
  show "tss32 (store_fields t fs m) t q = ucast v" if "(q, le_bytes 4 v) \<in> set fs"
    using assms that
  proof (induction t fs m rule: store_fields.induct)
    case (2 t off bs fs m)
    then show ?case using separate_head [OF 2(2)] by (auto simp: tss32_put(1))
  qed simp
  show "tss16 (store_fields t fs m) t q = take_bit 16 (ucast v)" if "(q, le_bytes 2 v) \<in> set fs"
    using assms that
  proof (induction t fs m rule: store_fields.induct)
    case (2 t off bs fs m)
    then show ?case using separate_head [OF 2(2)] by (auto simp: tss16_def tss32_put(2) [unfolded tss16_def])
  qed simp
qed

lemma saved_fields_separate: "separate (saved_fields c s)"
  by (simp add: saved_fields_def Let_def)

lemmas saved_field = store_fields_same [OF saved_fields_separate]


end
