(* ===== verification/RM_Access.thy ===== *)
theory RM_Access
  imports RM_Opcodes
begin

text \<open>
  The way an opcode function of \<^verbatim>\<open>realmodeemu.c\<close> reaches a memory operand, as two lemmas:
  \<open>guest_store\<close> for \<^verbatim>\<open>mapVMmemory\<close> followed by a store, \<open>guest_load\<close> for one
  followed by a load. They say when the access succeeds and what it does to the machine.
\<close>

unbundle bit_operations_syntax

section \<open>Memory operands\<close>

text \<open>
  How the opcode functions reach guest memory: one \<^verbatim>\<open>mapVMmemory\<close> followed by a store or a
  load through the window. Only memory and the bookkeeping of the virtual TLB change.
\<close>

definition same_guest :: "machine \<Rightarrow> machine \<Rightarrow> bool" where
  "same_guest s t \<longleftrightarrow> vmcs t = vmcs s \<and> regs t = regs s \<and> isAMD t = isAMD s
     \<and> vmmstart t = vmmstart s \<and> irqs t = irqs s
     \<and> (cpu t)\<lparr>virtualTLB_FreeSpot := 0, virtualTLB_whiped := 0\<rparr>
       = (cpu s)\<lparr>virtualTLB_FreeSpot := 0, virtualTLB_whiped := 0\<rparr>"

lemma same_guest_refl [simp]: "same_guest s s"
  by (simp add: same_guest_def)

lemma same_guest_trans: "same_guest s t \<Longrightarrow> same_guest t u \<Longrightarrow> same_guest s u"
  by (simp add: same_guest_def)

lemma same_guest_mem [simp]: "same_guest s (t\<lparr>mem := m\<rparr>) \<longleftrightarrow> same_guest s t"
  by (simp add: same_guest_def)

lemma same_guest_fields:
  assumes "same_guest s t"
  shows "vmcs t = vmcs s" "regs t = regs s" "isAMD t = isAMD s" "vmmstart t = vmmstart s"
    "irqs t = irqs s" "guestCR3 (cpu t) = guestCR3 (cpu s)" "vmcb_CR0 (cpu t) = vmcb_CR0 (cpu s)"
    "vmcb_CR3 (cpu t) = vmcb_CR3 (cpu s)" "vmcb_CR4 (cpu t) = vmcb_CR4 (cpu s)"
    "vmcb_EFER (cpu t) = vmcb_EFER (cpu s)" "virtualTLB (cpu t) = virtualTLB (cpu s)"
    "virtualTLB_Max (cpu t) = virtualTLB_Max (cpu s)"
    "RealMode_IDTBase (cpu t) = RealMode_IDTBase (cpu s)"
proof -
  show "vmcs t = vmcs s" "regs t = regs s" "isAMD t = isAMD s" "vmmstart t = vmmstart s"
    "irqs t = irqs s" using assms by (simp_all add: same_guest_def)
  have eq: "f ((cpu t)\<lparr>virtualTLB_FreeSpot := 0, virtualTLB_whiped := 0\<rparr>)
      = f ((cpu s)\<lparr>virtualTLB_FreeSpot := 0, virtualTLB_whiped := 0\<rparr>)" for f :: "cpuinfo \<Rightarrow> 'b"
    using assms by (simp add: same_guest_def)
  show "guestCR3 (cpu t) = guestCR3 (cpu s)" "vmcb_CR0 (cpu t) = vmcb_CR0 (cpu s)"
    "vmcb_CR3 (cpu t) = vmcb_CR3 (cpu s)" "vmcb_CR4 (cpu t) = vmcb_CR4 (cpu s)"
    "vmcb_EFER (cpu t) = vmcb_EFER (cpu s)" "virtualTLB (cpu t) = virtualTLB (cpu s)"
    "virtualTLB_Max (cpu t) = virtualTLB_Max (cpu s)"
    "RealMode_IDTBase (cpu t) = RealMode_IDTBase (cpu s)"
    using eq [of guestCR3] eq [of vmcb_CR0] eq [of vmcb_CR3] eq [of vmcb_CR4]
      eq [of vmcb_EFER] eq [of virtualTLB] eq [of virtualTLB_Max] eq [of RealMode_IDTBase]
    by simp_all
qed

lemma mapVMmemory_same:
  assumes "mapVMmemory s a sz = Some (e, pf, w, t)"
  shows "same_guest s t"
  using assms by (auto simp: mapVMmemory_def same_guest_def Let_def split: if_splits option.splits)

lemma same_guest_vmread: "same_guest s t \<Longrightarrow> vmread t f = vmread s f"
  by (simp add: same_guest_def vmread_def)

lemma same_guest_tlb: "same_guest s t \<Longrightarrow> tlb_ready t = tlb_ready s"
  by (simp add: same_guest_fields tlb_ready_def)

lemma same_guest_translate:
  assumes "same_guest s t"
  shows "getPhysicalAddressVM (t\<lparr>mem := m\<rparr>) = getPhysicalAddressVM (s\<lparr>mem := m\<rparr>)"
  using assms by (intro getPhysicalAddressVM_cong) (simp_all add: same_guest_fields)

lemma translate_mem_self: "getPhysicalAddressVM (s\<lparr>mem := mem s\<rparr>) = getPhysicalAddressVM s"
  by simp

text \<open>Fields the page walk does not read.\<close>

definition walk_fields :: "nat set" where
  "walk_fields = {vm_cr0_fakeread, vm_guest_cr3, vm_guest_cr4, vm_entry_controls}"

lemma translate_vmwrite [simp]:
  "f \<notin> walk_fields \<Longrightarrow> getPhysicalAddressVM (vmwrite f v s) = getPhysicalAddressVM s"
  by (rule ext) (auto simp: getPhysicalAddressVM_def IS64BITPAGING_def walk_fields_def Let_def)

lemma translate_regs [simp]: "getPhysicalAddressVM (s\<lparr>regs := r\<rparr>) = getPhysicalAddressVM s"
  by (rule getPhysicalAddressVM_cong) simp_all

lemma mem_vmwrite_swap: "(vmwrite f v s)\<lparr>mem := m\<rparr> = vmwrite f v (s\<lparr>mem := m\<rparr>)"
  by (simp add: vmwrite_def)

lemma access_cong:
  assumes "getPhysicalAddressVM t = getPhysicalAddressVM s"
  shows "guest_mapped t a n = guest_mapped s a n"
    and "mem t = mem s \<Longrightarrow> guest_byte t a = guest_byte s a"
  using assms by (simp_all add: guest_mapped_def guest_byte_def cong: option.case_cong)

lemma apart_cong:
  assumes "\<And>m. getPhysicalAddressVM (t\<lparr>mem := m\<rparr>) = getPhysicalAddressVM (s\<lparr>mem := m\<rparr>)"
    and "mem t = mem s"
  shows "tables_apart t a n = tables_apart s a n"
proof -
  have "getPhysicalAddressVM t = getPhysicalAddressVM s"
    using assms(1) [of "mem s"] assms(2) by (metis translate_mem_self)
  with assms show ?thesis by (simp add: tables_apart_def)
qed

text \<open>A store to a mapped range, and what a later load of that range finds.\<close>

lemma guest_store:
  assumes "tlb_ready s" "guest_mapped s a n" "tables_apart s a n" "0 < n" "n \<le> 4096"
    and "length bs = n"
  shows "\<exists>w t u. mapVMmemory s a (int n) = Some (0, 0, w, t) \<and> store w 0 bs t = Some u
    \<and> same_guest s t \<and> same_guest s u
    \<and> guest_mapped u a n \<and> (\<forall>k < n. guest_byte u (a + of_nat k) = Some (bs ! k))"
proof -
  have n': "n \<le> 0x1ff000" using assms(5) by simp
  obtain w t where ok: "mapVMmemory s a (int n) = Some (0, 0, w, t)"
    using mapVMmemory_total [OF assms(1,2,4) n'] by blast
  have "\<exists>m'. win_write (mem t) w 0 bs = Some m'"
    using mapVMmemory_bytes(2) [OF ok assms(2) n'] assms(6) by (intro win_write_total) simp
  then obtain m where wr: "win_write (mem t) w 0 bs = Some m" by blast
  note same = mapVMmemory_same [OF ok]
  note rd = guest_write_read [OF ok assms(2,3,6,5) wr]
  have tr: "getPhysicalAddressVM (t\<lparr>mem := m\<rparr>) = getPhysicalAddressVM (s\<lparr>mem := m\<rparr>)"
    using same by (rule same_guest_translate)
  have "guest_mapped (s\<lparr>mem := m\<rparr>) a n"
    using assms(2) rd(1) by (simp add: guest_mapped_def)
  then have "guest_mapped (t\<lparr>mem := m\<rparr>) a n"
    by (simp add: access_cong(1) [OF tr])
  moreover have "guest_byte (t\<lparr>mem := m\<rparr>) (a + of_nat k) = Some (bs ! k)" if "k < n" for k
    using rd(2) [OF that] by (simp add: access_cong(2) [OF tr])
  ultimately show ?thesis
    using ok wr same by (auto simp: store_def)
qed

lemma guest_load:
  assumes "tlb_ready s" "guest_mapped s a n" "0 < n" "n \<le> 4096" "length bs = n"
    and "\<forall>k < n. guest_byte s (a + of_nat k) = Some (bs ! k)"
  shows "\<exists>w t. mapVMmemory s a (int n) = Some (0, 0, w, t)
    \<and> win_read (mem t) w 0 n = Some bs \<and> same_guest s t \<and> mem t = mem s"
proof -
  have n': "n \<le> 0x1ff000" using assms(4) by simp
  obtain w t where ok: "mapVMmemory s a (int n) = Some (0, 0, w, t)"
    using mapVMmemory_total [OF assms(1,2,3) n'] by blast
  moreover have "win_read (mem t) w 0 n = Some bs"
    using win_read_guest [OF ok assms(2) n' _ assms(5)] assms(6) by simp
  ultimately show ?thesis using mapVMmemory_same [OF ok] mapVMmemory_state(2) [OF ok] by blast
qed

end
