(* ===== verification/RM_Emulator.thy ===== *)
theory RM_Emulator
  imports RM_Data
begin

text \<open>
  Fetch, prefixes, dispatch and the main loop of the real-mode emulator,
  \<^verbatim>\<open>dbvm/vmm/realmodeemu.c\<close>, as built without \<^verbatim>\<open>DEBUG\<close> and \<^verbatim>\<open>RMEMUONLYONE\<close>
  (the debug build adds an interactive prompt around the same calls).
\<close>

unbundle bit_operations_syntax

section \<open>Prefixes\<close>

definition is_prefix :: "BYTE \<Rightarrow> bool" where
  "is_prefix b = (b \<in> {0x26, 0x2e, 0x36, 0x3e, 0x64, 0x65, 0x66, 0x67, 0xf0, 0xf2, 0xf3})"

definition apply_prefix :: "machine \<Rightarrow> BYTE \<Rightarrow> INSTRUCTIONDATA \<Rightarrow> INSTRUCTIONDATA" where
  "apply_prefix s b i =
     (if b = 0x26 then i\<lparr>id_segmentbase := vmread s vm_guest_es_base\<rparr>
      else if b = 0x2e then i\<lparr>id_segmentbase := vmread s vm_guest_cs_base\<rparr>
      else if b = 0x36 then i\<lparr>id_segmentbase := vmread s vm_guest_ss_base\<rparr>
      else if b = 0x3e then i\<lparr>id_segmentbase := vmread s vm_guest_ds_base\<rparr>
      else if b = 0x64 then i\<lparr>id_segmentbase := vmread s vm_guest_fs_base\<rparr>
      else if b = 0x65 then i\<lparr>id_segmentbase := vmread s vm_guest_gs_base\<rparr>
      else if b = 0x66 then i\<lparr>id_opperandsize := True\<rparr>
      else if b = 0x67 then i\<lparr>id_addresssize := True\<rparr>
      else if b = 0xf0 then i\<lparr>id_lock := True\<rparr>
      else if b = 0xf2 then i\<lparr>id_repne := True\<rparr>
      else if b = 0xf3 then i\<lparr>id_rep := True\<rparr>
      else i)"

text \<open>The loop \<^verbatim>\<open>while (i<30)\<close> over the bytes that could be read.\<close>

fun skip_prefixes ::
  "machine \<Rightarrow> BYTE list \<Rightarrow> nat \<Rightarrow> INSTRUCTIONDATA \<Rightarrow> nat \<times> INSTRUCTIONDATA" where
  "skip_prefixes s [] n i = (n, i)"
| "skip_prefixes s (b # bs) n i =
     (if is_prefix b then skip_prefixes s bs (Suc n) (apply_prefix s b i) else (n, i))"

section \<open>Dispatch\<close>

text \<open>The two-byte opcodes; \<open>b\<close> is \<^verbatim>\<open>buf[i+1]\<close>.\<close>

definition dispatch_0F :: "cr_handlers \<Rightarrow> BYTE \<Rightarrow> INSTRUCTIONDATA \<Rightarrow> machine \<Rightarrow> opresult" where
  "dispatch_0F cr b i s =
     (if b = 0x01 then do {
        n \<leftarrow> getOpperand i;
        (if n = 2 then opcode_LGDT i s
         else if n = 3 then opcode_LIDT i s
         else if n = 6 then opcode_LMSW cr i s
         else Some (1, i, s)) }
      else if b = 0x09 then Some (0, i, s)
      else if b = 0x20 then opcode_MOV0F20 i s
      else if b = 0x22 then opcode_MOV0F22 cr i s
      else if b = 0xa0 then opcode_PUSHSegment 4 i s
      else if b = 0xa1 then opcode_POPSegment 4 i s
      else if b = 0xa8 then opcode_PUSHSegment 5 i s
      else if b = 0xa9 then opcode_POPSegment 5 i s
      else Some (1, i, s))"

definition dispatch :: "cr_handlers \<Rightarrow> BYTE \<Rightarrow> INSTRUCTIONDATA \<Rightarrow> machine \<Rightarrow> opresult" where
  "dispatch cr b i s =
     (if b = 0x0f then do {
        b2 \<leftarrow> insn8 i (id_size i);
        dispatch_0F cr b2 (i\<lparr>id_size := id_size i + 1\<rparr>) s }
      else if b = 0x06 then opcode_PUSHSegment 0 i s
      else if b = 0x07 then opcode_POPSegment 0 i s
      else if b = 0x0e then opcode_PUSHSegment 1 i s
      else if b = 0x16 then opcode_PUSHSegment 2 i s
      else if b = 0x17 then opcode_POPSegment 2 i s
      else if b = 0x1e then opcode_PUSHSegment 3 i s
      else if b = 0x1f then opcode_POPSegment 3 i s
      else if b = 0x31 then opcode_XOR31 i s
      else if 0x50 \<le> b \<and> b \<le> 0x57 then opcode_PUSH50to57 (unat b - 0x50) i s
      else if 0x58 \<le> b \<and> b \<le> 0x5f then opcode_POP58to5F (unat b - 0x58) i s
      else if b = 0x68 then opcode_PUSH68 i s
      else if b = 0x8b then opcode_MOV8B i s
      else if b = 0x8e then opcode_MOV8E i s
      else if b = 0x90 then Some (0, i, s)
      else if b = 0xa5 then opcode_MOVSA5 i s
      else if 0xb0 \<le> b \<and> b \<le> 0xb7 then opcode_MOVB0toB7 (unat b - 0xb0) i s
      else if 0xb8 \<le> b \<and> b \<le> 0xbf then opcode_MOVB8toBF (unat b - 0xb8) i s
      else if b = 0xc3 then opcode_RETC3 i s
      else if b = 0xc6 then do {
        n \<leftarrow> getOpperand i;
        (if n = 0 then opcode_MOVC6 i s else Some (1, i, s)) }
      else if b = 0xc7 then do {
        n \<leftarrow> getOpperand i;
        (if n = 0 then opcode_MOVC7 i s else Some (1, i, s)) }
      else if b = 0xcd then opcode_INTCD i s
      else if b = 0xe8 then opcode_CALLE8 i s
      else if b = 0xe9 then opcode_JMPE9 i s
      else if b = 0xea then opcode_JMPEA i s
      else if b = 0xeb then opcode_JMPEB i s
      else if b = 0xf4 then opcode_HLTF4 i s
      else if b = 0xfa then opcode_CLI i s
      else if b = 0xfb then opcode_STI i s
      else if b = 0xfc then opcode_CLD i s
      else Some (1, i, s))"

definition emulateRMinstruction2 ::
  "cr_handlers \<Rightarrow> INSTRUCTIONDATA \<Rightarrow> machine \<Rightarrow> opresult" where
  "emulateRMinstruction2 cr i s = do {
     buf \<leftarrow> ReadVMMemory s (vmread s vm_guest_cs_base + vmread s vm_guest_rip) 30;
     (if buf = [] then Some (1, i, s)
      else
        (let (n, i1) = skip_prefixes s buf 0 (i\<lparr>id_segmentbase := vmread s vm_guest_ds_base\<rparr>);
             i2 = i1\<lparr>id_size := n + 1, id_instruction := buf\<rparr>
         in do {
           b \<leftarrow> insn8 i2 n;
           dispatch cr b i2 s })) }"

section \<open>One instruction\<close>

definition zero_id :: INSTRUCTIONDATA where
  "zero_id = \<lparr>id_error = False, id_opperandsize = False, id_addresssize = False,
     id_rep = False, id_repne = False, id_segmentbase = 0, id_address = 0, id_lock = False,
     id_instruction = [], id_opperand = 0, id_opperand2 = None, id_size = 0\<rparr>"

text \<open>
  The result is \<^verbatim>\<open>result==0\<close>: whether the instruction was emulated. The blocking state that
  was in force before the instruction ends with it; one the instruction sets stays.
\<close>

definition clear_old_blocking :: "UINT64 \<Rightarrow> machine \<Rightarrow> machine" where
  "clear_old_blocking old s = vmwrite vm_guest_interruptability_state
     (ucast (NOT (ucast old AND 3 :: DWORD)) AND vmread s vm_guest_interruptability_state) s"

definition emulateRMinstruction :: "cr_handlers \<Rightarrow> machine \<Rightarrow> (bool \<times> machine) option" where
  "emulateRMinstruction cr s =
     (let old = vmread s vm_guest_interruptability_state in do {
       (result, i1, s1) \<leftarrow> emulateRMinstruction2 cr zero_id s;
       (let s2 = (if result = 0
                  then vmwrite vm_guest_rip (vmread s1 vm_guest_rip + of_nat (id_size i1)) s1
                  else s1);
            handled = (result = 0 \<or> result = 2)
        in Some (handled, if handled then clear_old_blocking old s2 else s2)) })"

definition testRMinterrupt :: "machine \<Rightarrow> machine option" where
  "testRMinterrupt s =
     (if ISREALMODE s \<and> bit (vmread s vm_guest_rflags) 9
          \<and> vmread s vm_guest_interruptability_state = 0 then
        (case interrupt_window s of
           (None, s1) \<Rightarrow> Some s1
         | (Some n, s1) \<Rightarrow> emulateRMinterrupt (LastInterrupt (cpu s1)) s1)
      else Some s)"

section \<open>The main loop\<close>

text \<open>
  \<^verbatim>\<open>emulateRealMode\<close> runs until the guest has left real mode or an instruction was not
  emulated. It need not end; \<open>None\<close> is then its value.
\<close>

partial_function (option) emulateRealMode_loop ::
  "cr_handlers \<Rightarrow> bool \<Rightarrow> bool \<Rightarrow> machine \<Rightarrow> (bool \<times> machine) option" where
  "emulateRealMode_loop cr result success s =
     (if \<not> (ISREALMODE s \<and> result) then Some (success, s)
      else do {
        buf \<leftarrow> ReadVMMemory s (vmread s vm_guest_cs_base + vmread s vm_guest_rip) 30;
        (if buf = [] then Some (False, s)
         else do {
           (r, s1) \<leftarrow> emulateRMinstruction cr s;
           (if r then do {
              s2 \<leftarrow> testRMinterrupt s1;
              emulateRealMode_loop cr True True s2 }
            else emulateRealMode_loop cr False success s1) }) })"

definition emulateRealMode :: "cr_handlers \<Rightarrow> machine \<Rightarrow> (bool \<times> machine) option" where
  "emulateRealMode cr s = emulateRealMode_loop cr True False s"

end
