(* ===== verification/RM_Stack.thy ===== *)
theory RM_Stack
  imports RM_Access RM_Emulator
begin

text \<open>
  The stack operations of the real-mode emulator: PUSH and POP of a register are inverse
  (\<^verbatim>\<open>opcode_PUSH50to57\<close>, \<^verbatim>\<open>opcode_POP58to5F\<close>), and a near CALL is undone by RET
  (\<^verbatim>\<open>opcode_CALLE8\<close>, \<^verbatim>\<open>opcode_RETC3\<close>) up to what RET does with the code segment base.
  The hypotheses say that the stack slot is mapped, that the page tables do not lie in it,
  and that the virtual TLB has been allocated; then no step can fail.
\<close>

unbundle bit_operations_syntax

section \<open>The stack pointer\<close>

lemma ucast_ucast16: "ucast (ucast (x :: UINT64) :: WORD) = take_bit 16 x"
  by (rule bit_word_eqI) (auto simp: bit_simps)

lemma and_ffff: "(x :: UINT64) AND 0xffff = take_bit 16 x"
  by (simp add: take_bit_eq_mask mask_eq_exp_minus_1)

lemma ucast_add16: "(ucast (x + y :: UINT64) :: WORD) = ucast x + ucast y"
proof -
  have "take_bit 16 (i + j) = take_bit 16 (take_bit 64 i + take_bit 64 j)" for i j :: int
  proof -
    have "take_bit 16 (take_bit 64 i + take_bit 64 j)
        = take_bit 16 (take_bit 16 (take_bit 64 i) + take_bit 16 (take_bit 64 j))"
      by (simp only: take_bit_add)
    also have "\<dots> = take_bit 16 (take_bit 16 i + take_bit 16 j)"
      by (simp only: take_bit_take_bit)
    finally show ?thesis by (simp only: take_bit_add)
  qed
  then show ?thesis by transfer (simp add: take_bit_take_bit take_bit_add)
qed

lemma ucast_add32: "(ucast (x + y :: UINT64) :: DWORD) = ucast x + ucast y"
proof -
  have "take_bit 32 (i + j) = take_bit 32 (take_bit 64 i + take_bit 64 j)" for i j :: int
  proof -
    have "take_bit 32 (take_bit 64 i + take_bit 64 j)
        = take_bit 32 (take_bit 32 (take_bit 64 i) + take_bit 32 (take_bit 64 j))"
      by (simp only: take_bit_add)
    also have "\<dots> = take_bit 32 (take_bit 32 i + take_bit 32 j)"
      by (simp only: take_bit_take_bit)
    finally show ?thesis by (simp only: take_bit_add)
  qed
  then show ?thesis by transfer (simp add: take_bit_take_bit take_bit_add)
qed

lemma low16_join: "(x AND 0xffffffffffff0000) + take_bit 16 (x :: UINT64) = x"
proof -
  have "(x AND NOT (mask 16)) AND take_bit 16 x = 0"
    by (rule bit_word_eqI) (auto simp: bit_simps)
  then have "(x AND NOT (mask 16)) + take_bit 16 x = (x AND NOT (mask 16)) OR take_bit 16 x"
    by (rule and_zero_add_eq_or)
  also have "\<dots> = x" by (rule bit_word_eqI) (auto simp: bit_simps)
  finally show ?thesis by (simp add: not_masks_hex)
qed

lemma bump_sp_read:
  "ucast (vmread (bump_sp d s) vm_guest_rsp) = (ucast (vmread s vm_guest_rsp) + ucast d :: WORD)"
  "vmread (bump_sp d s) vm_guest_rsp AND 0xffffffffffff0000
    = vmread s vm_guest_rsp AND 0xffffffffffff0000"
  "f \<noteq> vm_guest_rsp \<Longrightarrow> vmread (bump_sp d s) f = vmread s f"
proof -
  show "ucast (vmread (bump_sp d s) vm_guest_rsp)
      = (ucast (vmread s vm_guest_rsp) + ucast d :: WORD)"
    by (simp add: bump_sp_def set_low16) (rule ucast_add16)
qed (simp_all add: bump_sp_def word_fields)

lemma bump_sp_fields [simp]:
  "regs (bump_sp d s) = regs s" "mem (bump_sp d s) = mem s" "cpu (bump_sp d s) = cpu s"
  "isAMD (bump_sp d s) = isAMD s"
  by (simp_all add: bump_sp_def)

text \<open>The stack pointer comes back, whatever it was.\<close>

lemma bump_sp_back:
  assumes "ucast d + ucast e = (0 :: WORD)"
    and "vmread t vm_guest_rsp = vmread (bump_sp d s) vm_guest_rsp"
  shows "vmread (bump_sp e t) vm_guest_rsp = vmread s vm_guest_rsp"
proof -
  have "vmread (bump_sp e t) vm_guest_rsp = (vmread t vm_guest_rsp AND 0xffffffffffff0000)
      + ucast (ucast (vmread t vm_guest_rsp) + ucast e :: WORD)"
    by (simp add: bump_sp_def ucast_add16)
  also have "\<dots> = (vmread s vm_guest_rsp AND 0xffffffffffff0000)
      + ucast (ucast (vmread s vm_guest_rsp) :: WORD)"
    using assms by (simp add: bump_sp_read add.assoc)
  finally show ?thesis by (simp add: ucast_ucast16 low16_join)
qed

lemma stack_top_alt: "stack_top s
    = vmread s vm_guest_ss_base + ucast (ucast (vmread s vm_guest_rsp) :: WORD)"
  by (simp add: stack_top_def and_ffff ucast_ucast16)

lemma stack_top_bump: "stack_top (bump_sp d s)
    = vmread s vm_guest_ss_base + ucast (ucast (vmread s vm_guest_rsp) + ucast d :: WORD)"
  by (simp add: stack_top_alt bump_sp_read)

lemma bump_sp_translate [simp]: "getPhysicalAddressVM (bump_sp d s) = getPhysicalAddressVM s"
  by (simp add: bump_sp_def walk_fields_def)

lemma bump_sp_tlb [simp]: "tlb_ready (bump_sp d s) = tlb_ready s"
  by (simp add: tlb_ready_def)

lemma bump_sp_access [simp]:
  "guest_mapped (bump_sp d s) a n = guest_mapped s a n"
  "tables_apart (bump_sp d s) a n = tables_apart s a n"
proof -
  show "guest_mapped (bump_sp d s) a n = guest_mapped s a n"
    by (rule access_cong) simp
  show "tables_apart (bump_sp d s) a n = tables_apart s a n"
    by (rule apart_cong) (simp_all add: bump_sp_def mem_vmwrite_swap walk_fields_def)
qed

lemma gpr_bump [simp]: "n \<noteq> 4 \<Longrightarrow> gpr (bump_sp d s) n = gpr s n"
  by (simp add: gpr_def Let_def)

lemma gpr_sp: "gpr s 4 = vmread s vm_guest_rsp"
  by (simp add: gpr_def)

lemma gpr_same: "same_guest s t \<Longrightarrow> gpr t n = gpr s n"
  by (simp add: gpr_def Let_def same_guest_fields same_guest_vmread)

section \<open>Push and pop\<close>

definition push_slot :: "machine \<Rightarrow> UINT64 \<Rightarrow> UINT64" where
  "push_slot s d = vmread s vm_guest_ss_base + ucast (ucast (vmread s vm_guest_rsp - d) :: WORD)"

definition slot_free :: "machine \<Rightarrow> UINT64 \<Rightarrow> nat \<Rightarrow> bool" where
  "slot_free s a n \<longleftrightarrow> tlb_ready s \<and> guest_mapped s a n \<and> tables_apart s a n"

definition holds :: "machine \<Rightarrow> UINT64 \<Rightarrow> BYTE list \<Rightarrow> bool" where
  "holds s a bs \<longleftrightarrow> tlb_ready s \<and> guest_mapped s a (length bs)
     \<and> (\<forall>k < length bs. guest_byte s (a + of_nat k) = Some (bs ! k))"

lemma slot_store:
  assumes "slot_free s a (length bs)" "0 < length bs" "length bs \<le> 4096"
  obtains w t u where "mapVMmemory s a (int (length bs)) = Some (0, 0, w, t)"
    "store w 0 bs t = Some u" "same_guest s t" "same_guest s u" "holds u a bs"
  using assms guest_store [of s a "length bs" bs] same_guest_tlb
  unfolding slot_free_def holds_def by blast

lemma slot_load:
  assumes "holds s a bs" "0 < length bs" "length bs \<le> 4096"
  obtains w t where "mapVMmemory s a (int (length bs)) = Some (0, 0, w, t)"
    "win_read (mem t) w 0 (length bs) = Some bs" "same_guest s t" "mem t = mem s"
  using assms guest_load [of s a "length bs" bs] unfolding holds_def by blast

lemma push_slot_top:
  "stack_top (bump_sp (-2) s) = push_slot s 2" "stack_top (bump_sp (-4) s) = push_slot s 4"
  using ucast_add16 [of "vmread s vm_guest_rsp" "-2"] ucast_add16 [of "vmread s vm_guest_rsp" "-4"]
  by (simp_all add: stack_top_bump push_slot_def)

lemma push16:
  assumes "\<not> id_opperandsize i" "slot_free s (push_slot s 2) 2"
  shows "\<exists>u. opcode_PUSH50to57 n i s = Some (0, i, u) \<and> same_guest (bump_sp (-2) s) u
    \<and> holds u (push_slot s 2) (le_bytes 2 (ucast (gpr s n) :: WORD))"
proof -
  let ?s = "bump_sp (-2) s" and ?v = "ucast (gpr s n) :: WORD"
  have free: "slot_free ?s (push_slot s 2) (length (le_bytes 2 ?v))"
    using assms(2) by (simp add: slot_free_def)
  obtain w t u where *: "mapVMmemory ?s (push_slot s 2) (int (length (le_bytes 2 ?v))) = Some (0, 0, w, t)"
    "store w 0 (le_bytes 2 ?v) t = Some u" "same_guest ?s t" "same_guest ?s u"
    "holds u (push_slot s 2) (le_bytes 2 ?v)"
    by (rule slot_store [OF free]) auto
  have v: "(if n = 4 then ucast (vmread t vm_guest_rsp) + 2 else ucast (gpr t n)) = ?v"
    using *(3) by (simp add: gpr_same gpr_sp same_guest_vmread bump_sp_read)
  show ?thesis
    using assms(1) * by (simp add: opcode_PUSH50to57_def push_slot_top v Let_def)
qed

lemma pop16:
  assumes "\<not> id_opperandsize i" "holds s (stack_top s) (le_bytes 2 (v :: WORD))"
  shows "\<exists>t. opcode_POP58to5F n i s = Some (0, i, bump_sp 2 (set_gpr16 n v t))
    \<and> same_guest s t \<and> mem t = mem s"
proof -
  obtain w t where "mapVMmemory s (stack_top s) (int (length (le_bytes 2 v))) = Some (0, 0, w, t)"
    "win_read (mem t) w 0 (length (le_bytes 2 v)) = Some (le_bytes 2 v)" "same_guest s t" "mem t = mem s"
    by (rule slot_load [OF assms(2)]) auto
  then show ?thesis
    using assms(1)
    by (intro exI [of _ t]) (simp add: opcode_POP58to5F_def load16_def le_word_le_bytes)
qed

lemma push32:
  assumes "id_opperandsize i" "slot_free s (push_slot s 4) 4"
  shows "\<exists>u. opcode_PUSH50to57 n i s = Some (0, i, u) \<and> same_guest (bump_sp (-4) s) u
    \<and> holds u (push_slot s 4)
        (le_bytes 4 (if n = 4 then ucast (vmread (bump_sp (-4) s) vm_guest_rsp) + 4
           else ucast (gpr s n) :: DWORD))"
proof -
  let ?s = "bump_sp (-4) s"
  let ?v = "if n = 4 then ucast (vmread ?s vm_guest_rsp) + 4 else ucast (gpr s n) :: DWORD"
  have free: "slot_free ?s (push_slot s 4) (length (le_bytes 4 ?v))"
    using assms(2) by (simp add: slot_free_def)
  obtain w t u where *: "mapVMmemory ?s (push_slot s 4) (int (length (le_bytes 4 ?v))) = Some (0, 0, w, t)"
    "store w 0 (le_bytes 4 ?v) t = Some u" "same_guest ?s t" "same_guest ?s u"
    "holds u (push_slot s 4) (le_bytes 4 ?v)"
    by (rule slot_store [OF free]) auto
  have v: "(if n = 4 then ucast (vmread t vm_guest_rsp) + 4 else ucast (gpr t n)) = ?v"
    using *(3) by (simp add: gpr_same same_guest_vmread)
  show ?thesis
    using assms(1) * unfolding opcode_PUSH50to57_def Let_def push_slot_top
    by (simp add: v del: if_split_asm)
qed

lemma pop32:
  assumes "id_opperandsize i" "holds s (stack_top s) (le_bytes 4 (v :: DWORD))"
  shows "\<exists>t. opcode_POP58to5F n i s = Some (0, i, bump_sp 4 (set_gpr32 n v t))
    \<and> same_guest s t \<and> mem t = mem s"
proof -
  obtain w t where "mapVMmemory s (stack_top s) (int (length (le_bytes 4 v))) = Some (0, 0, w, t)"
    "win_read (mem t) w 0 (length (le_bytes 4 v)) = Some (le_bytes 4 v)" "same_guest s t" "mem t = mem s"
    by (rule slot_load [OF assms(2)]) auto
  then show ?thesis
    using assms(1)
    by (intro exI [of _ t]) (simp add: opcode_POP58to5F_def load32_def le_word_le_bytes)
qed

lemma holds_stack:
  assumes "same_guest (bump_sp d s) u" "holds u (stack_top (bump_sp d s)) bs"
  shows "holds u (stack_top u) bs"
  using assms by (simp add: stack_top_def same_guest_vmread)

lemma set_gpr_low:
  "n \<noteq> 4 \<Longrightarrow> vmread (set_gpr16 n v s) f = vmread s f"
  "n \<noteq> 4 \<Longrightarrow> vmread (set_gpr32 n w s) f = vmread s f"
  by (simp_all add: set_gpr16_def set_gpr32_def)

lemma gpr_set16:
  assumes "n < 8" "k < 8"
  shows "gpr (set_gpr16 n v s) k
    = (if k = n then (gpr s n AND 0xffffffffffff0000) + ucast v else gpr s k)"
    and "gpr (set_gpr32 n w s) k
    = (if k = n then (gpr s n AND 0xffffffff00000000) + ucast w else gpr s k)"
  using assms by (simp_all add: set_gpr16_def set_gpr32_def rf.get_put)

text \<open>
  Pushing a 16-bit register and popping it into another (POP SP apart) moves the low
  word of the first into the second and restores the stack pointer; no other register
  changes. PUSH SP pushes the value SP had before.
\<close>

theorem push_pop16:
  assumes "\<not> id_opperandsize i" "n < 8" "m < 8" "m \<noteq> 4" "slot_free s (push_slot s 2) 2"
  shows "\<exists>u t. opcode_PUSH50to57 n i s = Some (0, i, u) \<and> opcode_POP58to5F m i u = Some (0, i, t)
    \<and> gpr t m = (gpr s m AND 0xffffffffffff0000) + ucast (ucast (gpr s n) :: WORD)
    \<and> vmread t vm_guest_rsp = vmread s vm_guest_rsp
    \<and> (\<forall>k < 8. k \<noteq> m \<longrightarrow> gpr t k = gpr s k)"
proof -
  obtain u where u: "opcode_PUSH50to57 n i s = Some (0, i, u)"
    and su: "same_guest (bump_sp (-2) s) u"
    and hu: "holds u (push_slot s 2) (le_bytes 2 (ucast (gpr s n) :: WORD))"
    using push16 [OF assms(1,5)] by blast
  obtain t where t: "opcode_POP58to5F m i u
      = Some (0, i, bump_sp 2 (set_gpr16 m (ucast (gpr s n)) t))" and st: "same_guest u t"
    using pop16 [OF assms(1) holds_stack [OF su]] hu by (auto simp: push_slot_top)
  let ?t = "bump_sp 2 (set_gpr16 m (ucast (gpr s n)) t)"
  have same: "same_guest (bump_sp (-2) s) t" using su st by (rule same_guest_trans)
  have sp: "vmread ?t vm_guest_rsp = vmread s vm_guest_rsp"
    by (rule bump_sp_back [where d = "-2"])
      (use assms(4) same in \<open>simp_all add: set_gpr_low same_guest_vmread\<close>)
  moreover have "gpr ?t k = gpr s k" if "k < 8" "k \<noteq> m" for k
    using that assms(3,4) same sp
    by (cases "k = 4") (simp_all add: gpr_sp gpr_set16 gpr_same [OF same])
  moreover have "gpr ?t m = (gpr s m AND 0xffffffffffff0000) + ucast (ucast (gpr s n) :: WORD)"
    using assms(3,4) by (simp add: gpr_set16 gpr_same [OF same])
  ultimately show ?thesis using u t by blast
qed

lemma sample_slot: "unat a + n \<le> 0x100000 \<Longrightarrow> slot_free sample a n"
  by (simp add: slot_free_def sample_mapped sample_apart)

lemma sample_push_slot: "push_slot sample 2 = 0x7ffe" "push_slot sample 4 = 0x7ffc"
  by (simp_all add: push_slot_def vmread_def sample_def)

theorem push_pop16_witness:
  "\<exists>u t. opcode_PUSH50to57 0 zero_id sample = Some (0, zero_id, u)
    \<and> opcode_POP58to5F 3 zero_id u = Some (0, zero_id, t)
    \<and> gpr t 3 = (gpr sample 3 AND 0xffffffffffff0000) + ucast (ucast (gpr sample 0) :: WORD)
    \<and> vmread t vm_guest_rsp = vmread sample vm_guest_rsp
    \<and> (\<forall>k < 8. k \<noteq> 3 \<longrightarrow> gpr t k = gpr sample k)"
  by (rule push_pop16) (simp_all add: zero_id_def sample_push_slot sample_slot)

text \<open>
  The same with a 32-bit operand: the low doubleword moves. (PUSH ESP is left out: it
  pushes ESP with the carry of the 16-bit stack pointer lost.)
\<close>

theorem push_pop32:
  assumes "id_opperandsize i" "n < 8" "n \<noteq> 4" "m < 8" "m \<noteq> 4" "slot_free s (push_slot s 4) 4"
  shows "\<exists>u t. opcode_PUSH50to57 n i s = Some (0, i, u) \<and> opcode_POP58to5F m i u = Some (0, i, t)
    \<and> gpr t m = (gpr s m AND 0xffffffff00000000) + ucast (ucast (gpr s n) :: DWORD)
    \<and> vmread t vm_guest_rsp = vmread s vm_guest_rsp
    \<and> (\<forall>k < 8. k \<noteq> m \<longrightarrow> gpr t k = gpr s k)"
proof -
  obtain u where u: "opcode_PUSH50to57 n i s = Some (0, i, u)"
    and su: "same_guest (bump_sp (-4) s) u"
    and hu: "holds u (push_slot s 4) (le_bytes 4 (ucast (gpr s n) :: DWORD))"
    using push32 [OF assms(1,6), of n] assms(3) by auto
  obtain t where t: "opcode_POP58to5F m i u
      = Some (0, i, bump_sp 4 (set_gpr32 m (ucast (gpr s n)) t))" and st: "same_guest u t"
    using pop32 [OF assms(1) holds_stack [OF su]] hu by (auto simp: push_slot_top)
  let ?t = "bump_sp 4 (set_gpr32 m (ucast (gpr s n)) t)"
  have same: "same_guest (bump_sp (-4) s) t" using su st by (rule same_guest_trans)
  have sp: "vmread ?t vm_guest_rsp = vmread s vm_guest_rsp"
    by (rule bump_sp_back [where d = "-4"])
      (use assms(5) same in \<open>simp_all add: set_gpr_low same_guest_vmread\<close>)
  moreover have "gpr ?t k = gpr s k" if "k < 8" "k \<noteq> m" for k
    using that assms(4,5) same sp
    by (cases "k = 4") (simp_all add: gpr_sp gpr_set16 gpr_same [OF same])
  moreover have "gpr ?t m = (gpr s m AND 0xffffffff00000000) + ucast (ucast (gpr s n) :: DWORD)"
    using assms(4,5) by (simp add: gpr_set16 gpr_same [OF same])
  ultimately show ?thesis using u t by blast
qed

theorem push_pop32_witness:
  "\<exists>u t. opcode_PUSH50to57 0 (zero_id\<lparr>id_opperandsize := True\<rparr>) sample
      = Some (0, zero_id\<lparr>id_opperandsize := True\<rparr>, u)
    \<and> opcode_POP58to5F 3 (zero_id\<lparr>id_opperandsize := True\<rparr>) u
      = Some (0, zero_id\<lparr>id_opperandsize := True\<rparr>, t)
    \<and> gpr t 3 = (gpr sample 3 AND 0xffffffff00000000) + ucast (ucast (gpr sample 0) :: DWORD)
    \<and> vmread t vm_guest_rsp = vmread sample vm_guest_rsp
    \<and> (\<forall>k < 8. k \<noteq> 3 \<longrightarrow> gpr t k = gpr sample k)"
  by (rule push_pop32) (simp_all add: zero_id_def sample_push_slot sample_slot)

section \<open>Call and return\<close>

lemma call_slot:
  assumes "2 \<le> unat (vmread s vm_guest_rsp AND 0xffff)"
  shows "vmread s vm_guest_ss_base + (vmread s vm_guest_rsp AND 0xffff) - 2 = push_slot s 2"
proof -
  let ?sp = "ucast (vmread s vm_guest_rsp) :: WORD"
  have "2 \<le> unat ?sp"
    using assms by (simp add: and_ffff unat_ucast16 flip: ucast_ucast16)
  then have "unat (?sp - 2) = unat ?sp - 2"
    by (subst unat_sub) (simp_all add: word_le_nat_alt)
  then have "ucast (?sp - 2) = (ucast ?sp :: UINT64) - 2"
    using \<open>2 \<le> unat ?sp\<close>
    by (simp add: word_unat_eq_iff unat_ucast16 unat_sub word_le_nat_alt)
  moreover have "ucast (vmread s vm_guest_rsp - 2) = ?sp - 2"
    using ucast_add16 [of "vmread s vm_guest_rsp" "-2"] by simp
  ultimately show ?thesis
    by (simp add: push_slot_def and_ffff flip: ucast_ucast16)
qed


lemma holds_vmwrite [simp]: "f \<notin> walk_fields \<Longrightarrow> holds (vmwrite f v s) a bs = holds s a bs"
  unfolding holds_def
  using access_cong [of "vmwrite f v s" s] by (simp add: tlb_ready_def)

lemma ucast_low_half: "ucast ((x AND 0xffff0000) + ucast (v :: WORD) :: UINT64) = v"
proof -
  have "ucast (x AND 0xffff0000 :: UINT64) = (0 :: WORD)"
  proof (rule bit_word_eqI)
    fix k assume "k < LENGTH(16)"
    moreover have "\<not> bit (0xffff0000 :: UINT64) k" if "k < 16"
    proof -
      have "(0xffff0000 :: UINT64) = push_bit 16 0xffff" by simp
      with that show ?thesis by (simp only: bit_simps) simp
    qed
    ultimately show "bit (ucast (x AND 0xffff0000 :: UINT64) :: WORD) k = bit 0 k"
      by (simp add: bit_simps)
  qed
  then show ?thesis by (simp add: ucast_add16) (rule bit_word_eqI, simp add: bit_simps)
qed

lemma walk_fields_not [simp]:
  "vm_guest_rsp \<notin> walk_fields" "vm_guest_rip \<notin> walk_fields"
  by (simp_all add: walk_fields_def)

lemma call16:
  assumes "\<not> id_opperandsize i" "insn16 i (id_size i) = Some off"
    and "2 \<le> unat (vmread s vm_guest_rsp AND 0xffff)" "slot_free s (push_slot s 2) 2"
  shows "\<exists>u. opcode_CALLE8 i s = Some (2, i\<lparr>id_size := 0\<rparr>, u)
    \<and> holds u (push_slot s 2)
        (le_bytes 2 (ucast (vmread s vm_guest_rip + of_nat (id_size i + 2)) :: WORD))
    \<and> ucast (vmread u vm_guest_rsp) = (ucast (vmread s vm_guest_rsp) - 2 :: WORD)
    \<and> vmread u vm_guest_rip
      = ucast (ucast (vmread s vm_guest_rip) + of_nat (id_size i + 2) + off :: WORD)
    \<and> (\<forall>f. f \<noteq> vm_guest_rip \<longrightarrow> f \<noteq> vm_guest_rsp \<longrightarrow> vmread u f = vmread s f)"
proof -
  let ?v = "ucast (vmread s vm_guest_rip + of_nat (id_size i + 2)) :: WORD"
  have free: "slot_free s (push_slot s 2) (length (le_bytes 2 ?v))" using assms(4) by simp
  obtain w t u where *: "mapVMmemory s (push_slot s 2) (int (length (le_bytes 2 ?v))) = Some (0, 0, w, t)"
    "store w 0 (le_bytes 2 ?v) t = Some u" "same_guest s t" "same_guest s u"
    "holds u (push_slot s 2) (le_bytes 2 ?v)"
    by (rule slot_store [OF free]) auto
  have sp: "ucast (vmread s vm_guest_rsp - 2) = (ucast (vmread s vm_guest_rsp) - 2 :: WORD)"
    using ucast_add16 [of "vmread s vm_guest_rsp" "-2"] by simp
  show ?thesis
    using assms(1,2) *
    by (simp add: opcode_CALLE8_def call_slot [OF assms(3)] same_guest_vmread Let_def
        ucast_low_half sp)
qed

lemma ret16:
  assumes "\<not> id_opperandsize j" "holds s (stack_top s) (le_bytes 2 (v :: WORD))"
    and "1 < (ucast (vmread s vm_guest_rsp) + 2 :: WORD)"
  shows "\<exists>t. opcode_RETC3 j s = Some (2, j, t)
    \<and> vmread t vm_guest_rip = ucast (ucast (vmread s vm_guest_cs_base) + v :: WORD)
    \<and> vmread t vm_guest_rsp = ucast (ucast (vmread s vm_guest_rsp) + 2 :: WORD)
    \<and> (\<forall>f. f \<noteq> vm_guest_rip \<longrightarrow> f \<noteq> vm_guest_rsp \<longrightarrow> vmread t f = vmread s f)"
proof -
  obtain w t where *: "mapVMmemory s (stack_top s) (int (length (le_bytes 2 v))) = Some (0, 0, w, t)"
    "win_read (mem t) w 0 (length (le_bytes 2 v)) = Some (le_bytes 2 v)" "same_guest s t" "mem t = mem s"
    by (rule slot_load [OF assms(2)]) auto
  let ?sp = "ucast (vmread s vm_guest_rsp) + 2 :: WORD"
  have nle: "\<not> ?sp \<le> 1" using assms(3) by simp
  have "opcode_RETC3 j s = Some (2, j, vmwrite vm_guest_rip
      (ucast (ucast (vmread s vm_guest_cs_base) + v :: WORD)) (vmwrite vm_guest_rsp (ucast ?sp) t))"
    using assms(1) *(1,2) nle
    by (simp add: opcode_RETC3_def load16_def le_word_le_bytes same_guest_vmread [OF *(3)]
        Let_def flip: stack_top_alt)
  then show ?thesis
    by (intro exI conjI, assumption) (simp_all add: same_guest_vmread [OF *(3)])
qed

text \<open>
  A near call followed by a return. The call jumps to the offset relative to the next
  instruction; the return restores SP and continues at the offset of the instruction after
  the call, with the base of the code segment added to it: the return address is right
  exactly when the low 16 bits of the base are zero.
\<close>

theorem call_ret:
  assumes "\<not> id_opperandsize i" "\<not> id_opperandsize j" "insn16 i (id_size i) = Some off"
    and "2 \<le> unat (vmread s vm_guest_rsp AND 0xffff)" "slot_free s (push_slot s 2) 2"
  shows "\<exists>u t. opcode_CALLE8 i s = Some (2, i\<lparr>id_size := 0\<rparr>, u)
    \<and> vmread u vm_guest_rip
      = ucast (ucast (vmread s vm_guest_rip) + of_nat (id_size i + 2) + off :: WORD)
    \<and> opcode_RETC3 j u = Some (2, j, t)
    \<and> vmread t vm_guest_rip = ucast (ucast (vmread s vm_guest_cs_base)
        + ucast (vmread s vm_guest_rip + of_nat (id_size i + 2)) :: WORD)
    \<and> vmread t vm_guest_rsp = vmread s vm_guest_rsp AND 0xffff"
proof -
  let ?sp = "ucast (vmread s vm_guest_rsp) :: WORD"
  obtain u where u: "opcode_CALLE8 i s = Some (2, i\<lparr>id_size := 0\<rparr>, u)"
    and hu: "holds u (push_slot s 2)
        (le_bytes 2 (ucast (vmread s vm_guest_rip + of_nat (id_size i + 2)) :: WORD))"
    and sp: "ucast (vmread u vm_guest_rsp) = ?sp - 2"
    and ip: "vmread u vm_guest_rip
      = ucast (ucast (vmread s vm_guest_rip) + of_nat (id_size i + 2) + off :: WORD)"
    and keep: "\<And>f. f \<noteq> vm_guest_rip \<Longrightarrow> f \<noteq> vm_guest_rsp \<Longrightarrow> vmread u f = vmread s f"
    using call16 [OF assms(1,3,4,5)] by blast
  have "ucast (vmread s vm_guest_rsp - 2) = ?sp - 2"
    using ucast_add16 [of "vmread s vm_guest_rsp" "-2"] by simp
  then have top: "stack_top u = push_slot s 2"
    by (simp add: stack_top_alt push_slot_def sp keep)
  have "2 \<le> unat ?sp"
    using assms(4) by (simp add: and_ffff unat_ucast16 flip: ucast_ucast16)
  then have gt: "1 < (ucast (vmread u vm_guest_rsp) + 2 :: WORD)"
    by (simp add: sp word_less_nat_alt)
  from hu have hu': "holds u (stack_top u)
      (le_bytes 2 (ucast (vmread s vm_guest_rip + of_nat (id_size i + 2)) :: WORD))"
    by (simp only: top)
  obtain t where "opcode_RETC3 j u = Some (2, j, t)"
    and "vmread t vm_guest_rip = ucast (ucast (vmread u vm_guest_cs_base)
      + ucast (vmread s vm_guest_rip + of_nat (id_size i + 2)) :: WORD)"
    and "vmread t vm_guest_rsp = ucast (ucast (vmread u vm_guest_rsp) + 2 :: WORD)"
    using ret16 [OF assms(2) hu' gt] by blast
  with u ip show ?thesis by (simp add: keep sp and_ffff ucast_ucast16)
qed

definition sample_call :: INSTRUCTIONDATA where
  "sample_call = zero_id\<lparr>id_instruction := [0xe8, 0x10, 0x00], id_size := 1\<rparr>"

theorem call_ret_witness:
  "\<exists>u t. opcode_CALLE8 sample_call sample = Some (2, sample_call\<lparr>id_size := 0\<rparr>, u)
    \<and> vmread u vm_guest_rip = ucast (ucast (vmread sample vm_guest_rip)
        + of_nat (id_size sample_call + 2) + 0x10 :: WORD)
    \<and> opcode_RETC3 zero_id u = Some (2, zero_id, t)
    \<and> vmread t vm_guest_rip = ucast (ucast (vmread sample vm_guest_cs_base)
        + ucast (vmread sample vm_guest_rip + of_nat (id_size sample_call + 2)) :: WORD)
    \<and> vmread t vm_guest_rsp = vmread sample vm_guest_rsp AND 0xffff"
proof (rule call_ret)
  show "insn16 sample_call (id_size sample_call) = Some 0x10"
    by (simp add: sample_call_def insn16_def insn_bytes_def)
  show "2 \<le> unat (vmread sample vm_guest_rsp AND 0xffff)"
    by (simp add: vmread_def sample_def)
qed (simp_all add: sample_call_def zero_id_def sample_push_slot sample_slot)

end
