(* ===== verification/RM_Interrupts.thy ===== *)
theory RM_Interrupts
  imports RM_Stack
begin

text \<open>
  Interrupts in the real-mode emulator: the frame \<^verbatim>\<open>emulateRMinterrupt\<close> builds, and the
  blocking of interrupts for one instruction after STI and after a load of SS
  (\<^verbatim>\<open>opcode_STI\<close>, \<^verbatim>\<open>setSegment\<close>, \<^verbatim>\<open>emulateRMinstruction\<close>,
  \<^verbatim>\<open>testRMinterrupt\<close>).
\<close>

unbundle bit_operations_syntax

section \<open>Plain pointers\<close>

lemma win_read_host:
  assumes "unat p + k + n \<le> 0x400000"
  shows "win_read m (HostPtr p) k n = Some (map (\<lambda>j. m (p + of_nat (k + j))) [0..<n])"
  unfolding win_read_def those_eq_Some using assms by simp

lemma host_write:
  assumes "unat p + length bs \<le> 0x400000" "length bs \<le> 4096"
  shows "\<exists>m'. win_write m (HostPtr p) 0 bs = Some m'
    \<and> (\<forall>k < length bs. m' (p + of_nat k) = bs ! k)
    \<and> (\<forall>q. (\<forall>k < length bs. q \<noteq> p + of_nat k) \<longrightarrow> m' q = m q)"
proof -
  have "\<exists>m'. win_write m (HostPtr p) 0 bs = Some m'"
    by (rule win_write_total) (use assms in auto)
  then obtain m' where m': "win_write m (HostPtr p) 0 bs = Some m'" by blast
  moreover have "window_ok (HostPtr p)" by (simp add: window_ok_def)
  note win_write_spec [OF m' this assms(2)]
  then show ?thesis using m' assms by (auto split: if_splits) metis
qed

section \<open>Delivering an interrupt\<close>

abbreviation intr_sp :: "machine \<Rightarrow> WORD" where
  "intr_sp s \<equiv> ucast (vmread s vm_guest_rsp) - 6"

abbreviation intr_stack :: "machine \<Rightarrow> UINT64" where
  "intr_stack s \<equiv> vmread s vm_guest_ss_base + ucast (intr_sp s)"

text \<open>The interrupt vector: offset and selector, little-endian.\<close>

definition rm_vector :: "machine \<Rightarrow> BYTE \<Rightarrow> WORD \<times> WORD" where
  "rm_vector s n =
     (let at = (\<lambda>k. mem s (RealMode_IDTBase (cpu s) + of_nat (4 * unat n + k)))
      in (le_word [at 0, at 1], le_word [at 2, at 3]))"

definition intr_frame :: "machine \<Rightarrow> BYTE list" where
  "intr_frame s = le_bytes 2 (ucast (vmread s vm_guest_rip) :: WORD)
     @ le_bytes 2 (ucast (vmread s vm_guest_cs) :: WORD)
     @ le_bytes 2 (ucast (vmread s vm_guest_rflags) :: WORD)"

lemma length_intr_frame [simp]: "length (intr_frame s) = 6"
  by (simp add: intr_frame_def)

lemma le_word_halves:
  "ucast (le_word [a, b, c, d] :: DWORD) = (le_word [a, b] :: WORD)"
  "ucast (drop_bit 16 (le_word [a, b, c, d] :: DWORD)) = (le_word [c, d] :: WORD)"
proof -
  show "ucast (le_word [a, b, c, d] :: DWORD) = (le_word [a, b] :: WORD)"
  proof (rule bit_word_eqI)
    fix k assume k: "k < LENGTH(16)"
    then have "k div 8 < 2" by auto
    then show "bit (ucast (le_word [a, b, c, d] :: DWORD) :: WORD) k = bit (le_word [a, b] :: WORD) k"
      using k by (auto simp: bit_simps bit_le_word less_2_cases_iff simp del: le_word.simps)
  qed
  show "ucast (drop_bit 16 (le_word [a, b, c, d] :: DWORD)) = (le_word [c, d] :: WORD)"
  proof (rule bit_word_eqI)
    fix k assume k: "k < LENGTH(16)"
    then have "k div 8 < 2" by auto
    moreover have "(16 + k) div 8 = 2 + k div 8" and "(16 + k) mod 8 = k mod 8"
      using div_mult_self3 [of 8 2 k] mod_mult_self3 [of 2 8 k] by simp_all
    ultimately show "bit (ucast (drop_bit 16 (le_word [a, b, c, d] :: DWORD)) :: WORD) k
        = bit (le_word [c, d] :: WORD) k"
      using k by (auto simp: bit_simps bit_le_word less_2_cases_iff simp del: le_word.simps)
  qed
qed

text \<open>
  Delivering a real-mode interrupt. With the interrupt table and the stack in the
  identity mapped 4 MB the delivery succeeds; it pushes IP, CS and FLAGS in the layout of
  IRET and changes no other byte, continues at the vector of the table, sets CS and its base
  alike, and clears TF, IF, RF and AC.
\<close>

theorem emulateRMinterrupt_frame:
  assumes "unat (intr_stack s) + 6 \<le> 0x400000"
    and "unat (RealMode_IDTBase (cpu s)) + 4 * unat n + 4 \<le> 0x400000"
  shows "\<exists>t. emulateRMinterrupt n s = Some t
    \<and> (\<forall>k < 6. mem t (intr_stack s + of_nat k) = intr_frame s ! k)
    \<and> (\<forall>p. (\<forall>k < 6. p \<noteq> intr_stack s + of_nat k) \<longrightarrow> mem t p = mem s p)
    \<and> vmread t vm_guest_rip = ucast (fst (rm_vector s n))
    \<and> vmread t vm_guest_cs = ucast (snd (rm_vector s n))
    \<and> vmread t vm_guest_cs_base = 16 * ucast (snd (rm_vector s n))
    \<and> vmread t vm_guest_rsp = ucast (intr_sp s)
    \<and> (\<forall>b < 32. bit (vmread t vm_guest_rflags) b
        \<longleftrightarrow> bit (vmread s vm_guest_rflags) b \<and> b \<notin> {8, 9, 16, 18})"
proof -
  let ?at = "\<lambda>k. mem s (RealMode_IDTBase (cpu s) + of_nat (4 * unat n + k))"
  let ?v = "le_word [?at 0, ?at 1, ?at 2, ?at 3] :: DWORD"
  obtain m where m: "win_write (mem s) (HostPtr (intr_stack s)) 0 (intr_frame s) = Some m"
    and new: "\<forall>k < 6. m (intr_stack s + of_nat k) = intr_frame s ! k"
    and old: "\<forall>q. (\<forall>k < 6. q \<noteq> intr_stack s + of_nat k) \<longrightarrow> m q = mem s q"
    using host_write [of "intr_stack s" "intr_frame s" "mem s"] assms(1) by auto
  have upt4: "[0..<4] = [0, 1, 2, 3]" by (simp add: upt_rec)
  have vec: "load32 s (HostPtr (RealMode_IDTBase (cpu s))) (4 * unat n) = Some ?v"
    unfolding load32_def using assms(2) by (subst win_read_host) (simp_all only: upt4 list.map, simp)
  have st: "store (HostPtr (intr_stack s)) 0 (intr_frame s) s = Some (s\<lparr>mem := m\<rparr>)"
    using m by (simp add: store_def)
  define t where "t = vmwrite vm_guest_rflags
      (take_bit 32 (unset_bit 16 (unset_bit 18 (unset_bit 8 (unset_bit 9 (vmread s vm_guest_rflags))))))
      (vmwrite vm_guest_cs_base (push_bit 4 (ucast (ucast (drop_bit 16 ?v) :: WORD)))
      (vmwrite vm_guest_cs (ucast (ucast (drop_bit 16 ?v) :: WORD))
      (vmwrite vm_guest_rip (ucast (ucast ?v :: WORD))
      (vmwrite vm_guest_rsp (ucast (intr_sp s)) (s\<lparr>mem := m\<rparr>)))))"
  have "emulateRMinterrupt n s = Some t"
    using vec st by (simp add: emulateRMinterrupt_def t_def Let_def intr_frame_def)
  moreover have "take_bit 16 (ucast (x :: WORD) :: UINT64) = ucast x" for x
    by (rule bit_word_eqI) (auto simp: bit_simps dest: bit_imp_le_length)
  moreover have "bit (vmread t vm_guest_rflags) b
        \<longleftrightarrow> bit (vmread s vm_guest_rflags) b \<and> b \<notin> {8, 9, 16, 18}" if "b < 32" for b
    using that by (auto simp: t_def bit_simps)
  ultimately show ?thesis
    using new old
    by (intro exI [of _ t] conjI)
      (simp_all add: t_def rm_vector_def Let_def le_word_halves push_bit_eq_mult ac_simps
        del: le_word.simps)
qed

theorem emulateRMinterrupt_frame_witness:
  "\<exists>t. emulateRMinterrupt 0x13 sample = Some t
    \<and> (\<forall>k < 6. mem t (intr_stack sample + of_nat k) = intr_frame sample ! k)
    \<and> (\<forall>p. (\<forall>k < 6. p \<noteq> intr_stack sample + of_nat k) \<longrightarrow> mem t p = mem sample p)
    \<and> vmread t vm_guest_rip = ucast (fst (rm_vector sample 0x13))
    \<and> vmread t vm_guest_cs = ucast (snd (rm_vector sample 0x13))
    \<and> vmread t vm_guest_cs_base = 16 * ucast (snd (rm_vector sample 0x13))
    \<and> vmread t vm_guest_rsp = ucast (intr_sp sample)
    \<and> (\<forall>b < 32. bit (vmread t vm_guest_rflags) b
        \<longleftrightarrow> bit (vmread sample vm_guest_rflags) b \<and> b \<notin> {8, 9, 16, 18})"
  by (rule emulateRMinterrupt_frame) (simp_all add: sample_def vmread_def)

section \<open>Fetching an instruction without prefixes\<close>

abbreviation fetch :: "machine \<Rightarrow> BYTE list option" where
  "fetch s \<equiv> ReadVMMemory s (vmread s vm_guest_cs_base + vmread s vm_guest_rip) 30"

definition plain_id :: "machine \<Rightarrow> BYTE list \<Rightarrow> INSTRUCTIONDATA" where
  "plain_id s bs = zero_id\<lparr>id_segmentbase := vmread s vm_guest_ds_base, id_size := 1,
     id_instruction := bs\<rparr>"

lemma emulate_plain:
  assumes "fetch s = Some (b # bs)" "\<not> is_prefix b"
  shows "emulateRMinstruction2 cr zero_id s = dispatch cr b (plain_id s (b # bs)) s"
proof -
  have "le_word [b] = b"
    by (simp add: take_bit_word_eq_self)
  then show ?thesis
    using assms
    by (simp add: emulateRMinstruction2_def plain_id_def insn8_def insn_bytes_def zero_id_def
        del: le_word.simps)
qed

section \<open>Blocking\<close>

text \<open>A blocking bit that was set before an instruction is clear after it.\<close>

lemma clear_old_blocking_bit:
  "n < 2 \<Longrightarrow> bit old n \<Longrightarrow>
    \<not> bit (vmread (clear_old_blocking old s) vm_guest_interruptability_state) n"
proof -
  assume n: "n < 2" "bit old n"
  have "bit (3 :: DWORD) n" using n(1) by (auto simp: less_2_cases_iff)
  with n show ?thesis
    by (auto simp: clear_old_blocking_def bit_simps)
qed

lemma emulated_unblocks:
  assumes "emulateRMinstruction cr s = Some (True, t)" "n < 2"
    "bit (vmread s vm_guest_interruptability_state) n"
  shows "\<not> bit (vmread t vm_guest_interruptability_state) n"
proof -
  obtain u where "t = clear_old_blocking (vmread s vm_guest_interruptability_state) u"
    using assms(1) by (auto simp: emulateRMinstruction_def Let_def bind_Some_iff split: if_splits) metis
  then show ?thesis using clear_old_blocking_bit [OF assms(2,3)] by simp
qed

lemma dispatch_sti: "dispatch cr 0xfb i s = opcode_STI i s"
  by (simp add: dispatch_def)

text \<open>
  STI with interrupts off enables them with a delay of one instruction: the instruction
  is emulated, IF is set, no pending interrupt is taken before the next instruction, and
  whatever that instruction is, once emulated the delay is over.
\<close>

theorem sti_delays_interrupts:
  assumes "fetch s = Some (0xfb # bs)" "\<not> bit (vmread s vm_guest_rflags) 9"
    "vmread s vm_guest_interruptability_state = 0"
  shows "\<exists>t. emulateRMinstruction cr s = Some (True, t)
    \<and> vmread t vm_guest_rip = vmread s vm_guest_rip + 1
    \<and> bit (vmread t vm_guest_rflags) 9
    \<and> testRMinterrupt t = Some t
    \<and> (\<forall>u. emulateRMinstruction cr t = Some (True, u)
        \<longrightarrow> \<not> bit (vmread u vm_guest_interruptability_state) 0)"
proof -
  let ?i = "plain_id s (0xfb # bs)"
  let ?t1 = "vmwrite vm_guest_rflags (set_flag 9 True (vmread s vm_guest_rflags))
      (vmwrite vm_guest_interruptability_state 1 s)"
  let ?t = "clear_old_blocking 0 (vmwrite vm_guest_rip (vmread s vm_guest_rip + 1) ?t1)"
  have "emulateRMinstruction2 cr zero_id s = Some (0, ?i, ?t1)"
    using emulate_plain [OF assms(1)] assms(2,3)
    by (simp add: is_prefix_def dispatch_sti opcode_STI_def Let_def)
  then have e: "emulateRMinstruction cr s = Some (True, ?t)"
    using assms(3) by (simp add: emulateRMinstruction_def plain_id_def)
  have one: "take_bit 32 (1 :: UINT64) = 1" by simp
  have mask: "ucast (NOT (0 :: DWORD)) AND (1 :: UINT64) = 1"
    by (rule bit_word_eqI) (auto simp: bit_simps)
  have intr: "vmread ?t vm_guest_interruptability_state = 1"
    using mask by (simp add: clear_old_blocking_def)
  have fl: "bit (vmread ?t vm_guest_rflags) 9"
    by (simp add: clear_old_blocking_def set_flag_def bit_simps)
  have ip: "vmread ?t vm_guest_rip = vmread s vm_guest_rip + 1"
    by (simp add: clear_old_blocking_def)
  have "testRMinterrupt ?t = Some ?t"
    by (simp only: testRMinterrupt_def intr) simp
  moreover have "\<not> bit (vmread u vm_guest_interruptability_state) 0"
    if "emulateRMinstruction cr ?t = Some (True, u)" for u
    by (rule emulated_unblocks [OF that]) (simp_all add: intr)
  ultimately show ?thesis using e fl ip by blast
qed

lemma segment_group:
  assumes "n < (6 :: nat)"
  shows "(0x800 + 2 * n) div 8192 = 0" "(0x6806 + 2 * n) div 8192 = 3"
    "(0x4800 + 2 * n) div 8192 = 2"
  using assms by (auto intro!: div_nat_eqI)

definition sample_sti :: machine where
  "sample_sti = sample\<lparr>vmcs := (vmcs sample)(vm_guest_rflags := 2),
     mem := sample_mem(0x7c00 := 0xfb)\<rparr>"

text \<open>Control register handlers that keep the value in the read shadow, for the instances.\<close>

definition sample_cr :: cr_handlers where
  "sample_cr = \<lparr>cr_CR0 = (\<lambda>v s. Some (0, vmwrite vm_cr0_fakeread v s)),
     cr_CR3 = (\<lambda>v s. Some (0, s\<lparr>cpu := (cpu s)\<lparr>guestCR3 := v\<rparr>\<rparr>)),
     cr_CR4 = (\<lambda>v s. Some (0, vmwrite vm_cr4_fakeread v s))\<rparr>"

lemma sample_sti_fetch:
  "fetch sample_sti = Some (0xfb # replicate 29 0)"
proof -
  let ?s = sample_sti
  have a: "getPhysicalAddressVM ?s 0x7c00 = Some (Some 0x7c00)"
    by (rule sample_translate) (simp_all add: sample_sti_def sample_def sample_mem_def)
  have "[0..<30] = 0 # [1..<30]" by (simp add: upt_rec)
  moreover have "map (\<lambda>i. (sample_mem(0x7c00 := 0xfb)) (0x7c00 + of_nat i)) [1..<30] = replicate 29 0"
  proof (rule nth_equalityI)
    fix k assume "k < length (map (\<lambda>i. (sample_mem(0x7c00 := 0xfb)) (0x7c00 + of_nat i)) [1..<30])"
    then have k: "k < 29" by simp
    then have "(0x7c00 :: UINT64) + of_nat (1 + k) < 0x400000"
      "unat ((0x7c00 :: UINT64) + of_nat (1 + k)) = 0x7c00 + (1 + k)"
      using low_add [of "0x7c00" 30 "1 + k"] by simp_all
    then have "(0x7c00 :: UINT64) + of_nat (1 + k) \<noteq> 0x7c00"
      "(0x7c00 :: UINT64) + of_nat (1 + k) \<noteq> 0x100000"
      using k by (auto simp: word_unat_eq_iff)
    with k show "map (\<lambda>i. (sample_mem(0x7c00 := 0xfb)) (0x7c00 + of_nat i)) [1..<30] ! k
        = replicate 29 0 ! k"
      by (simp add: sample_mem_def)
  qed simp
  ultimately have "ReadBytesFromPage ?s 0x7c00 30 = Some (0xfb # replicate 29 0)"
    using a by (simp add: ReadBytesFromPage_def sample_sti_def)
  then have "ReadVMMemory ?s 0x7c00 30 = Some (0xfb # replicate 29 0)"
    by (simp add: ReadVMMemory.simps)
  then show ?thesis by (simp add: vmread_def sample_sti_def sample_def)
qed

theorem sti_delays_interrupts_witness:
  "\<exists>t. emulateRMinstruction sample_cr sample_sti = Some (True, t)
    \<and> vmread t vm_guest_rip = vmread sample_sti vm_guest_rip + 1
    \<and> bit (vmread t vm_guest_rflags) 9
    \<and> testRMinterrupt t = Some t
    \<and> (\<forall>u. emulateRMinstruction sample_cr t = Some (True, u)
        \<longrightarrow> \<not> bit (vmread u vm_guest_interruptability_state) 0)"
  by (rule sti_delays_interrupts [OF sample_sti_fetch])
    (simp_all add: sample_sti_def sample_def vmread_def bit_numeral_rec)

text \<open>
  A load of a segment register in real mode sets selector, base (16 times the selector),
  limit and access rights; interrupts are blocked for one instruction by a load of SS and of no
  other segment register.
\<close>

theorem setSegment_real_mode:
  assumes "n < 6"
  shows "vmread (setSegment n v s) (vm_guest_es + 2 * n) = ucast v
    \<and> vmread (setSegment n v s) (vm_guest_es_base + 2 * n) = 16 * ucast v
    \<and> vmread (setSegment n v s) (vm_guest_es_limit + 2 * n) = 0xffff
    \<and> (n = 2 \<longrightarrow> bit (vmread (setSegment n v s) vm_guest_interruptability_state) 1)
    \<and> (n \<noteq> 2 \<longrightarrow> vmread (setSegment n v s) vm_guest_interruptability_state
          = vmread s vm_guest_interruptability_state)"
proof -
  have "take_bit 16 (ucast v :: UINT64) = ucast v"
    by (rule bit_word_eqI) (auto simp: bit_simps dest: bit_imp_le_length)
  moreover have "vm_width (0x800 + 2 * n) = 16" "vm_width (0x6806 + 2 * n) = 64"
    "vm_width (0x4800 + 2 * n) = 32"
    using segment_group [OF assms] by (simp_all add: vm_width_def)
  ultimately show ?thesis
    using assms by (auto simp: setSegment_def Let_def push_bit_eq_mult bit_simps)
qed

theorem setSegment_real_mode_witness:
  "vmread (setSegment 2 0x9000 sample) (vm_guest_es + 2 * 2) = 0x9000
    \<and> vmread (setSegment 2 0x9000 sample) (vm_guest_es_base + 2 * 2) = 0x90000
    \<and> vmread (setSegment 2 0x9000 sample) (vm_guest_es_limit + 2 * 2) = 0xffff
    \<and> bit (vmread (setSegment 2 0x9000 sample) vm_guest_interruptability_state) 1"
  using setSegment_real_mode [of 2 "0x9000" sample] by simp

end
