(* ===== verification/RM_Safety.thy ===== *)
theory RM_Safety
  imports RM_Interrupts
begin

text \<open>
  What a guest can do to the machine through the real-mode emulator. The locale
  \<open>rm_step\<close> is the contract between the emulator and its primitive effects; from it every
  opcode function, the dispatcher, one instruction and the main loop of
  \<^verbatim>\<open>realmodeemu.c\<close> are shown to respect a relation on machine states. It is interpreted by
  the frame of the VMCS and by the frame of the hypervisor's own bookkeeping. The last
  section shows that an instruction that is not emulated has no effect.
\<close>

unbundle bit_operations_syntax

section \<open>What an instruction may touch\<close>

definition rm_fields :: "nat set" where
  "rm_fields = {vm_guest_rsp, vm_guest_rip, vm_guest_rflags, vm_guest_interruptability_state}
     \<union> (\<lambda>n. vm_guest_es + 2 * n) ` {..<8} \<union> (\<lambda>n. vm_guest_es_base + 2 * n) ` {..<8}
     \<union> (\<lambda>n. vm_guest_es_limit + 2 * n) ` {..<8} \<union> (\<lambda>n. vm_guest_es_access_rights + 2 * n) ` {..<8}"

lemma rm_fields_seg:
  "n < 8 \<Longrightarrow> vm_guest_es + 2 * n \<in> rm_fields" "n < 8 \<Longrightarrow> vm_guest_es_base + 2 * n \<in> rm_fields"
  "n < 8 \<Longrightarrow> vm_guest_es_limit + 2 * n \<in> rm_fields"
  "n < 8 \<Longrightarrow> vm_guest_es_access_rights + 2 * n \<in> rm_fields"
  by (auto simp: rm_fields_def)

lemma rm_fields_std [simp]:
  "vm_guest_rsp \<in> rm_fields" "vm_guest_rip \<in> rm_fields" "vm_guest_rflags \<in> rm_fields"
  "vm_guest_interruptability_state \<in> rm_fields" "vm_guest_cs \<in> rm_fields"
  "vm_guest_cs_base \<in> rm_fields" "vm_guest_cs_limit \<in> rm_fields"
  "vm_guest_ss \<in> rm_fields" "vm_guest_ss_base \<in> rm_fields" "0x4804 \<in> rm_fields"
  "0x4818 \<in> rm_fields"
  using rm_fields_seg [of 1] rm_fields_seg [of 2] by (simp_all add: rm_fields_def)

lemma RegOpcode_less: "RegOpcode b < 8"
proof -
  have "drop_bit 3 b AND 7 \<le> 7" by (rule word_and_le1)
  then show ?thesis by (simp add: RegOpcode_def word_le_nat_alt)
qed

lemma handleSIB_opperand: "handleSIB s i md = Some (a, j) \<Longrightarrow> id_opperand j = id_opperand i"
  by (auto simp: handleSIB_def getSIBBase_def bind_Some_iff split: if_splits option.splits)

lemma handleMODRM16_opperand: "handleMODRM16 s i b = Some j \<Longrightarrow> id_opperand j = id_opperand i"
  unfolding handleMODRM16_def Let_def
  by (auto simp: bind_Some_iff split: if_split_asm)

lemma handleMODRM32_opperand: "handleMODRM32 s i b = Some j \<Longrightarrow> id_opperand j = id_opperand i"
  unfolding handleMODRM32_def Let_def
  by (auto simp: bind_Some_iff dest!: handleSIB_opperand split: if_split_asm)

lemma handleMODRM_opperand: "handleMODRM s i = Some j \<Longrightarrow> id_opperand j < 8"
  by (auto simp: handleMODRM_def Let_def bind_Some_iff RegOpcode_less
      dest!: handleMODRM16_opperand handleMODRM32_opperand split: if_split_asm)

text \<open>
  The contract of an instruction step: a preorder \<open>R\<close> on machine states that the primitive
  effects of the emulator respect. Whatever respects it, the whole emulator does.
\<close>

definition cr_respects :: "(machine \<Rightarrow> machine \<Rightarrow> bool) \<Rightarrow> cr_handlers \<Rightarrow> bool" where
  "cr_respects R cr \<longleftrightarrow>
     (\<forall>v s r t. cr_CR0 cr v s = Some (r, t) \<or> cr_CR3 cr v s = Some (r, t)
        \<or> cr_CR4 cr v s = Some (r, t) \<longrightarrow> R s t)"

locale rm_step =
  fixes R :: "machine \<Rightarrow> machine \<Rightarrow> bool"
  assumes R_refl: "R s s"
    and R_trans: "R s t \<Longrightarrow> R t u \<Longrightarrow> R s u"
    and R_map: "mapVMmemory s a sz = Some (e, pf, w, t) \<Longrightarrow> R s t"
    and R_mem: "R s (s\<lparr>mem := m\<rparr>)"
    and R_regs: "R s (s\<lparr>regs := r\<rparr>)"
    and R_vmwrite: "f \<in> rm_fields \<Longrightarrow> R s (vmwrite f v s)"
    and R_gdt: "R s (s\<lparr>cpu := (cpu s)\<lparr>RealMode_GDTBase := b, RealMode_GDTLimit := l\<rparr>\<rparr>)"
    and R_idt: "R s (s\<lparr>cpu := (cpu s)\<lparr>RealMode_IDTBase := b, RealMode_IDTLimit := l\<rparr>\<rparr>)"
    and R_irqs: "R s (s\<lparr>irqs := is\<rparr>)"
    and R_last: "R s (s\<lparr>cpu := (cpu s)\<lparr>LastInterrupt := n\<rparr>\<rparr>)"
begin

lemma vmw: "R s t \<Longrightarrow> f \<in> rm_fields \<Longrightarrow> R s (vmwrite f v t)"
  using R_trans R_vmwrite by blast

lemma rgs: "R s t \<Longrightarrow> R s (t\<lparr>regs := r\<rparr>)"
  using R_trans R_regs by blast

lemma mapd: "mapVMmemory s a sz = Some (e, pf, w, t) \<Longrightarrow> R u s \<Longrightarrow> R u t"
  using R_trans R_map by blast

lemma stored: "store w k bs s = Some t \<Longrightarrow> R u s \<Longrightarrow> R u t"
  using R_trans R_mem by (fastforce simp: store_def)

lemma gpr_put: "R s t \<Longrightarrow> R s (set_gpr n v t)"
  by (auto simp: set_gpr_def Let_def intro: rgs vmw)

lemma gpr_puts: "R s t \<Longrightarrow> R s (set_gpr16 n v t)" "R s t \<Longrightarrow> R s (set_gpr32 n w t)"
  "R s t \<Longrightarrow> R s (set_gpr8 n b t)"
  by (simp_all add: set_gpr16_def set_gpr32_def set_gpr8_def gpr_put)

lemma bump: "R s t \<Longrightarrow> R s (bump_sp d t)"
  by (simp add: bump_sp_def vmw)

lemma segment: "R s t \<Longrightarrow> n < 8 \<Longrightarrow> R s (setSegment n v t)"
  by (auto simp: setSegment_def Let_def intro!: vmw rm_fields_seg)

lemma interrupt: "emulateRMinterrupt n s = Some t \<Longrightarrow> R u s \<Longrightarrow> R u t"
  by (auto simp: emulateRMinterrupt_def Let_def bind_Some_iff intro!: vmw elim: stored)

lemma window: "interrupt_window s = (x, t) \<Longrightarrow> R u s \<Longrightarrow> R u t"
proof -
  assume w: "interrupt_window s = (x, t)" and "R u s"
  have "R s (s\<lparr>irqs := is, cpu := (cpu s)\<lparr>LastInterrupt := n\<rparr>\<rparr>)" for "is" n
    using R_trans [OF R_irqs [of s "is"] R_last [of "s\<lparr>irqs := is\<rparr>" n]] by simp
  with w have "R s t"
    by (auto simp: interrupt_window_def R_refl R_irqs split: list.splits option.splits)
  with \<open>R u s\<close> show ?thesis by (blast intro: R_trans)
qed

lemma hlt: "emulateHLT s = Some t \<Longrightarrow> R u s \<Longrightarrow> R u t"
  by (auto simp: emulateHLT_def split: if_splits prod.splits option.splits
      elim: window interrupt)

lemmas step_intros = vmw rgs gpr_put gpr_puts bump segment
lemmas step_elims = mapd stored interrupt hlt


section \<open>The opcodes\<close>

lemma control_ops:
  "opcode_CALLE8 i s = Some (r, j, t) \<Longrightarrow> R s t"
  "opcode_HLTF4 i s = Some (r, j, t) \<Longrightarrow> R s t"
  "opcode_INTCD i s = Some (r, j, t) \<Longrightarrow> R s t"
  "opcode_JMPE9 i s = Some (r, j, t) \<Longrightarrow> R s t"
  "opcode_JMPEA i s = Some (r, j, t) \<Longrightarrow> R s t"
  "opcode_JMPEB i s = Some (r, j, t) \<Longrightarrow> R s t"
  "opcode_RETC3 i s = Some (r, j, t) \<Longrightarrow> R s t"
  by (auto simp: opcode_CALLE8_def opcode_HLTF4_def opcode_INTCD_def opcode_JMPE9_def
      opcode_JMPEA_def opcode_JMPEB_def opcode_RETC3_def Let_def bind_Some_iff R_refl
      split: if_splits intro!: step_intros elim!: step_elims)

lemma dtr_ops:
  "opcode_LGDT i s = Some (r, j, t) \<Longrightarrow> R s t"
  "opcode_LIDT i s = Some (r, j, t) \<Longrightarrow> R s t"
  by (auto simp: opcode_LGDT_def opcode_LIDT_def read_dtr_def Let_def bind_Some_iff R_refl
      split: if_splits intro: R_trans [OF R_map R_gdt] R_trans [OF R_map R_idt])

lemma stack_ops:
  "opcode_POP58to5F n i s = Some (r, j, t) \<Longrightarrow> R s t"
  "opcode_PUSH50to57 n i s = Some (r, j, t) \<Longrightarrow> R s t"
  "opcode_POPSegment m i s = Some (r, j, t) \<Longrightarrow> m < 8 \<Longrightarrow> R s t"
  "opcode_PUSHSegment m i s = Some (r, j, t) \<Longrightarrow> R s t"
  "opcode_PUSH68 i s = Some (r, j, t) \<Longrightarrow> R s t"
  by (auto simp: opcode_POP58to5F_def opcode_PUSH50to57_def opcode_POPSegment_def
      opcode_PUSHSegment_def opcode_PUSH68_def Let_def bind_Some_iff R_refl
      split: if_splits intro!: step_intros elim!: step_elims)

lemma flag_ops:
  "opcode_CLI i s = Some (r, j, t) \<Longrightarrow> R s t"
  "opcode_STI i s = Some (r, j, t) \<Longrightarrow> R s t"
  "opcode_CLD i s = Some (r, j, t) \<Longrightarrow> R s t"
  by (auto simp: opcode_CLI_def opcode_STI_def opcode_CLD_def Let_def R_refl
      split: if_splits intro!: step_intros)

lemma mov_ops:
  "opcode_MOV8B i s = Some (r, j, t) \<Longrightarrow> R s t"
  "opcode_MOVB0toB7 n i s = Some (r, j, t) \<Longrightarrow> R s t"
  "opcode_MOVB8toBF n i s = Some (r, j, t) \<Longrightarrow> R s t"
  by (auto simp: opcode_MOV8B_def opcode_MOVB0toB7_def opcode_MOVB8toBF_def Let_def
      bind_Some_iff R_refl
      split: if_splits option.splits intro!: step_intros elim!: step_elims)

lemma mov_imm_ops:
  "opcode_MOVC6 i s = Some (r, j, t) \<Longrightarrow> R s t"
  "opcode_MOVC7 i s = Some (r, j, t) \<Longrightarrow> R s t"
  "opcode_MOV0F20 i s = Some (r, j, t) \<Longrightarrow> R s t"
  by (auto simp: opcode_MOVC6_def opcode_MOVC7_def opcode_MOV0F20_def Let_def
      bind_Some_iff R_refl
      split: if_splits option.splits intro!: step_intros elim!: step_elims)

lemma xor_op: "opcode_XOR31 i s = Some (r, j, t) \<Longrightarrow> R s t"
  by (auto simp: opcode_XOR31_def Let_def bind_Some_iff R_refl
      split: if_splits option.splits intro!: step_intros elim!: step_elims)


lemma mov_seg_op: "opcode_MOV8E i s = Some (r, j, t) \<Longrightarrow> R s t"
  by (auto simp: opcode_MOV8E_def bind_Some_iff R_refl dest: handleMODRM_opperand
      split: if_splits option.splits intro!: step_intros elim!: step_elims)

lemma memu: "R s t \<Longrightarrow> R s (t\<lparr>mem := m\<rparr>)"
  using R_trans R_mem by blast

lemma movs_op: "opcode_MOVSA5 i s = Some (r, j, t) \<Longrightarrow> R s t"
  by (auto simp: opcode_MOVSA5_def Let_def bind_Some_iff R_refl
      split: if_splits intro!: rgs memu elim!: mapd)

text \<open>The control register handlers are held to the same contract.\<close>

lemma cr_ops:
  assumes "cr_respects R cr"
  shows "opcode_LMSW cr i s = Some (r, j, t) \<Longrightarrow> R s t"
    and "opcode_MOV0F22 cr i s = Some (r, j, t) \<Longrightarrow> R s t"
  using assms
  by (auto simp: opcode_LMSW_def opcode_MOV0F22_def cr_respects_def bind_Some_iff R_refl
      split: if_splits option.splits intro: R_trans [OF R_map])

lemmas op_rules = control_ops dtr_ops stack_ops flag_ops mov_ops mov_imm_ops xor_op
  mov_seg_op movs_op

lemma dispatch_0F_step:
  assumes "cr_respects R cr"
    and "dispatch_0F cr b i s = Some (r, j, t)"
  shows "R s t"
  using assms(2) cr_ops [OF assms(1)]
  by (auto simp: dispatch_0F_def bind_Some_iff R_refl dest: op_rules split: if_splits)

lemma dispatch_step:
  assumes "cr_respects R cr"
    and "dispatch cr b i s = Some (r, j, t)"
  shows "R s t"
  using assms(2) dispatch_0F_step [OF assms(1)]
  by (auto simp: dispatch_def bind_Some_iff R_refl dest: op_rules split: if_splits)

lemma instruction_step:
  assumes "cr_respects R cr"
    and "emulateRMinstruction cr s = Some (h, t)"
  shows "R s t"
proof -
  obtain r j u where e: "emulateRMinstruction2 cr zero_id s = Some (r, j, u)"
    using assms(2) by (auto simp: emulateRMinstruction_def Let_def bind_Some_iff)
  then have t: "R s u \<Longrightarrow> R s t"
    using assms(2)
    by (auto simp: emulateRMinstruction_def clear_old_blocking_def Let_def
        intro!: vmw split: if_splits)
  from e have "R s u"
    by (auto simp: emulateRMinstruction2_def Let_def bind_Some_iff R_refl
        dest: dispatch_step [OF assms(1)] split: if_splits prod.splits)
  then show ?thesis by (rule t)
qed

lemma test_step: "testRMinterrupt s = Some t \<Longrightarrow> R s t"
  by (auto simp: testRMinterrupt_def R_refl split: if_splits prod.splits option.splits
      intro: window [OF _ R_refl] interrupt [OF _ window [OF _ R_refl]])

lemma loop_step:
  assumes "cr_respects R cr"
    and "emulateRealMode_loop cr res ok s = Some (b, t)"
  shows "R s t"
proof -
  have "cr_respects R cr \<longrightarrow> R s (snd (b, t))"
  proof (rule emulateRealMode_loop.raw_induct
      [where P = "\<lambda>cr res ok s y. cr_respects R cr \<longrightarrow> R s (snd y)", OF _ assms(2)], rule impI)
    fix loop cr res ok s y
    assume IH: "\<And>cr res ok s y. loop cr res ok s = Some y \<Longrightarrow> cr_respects R cr \<longrightarrow> R s (snd y)"
      and cr: "cr_respects R cr"
      and run: "(if \<not> (ISREALMODE s \<and> res) then Some (ok, s)
        else do {
          buf \<leftarrow> ReadVMMemory s (vmread s vm_guest_cs_base + vmread s vm_guest_rip) 30;
          (if buf = [] then Some (False, s)
           else do {
             (r, s1) \<leftarrow> emulateRMinstruction cr s;
             (if r then do { s2 \<leftarrow> testRMinterrupt s1; loop cr True True s2 }
              else loop cr False ok s1) }) }) = Some y"
    have "R s (snd y)" if "emulateRMinstruction cr s = Some (r, u)" "testRMinterrupt u = Some v"
      "loop cr True True v = Some y" for r u v
      using instruction_step [OF cr that(1)] test_step [OF that(2)] IH [OF that(3)] cr R_trans
      by blast
    moreover have "R s (snd y)" if "emulateRMinstruction cr s = Some (r, u)"
      "loop cr False ok u = Some y" for r u
      using instruction_step [OF cr that(1)] IH [OF that(2)] cr R_trans by blast
    ultimately show "R s (snd y)"
      using run by (auto simp: bind_Some_iff R_refl split: if_splits)
  qed
  with assms(1) show ?thesis by simp
qed

end

section \<open>Frames\<close>

text \<open>\<open>F\<close> are the VMCS fields the control register handlers write.\<close>

definition field_frame :: "nat set \<Rightarrow> machine \<Rightarrow> machine \<Rightarrow> bool" where
  "field_frame F s t \<longleftrightarrow> (\<forall>f. f \<notin> rm_fields \<union> F \<longrightarrow> vmread t f = vmread s f)"

interpretation ff: rm_step "field_frame F" for F
proof
  show "mapVMmemory s a sz = Some (e, pf, w, t) \<Longrightarrow> field_frame F s t" for s a sz e pf w t
    by (drule mapVMmemory_same) (simp add: field_frame_def same_guest_vmread)
qed (auto simp: field_frame_def vmread_def vmwrite_def)

definition cpu_frame :: "machine \<Rightarrow> machine \<Rightarrow> bool" where
  "cpu_frame s t \<longleftrightarrow> isAMD t = isAMD s \<and> vmmstart t = vmmstart s
     \<and> virtualTLB (cpu t) = virtualTLB (cpu s) \<and> virtualTLB_Max (cpu t) = virtualTLB_Max (cpu s)"

interpretation cf: rm_step cpu_frame
proof
  show "mapVMmemory s a sz = Some (e, pf, w, t) \<Longrightarrow> cpu_frame s t" for s a sz e pf w t
    by (drule mapVMmemory_same) (simp add: cpu_frame_def same_guest_fields)
qed (auto simp: cpu_frame_def vmwrite_def)

section \<open>Properties of the emulator loop\<close>

lemma sample_zero_fetch: "fetch sample = Some (replicate 30 0)"
proof -
  have a: "getPhysicalAddressVM sample 0x7c00 = Some (Some 0x7c00)" by simp
  have "map (\<lambda>i. sample_mem (0x7c00 + of_nat i)) [0..<30] = replicate 30 0"
  proof (rule nth_equalityI)
    fix k assume "k < length (map (\<lambda>i. sample_mem (0x7c00 + of_nat i)) [0..<30])"
    then have k: "k < 30" by simp
    then have "unat ((0x7c00 :: UINT64) + of_nat k) = 0x7c00 + k"
      using low_add [of "0x7c00" 30 k] by simp
    with k have "(0x7c00 :: UINT64) + of_nat k \<noteq> 0x100000" by (auto simp: word_unat_eq_iff)
    with k show "map (\<lambda>i. sample_mem (0x7c00 + of_nat i)) [0..<30] ! k = replicate 30 0 ! k"
      by (simp add: sample_mem_def)
  qed simp
  moreover have "mem sample = sample_mem" by (simp add: sample_def)
  ultimately have "ReadBytesFromPage sample 0x7c00 30 = Some (replicate 30 0)"
    using a by (simp add: ReadBytesFromPage_def)
  then have "ReadVMMemory sample 0x7c00 30 = Some (replicate 30 0)"
    by (simp add: ReadVMMemory.simps [of sample "0x7c00"] ReadVMMemory.simps [of _ _ 0]
        numeral_eq_Suc)
  then show ?thesis by (simp add: vmread_def sample_def)
qed

lemma sample_instruction: "emulateRMinstruction cr sample = Some (False, sample)"
proof -
  have "fetch sample = Some (0 # replicate 29 0)" using sample_zero_fetch replicate_Suc [of 29 "0 :: BYTE"] by simp
  then have "emulateRMinstruction2 cr zero_id sample
      = dispatch cr 0 (plain_id sample (0 # replicate 29 0)) sample"
    by (rule emulate_plain) (simp add: is_prefix_def)
  then show ?thesis
    by (simp add: emulateRMinstruction_def dispatch_def)
qed

lemma sample_run: "emulateRealMode cr sample = Some (False, sample)"
proof -
  have "ISREALMODE sample" by (simp add: ISREALMODE_def sample_def vmread_def)
  then show ?thesis
    using sample_zero_fetch
    by (simp add: emulateRealMode_def emulateRealMode_loop.simps [of cr True]
        emulateRealMode_loop.simps [of cr False] sample_instruction)
qed

text \<open>
  Isolation. However many instructions \<^verbatim>\<open>emulateRealMode\<close> runs and whatever they are, the
  VMCS keeps every field that is not guest register state (segment registers, RSP, RIP,
  RFLAGS, interruptibility) or a field the control register handlers write; in
  particular no guest instruction reaches the host state or the execution controls.
\<close>

theorem emulateRealMode_isolation:
  assumes "cr_respects (field_frame F) cr" "emulateRealMode cr s = Some (b, t)"
    and "f \<notin> rm_fields" "f \<notin> F"
  shows "vmread t f = vmread s f"
  using ff.loop_step [OF assms(1)] assms(2-4)
  by (simp add: emulateRealMode_def field_frame_def)

theorem emulateRealMode_isolation_witness:
  "emulateRealMode sample_cr sample = Some (False, sample)
    \<and> vmread sample vm_entry_controls = vmread sample vm_entry_controls"
proof
  have "cr_respects (field_frame {vm_cr0_fakeread, vm_cr4_fakeread}) sample_cr"
    by (auto simp: cr_respects_def field_frame_def sample_cr_def)
  then show "vmread sample vm_entry_controls = vmread sample vm_entry_controls"
    using sample_run
    by (rule emulateRealMode_isolation) (auto simp: rm_fields_def)
qed (rule sample_run)

text \<open>
  The virtual TLB that guest memory accesses rely on stays allocated, and the kind of
  processor and the start of the hypervisor's memory stay what they are, over any run of the
  emulator.
\<close>

theorem emulateRealMode_keeps_tlb:
  assumes "cr_respects cpu_frame cr" "emulateRealMode cr s = Some (b, t)" "tlb_ready s"
  shows "tlb_ready t \<and> isAMD t = isAMD s \<and> vmmstart t = vmmstart s"
  using cf.loop_step [OF assms(1)] assms(2,3)
  by (simp add: emulateRealMode_def cpu_frame_def tlb_ready_def)

theorem emulateRealMode_keeps_tlb_witness:
  "tlb_ready sample \<and> isAMD sample = isAMD sample \<and> vmmstart sample = vmmstart sample"
proof -
  have "cr_respects cpu_frame sample_cr"
    by (auto simp: cr_respects_def cpu_frame_def sample_cr_def)
  then show ?thesis using sample_run sample_tlb_ready by (rule emulateRealMode_keeps_tlb)
qed



section \<open>Instructions that are not emulated\<close>

definition unchanged :: "machine \<Rightarrow> machine \<Rightarrow> bool" where
  "unchanged s t \<longleftrightarrow> same_guest s t \<and> mem t = mem s"

lemma unchanged_refl [simp]: "unchanged s s"
  by (simp add: unchanged_def)

lemma unchanged_map: "mapVMmemory s a sz = Some (e, pf, w, t) \<Longrightarrow> unchanged s t"
  by (simp add: unchanged_def mapVMmemory_same mapVMmemory_state(2))

lemma refused_control:
  "opcode_CALLE8 i s = Some (r, j, t) \<Longrightarrow> r \<notin> {0, 2} \<Longrightarrow> unchanged s t"
  "opcode_HLTF4 i s = Some (r, j, t) \<Longrightarrow> r \<notin> {0, 2} \<Longrightarrow> unchanged s t"
  "opcode_INTCD i s = Some (r, j, t) \<Longrightarrow> r \<notin> {0, 2} \<Longrightarrow> unchanged s t"
  "opcode_JMPE9 i s = Some (r, j, t) \<Longrightarrow> r \<notin> {0, 2} \<Longrightarrow> unchanged s t"
  "opcode_JMPEA i s = Some (r, j, t) \<Longrightarrow> r \<notin> {0, 2} \<Longrightarrow> unchanged s t"
  "opcode_JMPEB i s = Some (r, j, t) \<Longrightarrow> r \<notin> {0, 2} \<Longrightarrow> unchanged s t"
  "opcode_RETC3 i s = Some (r, j, t) \<Longrightarrow> r \<notin> {0, 2} \<Longrightarrow> unchanged s t"
  "opcode_LGDT i s = Some (r, j, t) \<Longrightarrow> r \<notin> {0, 2} \<Longrightarrow> unchanged s t"
  "opcode_LIDT i s = Some (r, j, t) \<Longrightarrow> r \<notin> {0, 2} \<Longrightarrow> unchanged s t"
  by (auto simp: opcode_CALLE8_def opcode_HLTF4_def opcode_INTCD_def opcode_JMPE9_def
      opcode_JMPEA_def opcode_JMPEB_def opcode_RETC3_def opcode_LGDT_def opcode_LIDT_def
      Let_def bind_Some_iff split: if_splits)

lemma refused_stack:
  "opcode_POP58to5F n i s = Some (r, j, t) \<Longrightarrow> r \<notin> {0, 2} \<Longrightarrow> unchanged s t"
  "opcode_PUSH50to57 n i s = Some (r, j, t) \<Longrightarrow> r \<notin> {0, 2} \<Longrightarrow> unchanged s t"
  "opcode_POPSegment m i s = Some (r, j, t) \<Longrightarrow> r \<notin> {0, 2} \<Longrightarrow> unchanged s t"
  "opcode_PUSHSegment m i s = Some (r, j, t) \<Longrightarrow> r \<notin> {0, 2} \<Longrightarrow> unchanged s t"
  "opcode_PUSH68 i s = Some (r, j, t) \<Longrightarrow> r \<notin> {0, 2} \<Longrightarrow> unchanged s t"
  "opcode_CLI i s = Some (r, j, t) \<Longrightarrow> r \<notin> {0, 2} \<Longrightarrow> unchanged s t"
  "opcode_STI i s = Some (r, j, t) \<Longrightarrow> r \<notin> {0, 2} \<Longrightarrow> unchanged s t"
  "opcode_CLD i s = Some (r, j, t) \<Longrightarrow> r \<notin> {0, 2} \<Longrightarrow> unchanged s t"
  by (auto simp: opcode_POP58to5F_def opcode_PUSH50to57_def opcode_POPSegment_def
      opcode_PUSHSegment_def opcode_PUSH68_def opcode_CLI_def opcode_STI_def opcode_CLD_def
      Let_def bind_Some_iff split: if_splits)

lemma refused_mov:
  "opcode_MOV8B i s = Some (r, j, t) \<Longrightarrow> r \<notin> {0, 2} \<Longrightarrow> unchanged s t"
  "opcode_MOV8E i s = Some (r, j, t) \<Longrightarrow> r \<notin> {0, 2} \<Longrightarrow> unchanged s t"
  "opcode_MOVSA5 i s = Some (r, j, t) \<Longrightarrow> r \<notin> {0, 2} \<Longrightarrow> unchanged s t"
  "opcode_MOVB0toB7 n i s = Some (r, j, t) \<Longrightarrow> r \<notin> {0, 2} \<Longrightarrow> unchanged s t"
  "opcode_MOVB8toBF n i s = Some (r, j, t) \<Longrightarrow> r \<notin> {0, 2} \<Longrightarrow> unchanged s t"
  by (auto simp: opcode_MOV8B_def opcode_MOV8E_def opcode_MOVSA5_def opcode_MOVB0toB7_def
      opcode_MOVB8toBF_def Let_def bind_Some_iff split: if_splits option.splits)

lemma refused_imm:
  "opcode_MOVC6 i s = Some (r, j, t) \<Longrightarrow> r \<notin> {0, 2} \<Longrightarrow> unchanged s t"
  "opcode_MOVC7 i s = Some (r, j, t) \<Longrightarrow> r \<notin> {0, 2} \<Longrightarrow> unchanged s t"
  "opcode_MOV0F20 i s = Some (r, j, t) \<Longrightarrow> r \<notin> {0, 2} \<Longrightarrow> unchanged s t"
  "opcode_XOR31 i s = Some (r, j, t) \<Longrightarrow> r \<notin> {0, 2} \<Longrightarrow> unchanged s t"
  by (auto simp: opcode_MOVC6_def opcode_MOVC7_def opcode_MOV0F20_def opcode_XOR31_def
      Let_def bind_Some_iff intro: unchanged_map split: if_splits option.splits)

text \<open>A refusal by one of the control register handlers, in the state before the instruction.\<close>

definition cr_refused :: "cr_handlers \<Rightarrow> machine \<Rightarrow> machine \<Rightarrow> bool" where
  "cr_refused cr s t \<longleftrightarrow> (\<exists>v u r. unchanged s u \<and> r \<notin> {0, 2}
     \<and> (cr_CR0 cr v u = Some (r, t) \<or> cr_CR3 cr v u = Some (r, t)
        \<or> cr_CR4 cr v u = Some (r, t)))"

lemma refused_cr:
  "opcode_LMSW cr i s = Some (r, j, t) \<Longrightarrow> r \<notin> {0, 2} \<Longrightarrow> unchanged s t \<or> cr_refused cr s t"
  "opcode_MOV0F22 cr i s = Some (r, j, t) \<Longrightarrow> r \<notin> {0, 2} \<Longrightarrow> unchanged s t \<or> cr_refused cr s t"
proof -
  assume "opcode_LMSW cr i s = Some (r, j, t)" "r \<notin> {0, 2}"
  then show "unchanged s t \<or> cr_refused cr s t"
    unfolding opcode_LMSW_def bind_Some_iff cr_refused_def
    by (auto simp: bind_Some_iff dest: unchanged_map split: if_splits option.splits)
      (use unchanged_map unchanged_refl in blast)+
next
  assume "opcode_MOV0F22 cr i s = Some (r, j, t)" "r \<notin> {0, 2}"
  then show "unchanged s t \<or> cr_refused cr s t"
    unfolding opcode_MOV0F22_def bind_Some_iff cr_refused_def
    by (auto simp: bind_Some_iff split: if_splits option.splits)
      (use unchanged_refl in blast)+
qed

lemmas refused = refused_control refused_stack refused_mov refused_imm

lemma dispatch_0F_refused:
  "dispatch_0F cr b i s = Some (r, j, t) \<Longrightarrow> r \<notin> {0, 2} \<Longrightarrow> unchanged s t \<or> cr_refused cr s t"
  by (simp only: dispatch_0F_def split: if_splits)
    (auto simp: bind_Some_iff dest: refused refused_cr split: if_splits)

lemma dispatch_refused:
  "dispatch cr b i s = Some (r, j, t) \<Longrightarrow> r \<notin> {0, 2} \<Longrightarrow> unchanged s t \<or> cr_refused cr s t"
  by (simp only: dispatch_def split: if_splits)
    (auto simp: bind_Some_iff dest: refused dispatch_0F_refused split: if_splits)

text \<open>
  C4: no half-executed instructions. An instruction that \<^verbatim>\<open>emulateRMinstruction\<close> reports as
  not emulated has changed no guest register, no VMCS field and no byte of memory, unless it
  was refused by a control register handler, which then ran on the unchanged state.
\<close>

theorem not_emulated_unchanged:
  assumes "emulateRMinstruction cr s = Some (False, t)"
  shows "unchanged s t \<or> cr_refused cr s t"
proof -
  obtain r j where e: "emulateRMinstruction2 cr zero_id s = Some (r, j, t)" and r: "r \<notin> {0, 2}"
    using assms by (auto simp: emulateRMinstruction_def Let_def bind_Some_iff split: if_splits)
  from e have "t = s \<or> (\<exists>b i. dispatch cr b i s = Some (r, j, t))"
    by (auto simp: emulateRMinstruction2_def Let_def bind_Some_iff split: if_splits prod.splits)
  then show ?thesis using dispatch_refused r by fastforce
qed

theorem not_emulated_unchanged_witness:
  "unchanged sample sample \<or> cr_refused sample_cr sample sample"
  by (rule not_emulated_unchanged [OF sample_instruction [of sample_cr]])

end
