(* ===== verification/RM_Operands.thy ===== *)
theory RM_Operands
  imports RM_Safety
begin

text \<open>
  The operand decoder and the arithmetic of the real-mode emulator against the definition of
  the instruction set: the prefix loop, the 16-bit effective addresses of
  \<^verbatim>\<open>handleMODRM\<close>, XOR and its flags.
\<close>

unbundle bit_operations_syntax

section \<open>Prefixes\<close>

text \<open>
  The prefix loop. The prefixes of an instruction are the longest run of prefix bytes at its
  start; each is applied, in order, so of several segment overrides the last one counts.
\<close>

theorem skip_prefixes_run:
  "skip_prefixes s bs n i
    = (n + length (takeWhile is_prefix bs), fold (apply_prefix s) (takeWhile is_prefix bs) i)"
  by (induction bs arbitrary: n i) simp_all

section \<open>16-bit effective addresses\<close>

text \<open>
  The addressing forms as the processor defines them, in 16-bit arithmetic: the register
  part, the default segment (SS for the forms based on BP), and the address for a
  displacement.
\<close>

definition ea16_offset :: "machine \<Rightarrow> nat \<Rightarrow> WORD" where
  "ea16_offset s rm =
     (let bx = ucast (rbx (regs s)); bp = ucast (rbp (regs s));
          si = ucast (rsi (regs s)); di = ucast (rdi (regs s))
      in [bx + si, bx + di, bp + si, bp + di, si, di, bp, bx] ! rm)"

definition ea16_segment :: "machine \<Rightarrow> UINT64 \<Rightarrow> nat \<Rightarrow> UINT64" where
  "ea16_segment s ds rm = (if rm \<in> {2, 3} then vmread s vm_guest_ss_base else ds)"

definition modrm16_ref :: "machine \<Rightarrow> INSTRUCTIONDATA \<Rightarrow> BYTE \<Rightarrow> INSTRUCTIONDATA option" where
  "modrm16_ref s i modrm =
     (let sz = id_size i + 1; j = i\<lparr>id_opperand := RegOpcode modrm\<rparr>;
          seg = ea16_segment s (id_segmentbase i) (RM modrm);
          at = (\<lambda>off n. j\<lparr>id_segmentbase := seg, id_address := seg + ucast (off :: WORD),
                          id_size := sz + n\<rparr>)
      in if MOD modrm = 3 then Some (j\<lparr>id_opperand2 := Some (RM modrm), id_size := sz\<rparr>)
         else if MOD modrm = 0 \<and> RM modrm = 6 then map_option (\<lambda>d. at d 2) (insn16 i sz)
         else if MOD modrm = 0 then Some (at (ea16_offset s (RM modrm)) 0)
         else map_option (\<lambda>d. at (ea16_offset s (RM modrm) + scast d) 1) (insn8 i sz))"

lemma RM_less: "RM b < 8"
proof -
  have "b AND 7 \<le> 7" by (rule word_and_le1)
  then show ?thesis by (simp add: RM_def word_le_nat_alt)
qed

lemma MOD_less: "MOD b < 4"
proof -
  have "unat b < 256" using unsigned_less [of b] by simp
  then have "unat b div 64 < 4" by (simp add: div_less_iff_less_mult)
  then show ?thesis by (simp add: MOD_def drop_bit_eq_div unat_div)
qed

lemma ea16_sum:
  assumes "rm < 8"
  shows "rm16_sum s rm AND 0xffff = ucast (ea16_offset s rm)"
    and "(rm16_sum s rm + scast (d :: BYTE)) AND 0xffff = ucast (ea16_offset s rm + scast d)"
proof -
  have *: "ucast (rm16_sum s rm) = ea16_offset s rm"
  proof -
    have "rm \<in> {0, 1, 2, 3, 4, 5, 6, 7}" using assms by auto
    then show ?thesis
      by (elim insertE emptyE) (simp_all add: rm16_sum_def ea16_offset_def Let_def ucast_add16)
  qed
  have **: "ucast (scast d :: UINT64) = (scast d :: WORD)"
    by (rule bit_word_eqI) (auto simp: bit_simps)
  show "rm16_sum s rm AND 0xffff = ucast (ea16_offset s rm)"
    by (simp add: and_ffff flip: ucast_ucast16 *)
  show "(rm16_sum s rm + scast d) AND 0xffff = ucast (ea16_offset s rm + scast d)"
    by (simp add: and_ffff ucast_add16 * ** flip: ucast_ucast16)
qed



text \<open>
  With a 16-bit displacement the segment base is lost. The mask is applied to the whole
  linear address, so whatever the segment, the operand lies in the first 64 KB of memory.
\<close>

theorem handleMODRM_disp16_wraps:
  assumes "\<not> id_addresssize i" "insn8 i (id_size i) = Some modrm" "MOD modrm = 2"
    and "handleMODRM s i = Some j"
  shows "id_address j < 0x10000"
proof -
  have "x AND 0xffff < 0x10000" for x :: UINT64
  proof -
    have "x AND 0xffff \<le> 0xffff" by (rule word_and_le1)
    then show ?thesis by (simp add: word_less_nat_alt word_le_nat_alt)
  qed
  then show ?thesis
    using assms
    by (auto simp: handleMODRM_def handleMODRM16_def Let_def bind_Some_iff simp del: and_ffff)
qed

theorem handleMODRM_disp16_wraps_witness:
  "id_address (the (handleMODRM sample (zero_id\<lparr>id_segmentbase := 0x90000,
     id_instruction := [0x8b, 0x87, 0, 1], id_size := 1\<rparr>))) < 0x10000"
proof (rule handleMODRM_disp16_wraps)
  let ?i = "zero_id\<lparr>id_segmentbase := 0x90000, id_instruction := [0x8b, 0x87, 0, 1], id_size := 1\<rparr>"
  show "insn8 ?i (id_size ?i) = Some 0x87"
    by (simp add: zero_id_def insn8_def insn_bytes_def)
  show "handleMODRM sample ?i = Some (the (handleMODRM sample ?i))"
    by (simp add: zero_id_def handleMODRM_def handleMODRM16_def insn8_def insn16_def
        insn_bytes_def MOD_def RM_def Let_def)
qed (simp_all add: zero_id_def MOD_def)

section \<open>XOR and the parity flag\<close>

fun bit_length :: "nat \<Rightarrow> nat" where
  "bit_length n = (if n = 0 then 0 else Suc (bit_length (n div 2)))"

declare bit_length.simps [simp del]

lemma parity_loop_count:
  "parity_loop b v c = (if b then c + bit_length v else c)"
  by (induction b v c rule: parity_loop.induct)
    (subst parity_loop.simps, subst bit_length.simps, auto)

text \<open>
  \<^verbatim>\<open>getparityflag\<close> tests the lowest bit of its argument in every round of its loop, so
  it tells whether the argument is even or its binary length is, not whether the number of its
  one bits is; for 2 it gives the wrong flag.
\<close>

theorem getparityflag_is_not_parity:
  "(getparityflag v \<longleftrightarrow> even (unat v) \<or> even (bit_length (unat v)))
    \<and> getparityflag 2 \<and> odd (card {k. bit (2 :: BYTE) k})"
proof -
  have "{k. bit (2 :: BYTE) k} = {1}"
    by (auto simp: bit_2_iff)
  then show ?thesis
    by (auto simp: getparityflag_def parity_loop_count odd_iff_mod_2_eq_one even_iff_mod_2_eq_zero)
qed

lemma register_form:
  assumes "insn8 i (id_size i) = Some modrm" "MOD modrm = 3"
  shows "handleMODRM s i = Some (i\<lparr>id_opperand := RegOpcode modrm, id_size := id_size i + 1,
    id_opperand2 := Some (RM modrm)\<rparr>)"
  using assms by (simp add: handleMODRM_def handleMODRM16_def handleMODRM32_def Let_def)

text \<open>
  The zeroing idiom. XOR of a 16-bit register with itself clears its low word, keeps the
  rest of the register, sets ZF and PF and clears CF and OF.
\<close>

theorem xor_self_clears:
  assumes "\<not> id_opperandsize i" "\<not> id_error i" "insn8 i (id_size i) = Some modrm"
    and "MOD modrm = 3" "RegOpcode modrm = RM modrm"
  shows "\<exists>j t. opcode_XOR31 i s = Some (0, j, t)
    \<and> gpr t (RM modrm) = gpr s (RM modrm) AND 0xffffffffffff0000
    \<and> bit (vmread t vm_guest_rflags) 6 \<and> bit (vmread t vm_guest_rflags) 2
    \<and> \<not> bit (vmread t vm_guest_rflags) 0 \<and> \<not> bit (vmread t vm_guest_rflags) 11"
proof -
  let ?n = "RM modrm"
  have n: "?n < 8" by (rule RM_less)
  have x: "ucast (ucast (gpr s ?n XOR ((gpr s ?n AND 0xffff) AND 0xffff)) :: DWORD) = (0 :: WORD)"
    by (rule bit_word_eqI) (auto simp: bit_simps and_ffff)
  obtain j where r: "opcode_XOR31 i s = Some (0, j, vmwrite vm_guest_rflags
      (xor_flags 0 (vmread s vm_guest_rflags)) (set_gpr16 ?n 0 s))"
    using assms n x
    by (simp add: opcode_XOR31_def register_form [OF assms(3,4)] getOpperandValue_def Let_def)
  have z: "getparityflag 0" by (simp add: getparityflag_def parity_loop_count bit_length.simps)
  have g: "gpr (vmwrite vm_guest_rflags v t) k = gpr t k" for v t k
    by (simp add: gpr_def Let_def)
  have "gpr (set_gpr16 ?n 0 s) ?n = gpr s ?n AND 0xffffffffffff0000"
    using gpr_set16(1) [OF n n] by simp
  with r show ?thesis
    by (auto simp: g xor_flags_def z set_flag_def bit_simps)
qed

theorem xor_self_clears_witness:
  "\<exists>j t. opcode_XOR31 (zero_id\<lparr>id_instruction := [0x31, 0xc0], id_size := 1\<rparr>) sample
      = Some (0, j, t)
    \<and> gpr t (RM 0xc0) = gpr sample (RM 0xc0) AND 0xffffffffffff0000
    \<and> bit (vmread t vm_guest_rflags) 6 \<and> bit (vmread t vm_guest_rflags) 2
    \<and> \<not> bit (vmread t vm_guest_rflags) 0 \<and> \<not> bit (vmread t vm_guest_rflags) 11"
  by (rule xor_self_clears)
    (simp_all add: zero_id_def insn8_def insn_bytes_def MOD_def RM_def RegOpcode_def)

end
