(* ===== verification/Emulator_Isolation.thy ===== *)
theory Emulator_Isolation
  imports RM_Operands Control_Registers
begin

text \<open>
  The real-mode emulator with the hypervisor's own control register handlers: the contract
  the emulator asks of the handlers (\<open>cr_respects\<close> of the theory \<open>RM_Safety\<close>) is discharged for
  the handlers of \<open>Control_Registers\<close>, which closes the isolation theorems.
\<close>

definition dbvm_cr :: cr_handlers where
  "dbvm_cr = \<lparr>cr_CR0 = setVM_CR0, cr_CR3 = setVM_CR3, cr_CR4 = setVM_CR4\<rparr>"

definition cr_fields :: "nat set" where
  "cr_fields = {vm_cr0_fakeread, vm_cr4_fakeread, vm_guest_cr0} \<union> switch_fields"

lemma touches_frames:
  assumes "touches F u t" "F \<subseteq> cr_fields" "\<forall>f. f \<notin> cr_fields \<longrightarrow> vmread u f = vmread s f"
    "virtualTLB (cpu u) = virtualTLB (cpu s)" "virtualTLB_Max (cpu u) = virtualTLB_Max (cpu s)"
    "isAMD u = isAMD s" "vmmstart u = vmmstart s"
  shows "field_frame cr_fields s t \<and> cpu_frame s t"
  using assms by (auto simp: field_frame_def cpu_frame_def touches_def vmread_def)

lemma dbvm_cr_frames:
  assumes "setVM_CR0 v s = Some (r, t) \<or> setVM_CR3 v s = Some (r, t) \<or> setVM_CR4 v s = Some (r, t)"
  shows "field_frame cr_fields s t \<and> cpu_frame s t"
  using assms
proof (elim disjE)
  assume "setVM_CR0 v s = Some (r, t)"
  from setVM_CR0_touches [OF this] show ?thesis
    by (rule touches_frames) (auto simp: cr_fields_def cr0_seen_def)
next
  assume "setVM_CR3 v s = Some (r, t)"
  from setVM_CR3_touches [OF this] obtain u where "touches switch_fields u t"
    "\<forall>f. f \<notin> switch_fields \<longrightarrow> vmread u f = vmread s f" "virtualTLB (cpu u) = virtualTLB (cpu s)"
    "virtualTLB_Max (cpu u) = virtualTLB_Max (cpu s)" "isAMD u = isAMD s" "vmmstart u = vmmstart s"
    by blast
  then show ?thesis by (intro touches_frames [of switch_fields u t s]) (auto simp: cr_fields_def)
next
  assume "setVM_CR4 v s = Some (r, t)"
  from setVM_CR4_touches [OF this] show ?thesis
    by (rule touches_frames) (auto simp: cr_fields_def)
qed

lemma dbvm_cr_respects: "cr_respects (field_frame cr_fields) dbvm_cr" "cr_respects cpu_frame dbvm_cr"
  using dbvm_cr_frames by (auto simp: cr_respects_def dbvm_cr_def)

text \<open>
  C2: the emulator as it runs in the hypervisor. Whatever code a real-mode guest executes,
  including loads of the control registers, the VMCS fields that are neither guest
  registers nor written on a mode switch keep their values, among them all of the host state;
  and the virtual TLB stays allocated.
\<close>

theorem dbvm_isolation:
  assumes "emulateRealMode dbvm_cr s = Some (b, t)" "tlb_ready s"
    and "f \<notin> rm_fields" "f \<notin> cr_fields"
  shows "vmread t f = vmread s f \<and> tlb_ready t \<and> vmmstart t = vmmstart s"
proof -
  have "field_frame cr_fields s t"
    using ff.loop_step [OF dbvm_cr_respects(1)] assms(1) by (simp add: emulateRealMode_def)
  moreover have "cpu_frame s t"
    using cf.loop_step [OF dbvm_cr_respects(2)] assms(1) by (simp add: emulateRealMode_def)
  ultimately show ?thesis
    using assms(2-4) by (simp add: field_frame_def cpu_frame_def tlb_ready_def)
qed

theorem dbvm_isolation_witness:
  "emulateRealMode dbvm_cr sample = Some (False, sample)
    \<and> vmread sample 0x6c00 = vmread sample 0x6c00 \<and> tlb_ready sample \<and> vmmstart sample = vmmstart sample"
  using dbvm_isolation [OF sample_run sample_tlb_ready, of "0x6c00"] sample_run
  by (auto simp: rm_fields_def cr_fields_def switch_fields_def)

end
