(* ===== verification/RealMode_Events.thy ===== *)
theory RealMode_Events
  imports Task_Switch Emulator_Isolation
begin

text \<open>
  Exits of a guest in real mode: \<^verbatim>\<open>handleInterruptRealMode\<close> and \<^verbatim>\<open>handleInterrupt\<close> of
  \<^verbatim>\<open>dbvm/vmm/vmeventhandler.c\<close>. Three functions of the BIOS interrupt 15h are answered by
  the hypervisor, which hides its own memory in the answers; every other interrupt goes to the
  guest's handler, and every exception to the emulator.
\<close>

unbundle bit_operations_syntax

section \<open>The memory map\<close>

definition ARD_bytes :: "ARD \<Rightarrow> BYTE list" where
  "ARD_bytes a = le_bytes 4 (BaseAddrLow a) @ le_bytes 4 (BaseAddrHigh a) @ le_bytes 4 (LengthLow a)
     @ le_bytes 4 (LengthHigh a) @ le_bytes 4 (ARD_Type a)"

text \<open>
  One round of the loop for function E801h on (\<^verbatim>\<open>between1and16MB\<close>, \<^verbatim>\<open>above16MB\<close>); the
  sums wrap at 32 bits.
\<close>

definition e801_round :: "ARD \<Rightarrow> DWORD \<times> DWORD \<Rightarrow> DWORD \<times> DWORD" where
  "e801_round a acc =
     (let (between, above) = acc;
          start0 = BaseAddrLow a; stop = BaseAddrLow a + LengthLow a
      in if BaseAddrHigh a > 0 then acc
         else if ARD_Type a = 1 \<and> stop > 0x100000 then
           (let start1 = (if start0 < 0x100000 then 0x100000 else start0);
                tempstop = (if stop > 0x1000000 then 0x1000000 else stop);
                (between', start2) = (if start1 < 0x1000000 then (between + (tempstop - start1), tempstop)
                                      else (between, start1))
            in (between', if start2 \<ge> 0x1000000 then above + (stop - start2) else above))
         else acc)"

definition e801_sizes :: "dbvm_globals \<Rightarrow> DWORD \<times> DWORD" where
  "e801_sizes g = fold (\<lambda>i. e801_round (fakeARD g i)) [0..<nat (ARDcount g)] (0, 0)"

text \<open>
  The copy loop for E820h: \<open>n\<close> entries still fit, \<open>k\<close> are copied, \<open>i\<close> is next.
  \<open>None\<close> is an access outside \<^verbatim>\<open>fakeARD\<close> or outside the memory \<^verbatim>\<open>output\<close> reaches.
\<close>

fun e820_copy :: "nat \<Rightarrow> nat \<Rightarrow> int \<Rightarrow> UINT64 \<Rightarrow> machine \<Rightarrow> (nat \<times> int \<times> machine) option" where
  "e820_copy 0 k i out s = Some (k, i, s)"
| "e820_copy (Suc n) k i out s =
     (if \<not> i < ARDcount (globals s) then Some (k, i, s)
      else if i < 0 then None
      else do {
        s1 \<leftarrow> store (HostPtr out) (20 * k)
               (ARD_bytes (let a = fakeARD (globals s) (nat i) in if ARD_Type a = 255 then a\<lparr>ARD_Type := 2\<rparr> else a)) s;
        e820_copy n (k + 1) (i + 1) out s1 })"

section \<open>Interrupt 15h\<close>

definition low32 :: "UINT64 \<Rightarrow> UINT64 \<Rightarrow> UINT64" where
  "low32 r v = (r AND 0xffffffff00000000) + v"

definition low16 :: "UINT64 \<Rightarrow> UINT64 \<Rightarrow> UINT64" where
  "low16 r v = (r AND 0xffffffffffff0000) + v"

definition bios_return :: "bool \<Rightarrow> DWORD \<Rightarrow> machine \<Rightarrow> machine" where
  "bios_return carry issoftware s =
     (let s1 = vmwrite vm_guest_rip (vmread s vm_guest_rip + ucast issoftware) s
      in vmwrite vm_guest_rflags (if carry then vmread s1 vm_guest_rflags OR 1
           else vmread s1 vm_guest_rflags AND 0xfffffffffffffffe) s1)"

definition int15_e820 :: "DWORD \<Rightarrow> machine \<Rightarrow> machine option" where
  "int15_e820 issoftware s =
     (let r = regs s;
          startindex = sint (ucast (rbx r) :: 32 word);
          ecx = ucast (rcx r) :: ULONG
      in if ecx \<ge> 20 \<and> ucast (rdx r) = (0x534D4150 :: ULONG) \<and> startindex < ARDcount (globals s)
         then (let s1 = s\<lparr>regs := r\<lparr>rax := low32 (rax r) 0x534D4150\<rparr>\<rparr> in do {
           (k, i, s2) \<leftarrow> e820_copy (unat (ecx div 20)) 0 startindex
                           (vmread s1 vm_guest_es_base + (rdi r AND 0xffff)) s1;
           Some (bios_return False issoftware (s2\<lparr>regs := (regs s2)
             \<lparr>rbx := low32 (rbx (regs s2)) (if i \<ge> ARDcount (globals s2) then 0 else of_int i),
              rcx := low32 (rcx (regs s2)) (of_nat (k * 20))\<rparr>\<rparr>)) })
         else Some (bios_return True issoftware s))"

definition int15_e801 :: "DWORD \<Rightarrow> machine \<Rightarrow> machine" where
  "int15_e801 issoftware s =
     (let (between, above) = e801_sizes (globals s); r = regs s
      in bios_return False issoftware (s\<lparr>regs := r
           \<lparr>rax := low16 (rax r) (ucast (between div 1024)), rbx := low16 (rbx r) (ucast (above div (64 * 1024))),
            rcx := low16 (rcx r) (ucast (between div 1024)), rdx := low16 (rdx r) (ucast (above div (64 * 1024)))\<rparr>\<rparr>))"

definition int15_88 :: "DWORD \<Rightarrow> machine \<Rightarrow> machine" where
  "int15_88 issoftware s =
     bios_return False issoftware (s\<lparr>regs := (regs s)\<lparr>rax := low32 (rax (regs s)) 0xfc00\<rparr>\<rparr>)"

section \<open>Interrupts in real mode\<close>

text \<open>The length of a software interrupt, 0 for any other.\<close>

definition software_length :: "ULONG \<Rightarrow> machine \<Rightarrow> DWORD option" where
  "software_length idt s =
     (if ii_type idt = 4 then
        (let len = ucast (vmread s vm_exit_instructionlength) :: DWORD
         in if len = 2 then Some len
            else do {
              bs \<leftarrow> ReadVMMemory s (vmread s vm_guest_cs_base + vmread s vm_guest_rip) 1;
              Some (if bs \<noteq> [] \<and> hd bs = 0xcd then 2 else len) })
      else Some 0)"

definition handleInterruptRealMode :: "machine \<Rightarrow> machine option" where
  "handleInterruptRealMode s =
     (let idt = ucast (vmread s vm_idtvector_information) :: ULONG in
      if ii_valid idt then do {
        issoftware \<leftarrow> software_length idt s;
        (let hooked = (ii_vector idt = 0x15 \<and> issoftware \<noteq> 0); ax = rax (regs s) AND 0xffff in
         if hooked \<and> ax AND 0xff00 = 0x8800 then Some (int15_88 issoftware s)
         else if hooked \<and> ax = 0xe801 then Some (int15_e801 issoftware s)
         else if hooked \<and> ax = 0xe820 then int15_e820 issoftware s
         else emulateRMinterrupt (of_nat (ii_vector idt))
                (vmwrite vm_guest_rip (vmread s vm_guest_rip + ucast issoftware) s)) }
      else map_option snd (emulateRealMode dbvm_cr s))"

definition handleInterrupt :: "WORD \<Rightarrow> machine \<Rightarrow> machine option" where
  "handleInterrupt junk s =
     (if bit (vmread s vm_cr0_fakeread) 0 then handleInterruptProtectedMode junk s
      else handleInterruptRealMode s)"

section \<open>The memory map as the guest sees it\<close>

definition shown_ARD :: "ARD \<Rightarrow> ARD" where
  "shown_ARD a = (if ARD_Type a = 255 then a\<lparr>ARD_Type := 2\<rparr> else a)"

abbreviation e820_buffer :: "machine \<Rightarrow> UINT64" where
  "e820_buffer s \<equiv> vmread s vm_guest_es_base + (rdi (regs s) AND 0xffff)"

lemma ARD_bytes_length [simp]: "length (ARD_bytes a) = 20"
  by (simp add: ARD_bytes_def)

lemma ucast_low32: "ucast (low32 r (ucast (v :: ULONG))) = v"
proof -
  have mask: "(0xffffffff00000000 :: UINT64) = push_bit 32 (mask 32)"
    by (simp add: mask_eq_exp_minus_1 push_bit_eq_mult)
  have "(r AND 0xffffffff00000000) AND ucast v = 0"
    unfolding mask by (rule bit_word_eqI) (auto simp: bit_simps dest: bit_imp_le_length)
  then have "low32 r (ucast v) = (r AND 0xffffffff00000000) OR ucast v"
    by (simp add: low32_def and_zero_add_eq_or)
  then show ?thesis
    unfolding mask by simp (rule bit_word_eqI, auto simp: bit_simps)
qed

lemma bios_return_parts [simp]:
  "regs (bios_return c n s) = regs s" "mem (bios_return c n s) = mem s"
  by (simp_all add: bios_return_def Let_def)

lemma bios_return_reads:
  "vmread (bios_return c n s) vm_guest_rip = vmread s vm_guest_rip + ucast n"
  "bit (vmread (bios_return c n s) vm_guest_rflags) 0 = c"
proof -
  have "\<not> bit (x AND 0xfffffffffffffffe :: UINT64) 0" "bit (x OR 1 :: UINT64) 0" for x
    by (simp_all add: bit_and_iff bit_or_iff)
  then show "vmread (bios_return c n s) vm_guest_rip = vmread s vm_guest_rip + ucast n"
    "bit (vmread (bios_return c n s) vm_guest_rflags) 0 = c"
    by (auto simp: bios_return_def Let_def vm_width_def)
qed

lemma store_host:
  assumes "unat p + length bs \<le> 0x400000" "length bs \<le> 4096"
  obtains m where "store (HostPtr p) 0 bs s = Some (s\<lparr>mem := m\<rparr>)"
    "win_read m (HostPtr p) 0 (length bs) = Some bs"
proof -
  have "\<exists>m. win_write (mem s) (HostPtr p) 0 bs = Some m"
    using assms by (intro win_write_total) simp
  then obtain m where m: "win_write (mem s) (HostPtr p) 0 bs = Some m" by blast
  moreover from this have "win_read m (HostPtr p) 0 (length bs) = Some bs"
    using assms by (intro win_read_write) (simp_all add: window_ok_def)
  ultimately show ?thesis using that by (simp add: store_def)
qed

text \<open>
  C26: the memory map of interrupt 15h, function E820h. A guest that asks for one entry with
  index \<open>i\<close> in EBX gets the \<open>i\<close>-th entry of the hypervisor's map in its buffer, with the
  hypervisor's own memory shown as reserved, its length in ECX, and in EBX the next index, or
  0 after the last entry; the call returns behind the instruction with the carry flag clear.
  Starting at 0 and following EBX therefore enumerates the map.
\<close>

theorem e820_entry:
  assumes "ucast (rbx (regs s)) = (of_int i :: ULONG)" "0 \<le> i" "i < ARDcount (globals s)"
    and "ARDcount (globals s) < 0x80000000" "ucast (rcx (regs s)) = (20 :: ULONG)"
    and "ucast (rdx (regs s)) = (0x534D4150 :: ULONG)" "unat (e820_buffer s) + 20 \<le> 0x400000"
  shows "\<exists>t. int15_e820 n s = Some t
    \<and> win_read (mem t) (HostPtr (e820_buffer s)) 0 20 = Some (ARD_bytes (shown_ARD (fakeARD (globals s) (nat i))))
    \<and> ucast (rbx (regs t)) = (if i + 1 = ARDcount (globals s) then 0 else of_int (i + 1) :: ULONG)
    \<and> ucast (rcx (regs t)) = (20 :: ULONG) \<and> ucast (rax (regs t)) = (0x534D4150 :: ULONG)
    \<and> vmread t vm_guest_rip = vmread s vm_guest_rip + ucast n \<and> \<not> bit (vmread t vm_guest_rflags) 0"
proof -
  have si: "sint (of_int i :: ULONG) = i"
    using assms(2-4) by (simp add: signed_of_int signed_take_bit_int_eq_self)
  let ?s = "s\<lparr>regs := (regs s)\<lparr>rax := low32 (rax (regs s)) 0x534D4150\<rparr>\<rparr>"
  let ?bs = "ARD_bytes (shown_ARD (fakeARD (globals s) (nat i)))"
  obtain m where st: "store (HostPtr (e820_buffer s)) 0 ?bs ?s = Some (?s\<lparr>mem := m\<rparr>)"
    and rd: "win_read m (HostPtr (e820_buffer s)) 0 20 = Some ?bs"
    using assms(7) by - (rule store_host [of "e820_buffer s" ?bs ?s], simp_all)
  have copy: "e820_copy (Suc 0) 0 i (e820_buffer s) ?s = Some (1, i + 1, ?s\<lparr>mem := m\<rparr>)"
    using assms(2,3) st by (simp add: shown_ARD_def [symmetric] Let_def)
  have r: "ucast (low32 r 0x534D4150) = (0x534D4150 :: ULONG)" "ucast (low32 r 20) = (20 :: ULONG)"
      "ucast (low32 r 0) = (0 :: ULONG)" for r
    using ucast_low32 [of r "0x534D4150"] ucast_low32 [of r 20] ucast_low32 [of r 0] by simp_all
  have succ: "ucast (low32 r (of_int (i + 1))) = (of_int (i + 1) :: ULONG)" for r
  proof -
    have "(of_int j :: UINT64) = ucast (of_int j :: ULONG)" if "0 \<le> j" "j < 0x100000000" for j
      using that by (simp add: word_uint_eq_iff uint_word_of_int unsigned_ucast_eq take_bit_eq_mod)
    from this [of "i + 1"] have "(of_int (i + 1) :: UINT64) = ucast (of_int (i + 1) :: ULONG)"
      using assms(2-4) by linarith
    then show ?thesis using ucast_low32 [of r "of_int (i + 1)"] by (simp only:)
  qed
  have "int15_e820 n s = Some (bios_return False n (?s\<lparr>mem := m, regs := (regs ?s)
      \<lparr>rbx := low32 (rbx (regs s)) (if i + 1 \<ge> ARDcount (globals s) then 0 else of_int (i + 1)),
       rcx := low32 (rcx (regs s)) 20\<rparr>\<rparr>))"
    using assms(1,3,5,6) copy by (simp add: int15_e820_def Let_def si del: e820_copy.simps)
  then show ?thesis using rd r succ assms(3) by (auto simp: bios_return_reads)
qed

text \<open>A guest that asks for the first entry, to be put at 0:0x500.\<close>

abbreviation e820_guest :: machine where
  "e820_guest \<equiv> sample\<lparr>regs := (regs sample)\<lparr>rax := 0xe820, rbx := 0, rcx := 20, rdx := 0x534D4150,
     rdi := 0x500\<rparr>\<rparr>"

lemma e820_guest_buffer: "e820_buffer e820_guest = 0x500" "ARDcount (globals e820_guest) = 1"
  by (simp_all add: sample_def sample_globals_def vmread_def vm_width_def)

theorem e820_entry_witness:
  "\<exists>t. int15_e820 2 e820_guest = Some t \<and> win_read (mem t) (HostPtr 0x500) 0 20
      = Some (ARD_bytes \<lparr>BaseAddrLow = 0x100000, BaseAddrHigh = 0, LengthLow = 0x3f00000,
          LengthHigh = 0, ARD_Type = 1\<rparr>) \<and> ucast (rbx (regs t)) = (0 :: ULONG)"
  using e820_entry [of e820_guest 0 2] e820_guest_buffer
  by (auto simp: shown_ARD_def sample_def sample_globals_def)

text \<open>
  A negative index. EBX is compared with the number of entries as a signed number and not
  with 0, so a guest that sets its top bit makes the hypervisor read in front of its map.
\<close>

theorem e820_negative_index:
  assumes "sint (ucast (rbx (regs s)) :: ULONG) < 0" "0 \<le> ARDcount (globals s)"
    and "ucast (rcx (regs s)) \<ge> (20 :: ULONG)" "ucast (rdx (regs s)) = (0x534D4150 :: ULONG)"
  shows "int15_e820 n s = None"
proof -
  let ?n = "unat (ucast (rcx (regs s)) div 20 :: ULONG)"
  have "20 \<le> unat (ucast (rcx (regs s)) :: ULONG)" using assms(3) by (simp add: word_le_nat_alt)
  then have "0 < ?n" by (simp add: unat_div div_greater_zero_iff)
  then obtain k where "?n = Suc k" by (metis gr0_implies_Suc)
  then show ?thesis using assms by (simp add: int15_e820_def Let_def)
qed

theorem e820_negative_index_witness:
  "int15_e820 2 (e820_guest\<lparr>regs := (regs e820_guest)\<lparr>rbx := 0xffffffff\<rparr>\<rparr>) = None"
  using e820_guest_buffer(2) by (intro e820_negative_index) simp_all

end
