(* ===== verification/Invalid_State.thy ===== *)
theory Invalid_State
  imports RealMode_Events
begin

text \<open>
  Recovery from a guest state the processor refuses to enter,
  \<^verbatim>\<open>dbvm/vmm/vmevent_invalidstate.c\<close>, with \<^verbatim>\<open>setupTSS8086\<close> of \<^verbatim>\<open>vmmhelper.c\<close> and
  \<^verbatim>\<open>emulateProtectedMode\<close> of \<^verbatim>\<open>pmodeemu.c\<close>. In real mode the instruction is emulated,
  and when that fails the guest is put into virtual 8086 mode on tables of the hypervisor; in
  protected mode the segment registers are repaired.
\<close>

unbundle bit_operations_syntax

section \<open>The interruptibility state\<close>

definition fixInterruptabilityState :: "machine \<Rightarrow> machine" where
  "fixInterruptabilityState s =
     (let is0 = ucast (vmread s vm_guest_interruptability_state) AND 0x1f :: DWORD;
          is1 = (if bit (vmread s vm_guest_rflags) 9 then is0 else is0 AND 0x1e);
          is2 = (if is1 AND 3 = 3 then is1 AND 0x1e else is1);
          e = ucast (vmread s vm_entry_interruptioninfo) :: ULONG;
          is3 = (if ii_valid e \<and> ii_type e = 0 then is2 AND 0x1c else is2);
          is4 = (if ii_valid e \<and> ii_type e = 2 then is3 AND 0x1d else is3)
      in vmwrite vm_guest_interruptability_state (ucast is4) s)"

section \<open>Virtual 8086 mode\<close>

text \<open>
  The tables the hypervisor allocates at start-up, by their addresses, and its own descriptor
  table as the processor reports it.
\<close>

record vm86_tables =
  own_GDTbase :: UINT64
  own_GDTsize :: WORD
  idttable32 :: UINT64
  VirtualMachineTSS_V8086 :: UINT64
  RealmodeRing0Stack :: UINT64

text \<open>A store of the hypervisor through one of its pointers, byte by byte.\<close>

definition host_put :: "UINT64 \<Rightarrow> BYTE list \<Rightarrow> machine \<Rightarrow> machine" where
  "host_put va bs s =
     s\<lparr>mem := fold (\<lambda>k m. m(host_pa s (va + of_nat k) := bs ! k)) [0..<length bs] (mem s)\<rparr>"

abbreviation sizeof_TSS :: nat where "sizeof_TSS \<equiv> 104"

definition TSS8086 :: "ULONG \<Rightarrow> ULONG \<Rightarrow> ULONG list" where
  "TSS8086 esp0 cr3 =
     [0, esp0, 8, 0, 0, 0, 0, cr3, 0, 0x33000, 0, 0, 0, 0, 0xfff0, 0, 0, 0, 0, 0, 0, 0, 0, 0, 0,
      push_bit 16 (of_nat (sizeof_TSS + 32))]"

text \<open>
  The store meant for the interrupt redirection map adds \<^verbatim>\<open>sizeof(TSS)\<close> to a pointer to
  \<^verbatim>\<open>TSS\<close> and lands \<^verbatim>\<open>sizeof(TSS)\<close> structures further.
\<close>

definition setupTSS8086 :: "vm86_tables \<Rightarrow> machine \<Rightarrow> machine" where
  "setupTSS8086 v s =
     (let t = VirtualMachineTSS_V8086 v;
          (esp0, s1) = VirtualToPhysical (RealmodeRing0Stack v + 4096 - 16) s;
          (cr3, s2) = VirtualToPhysical (nonpagedEmulationPagedir s1) s1;
          s3 = host_put t (concat (map (le_bytes 4) (TSS8086 (ucast esp0) (ucast cr3)))) s2;
          s4 = host_put (t + of_nat sizeof_TSS) (replicate 32 0) s3;
          s5 = host_put (t + of_nat (sizeof_TSS * sizeof_TSS)) (le_bytes 4 (0x200000 :: ULONG)) s4;
          s6 = host_put (t + of_nat (sizeof_TSS + 31)) (replicate 8193 0) s5;
          s7 = host_put (t + of_nat (sizeof_TSS + 32 + 8192)) [0xff] s6
      in host_put (t + of_nat (sizeof_TSS + 2)) [0x20] s7)"

abbreviation vm_guest_ldtr :: nat where "vm_guest_ldtr \<equiv> 0x80c"
abbreviation vm_guest_ldtr_access_rights :: nat where "vm_guest_ldtr_access_rights \<equiv> 0x4820"

definition force_vm86 :: "vm86_tables \<Rightarrow> machine \<Rightarrow> machine" where
  "force_vm86 v s =
     (let (gdtbase, s1) = VirtualToPhysical (own_GDTbase v) s;
          (idtbase, s2) = VirtualToPhysical (idttable32 v) s1;
          s3 = vmwrite vm_guest_gdtr_base (take_bit 32 gdtbase) s2;
          s4 = vmwrite vm_guest_gdt_limit (ucast (own_GDTsize v)) s3;
          s5 = vmwrite vm_guest_idtr_base (take_bit 32 idtbase) s4;
          s6 = vmwrite vm_guest_idt_limit (256 * 8) s5;
          (trbase, s7) = VirtualToPhysical (VirtualMachineTSS_V8086 v) (setupTSS8086 v s6);
          s8 = vmwrite vm_guest_tr_base trbase s7;
          s9 = vmwrite vm_guest_tr_limit (of_nat (sizeof_TSS + 32 + 8192 + 1)) s8;
          s10 = vmwrite vm_guest_tr 64 s9;
          s11 = fold (\<lambda>i. vmwrite (0x4814 + 2 * i) realmode_rights) [0..<6] s10;
          s12 = vmwrite vm_guest_tr_access_rights 0x408b (vmwrite vm_guest_ldtr_access_rights 0x10000 s11);
          s13 = fold (\<lambda>i t. vmwrite (0x800 + 2 * i) (drop_bit 4 (take_bit 32 (vmread t (0x6806 + 2 * i)))) t)
                  [0..<6] s12;
          s14 = vmwrite vm_guest_tr 0 (vmwrite vm_guest_ldtr 0 s13);
          s15 = fold (\<lambda>i. vmwrite (0x4800 + 2 * i) 0xffff) [0..<6] s14
      in vmwrite vm_guest_rflags (set_bit 17 (put_field 12 2 3 (vmread s15 vm_guest_rflags))) s15)"

section \<open>Protected mode\<close>

text \<open>The protected-mode emulator emulates no instruction.\<close>

definition emulateProtectedMode :: "machine \<Rightarrow> int" where
  "emulateProtectedMode s = 0"

definition fix_rights :: "bool \<Rightarrow> nat \<Rightarrow> bool \<times> machine \<Rightarrow> bool \<times> machine" where
  "fix_rights always field hs =
     (let (handled, s) = hs; ar = vmread s field
      in if (always \<or> \<not> bit ar 16) \<and> \<not> bit ar 0 then (True, vmwrite field (set_bit 0 ar) s) else hs)"

definition fix_ss :: "bool \<times> machine \<Rightarrow> bool \<times> machine" where
  "fix_ss hs =
     (let (handled, s) = hs;
          segment = ucast (vmread s vm_guest_ss) :: WORD;
          segment2 = ucast (vmread s vm_guest_cs) :: WORD
      in if segment AND 3 \<noteq> segment2 AND 3 then
           (let seg = (segment AND 0xfffc) OR (segment2 AND 3);
                s1 = vmwrite vm_guest_ss (ucast seg) s;
                ar = vmread s1 vm_guest_ss_access_rights
            in (True, vmwrite vm_guest_ss_access_rights (put_field 5 2 (ucast (seg AND 3)) ar) s1))
         else hs)"

definition repair_segments :: "machine \<Rightarrow> bool \<times> machine" where
  "repair_segments s =
     fix_ss (fix_rights False vm_guest_gs_access_rights (fix_rights False vm_guest_fs_access_rights
       (fix_rights False vm_guest_es_access_rights (fix_rights False vm_guest_ds_access_rights
         (fix_rights True vm_guest_cs_access_rights (False, s))))))"

definition handleInvalidEntryState :: "vm86_tables \<Rightarrow> machine \<Rightarrow> (int \<times> machine) option" where
  "handleInvalidEntryState v s0 =
     (let s = fixInterruptabilityState s0 in
      if ISREALMODE s then do {
        (handled, s1) \<leftarrow> emulateRealMode dbvm_cr s;
        Some (0, if \<not> handled \<and> ISREALMODE s1 then force_vm86 v s1 else s1) }
      else if emulateProtectedMode s \<noteq> 0 then Some (0, s)
      else
        (let (handled, s1) = repair_segments s
         in Some (if handled
              then (0, vmwrite vm_guest_rflags (set_bit 16 (vmread s1 vm_guest_rflags)) s1)
              else (1, s1))))"

section \<open>Properties\<close>

text \<open>
  The checks the processor makes on the interruptibility state before it enters the guest:
  reserved bits are 0; blocking by STI and by MOV SS are not both set; blocking by STI only
  with IF set; neither with an external interrupt to inject; no blocking by MOV SS with an NMI.
\<close>

definition interruptibility_valid :: "machine \<Rightarrow> bool" where
  "interruptibility_valid s =
     (let i = vmread s vm_guest_interruptability_state;
          e = ucast (vmread s vm_entry_interruptioninfo) :: ULONG
      in drop_bit 5 i = 0 \<and> \<not> (bit i 0 \<and> bit i 1)
         \<and> (bit i 0 \<longrightarrow> bit (vmread s vm_guest_rflags) 9)
         \<and> (ii_valid e \<and> ii_type e = 0 \<longrightarrow> \<not> bit i 0 \<and> \<not> bit i 1)
         \<and> (ii_valid e \<and> ii_type e = 2 \<longrightarrow> \<not> bit i 1))"

definition fixed_blocking :: "bool \<Rightarrow> bool \<Rightarrow> bool \<Rightarrow> DWORD \<Rightarrow> DWORD" where
  "fixed_blocking IF ext nmi i =
     (let is0 = i AND 0x1f;
          is1 = (if IF then is0 else is0 AND 0x1e);
          is2 = (if is1 AND 3 = 3 then is1 AND 0x1e else is1);
          is3 = (if ext then is2 AND 0x1c else is2)
      in if nmi then is3 AND 0x1d else is3)"

lemma small_masks:
  "bit (0x1f :: int) k \<longleftrightarrow> k < 5" "bit (0x1e :: int) k \<longleftrightarrow> 0 < k \<and> k < 5"
  "bit (0x1c :: int) k \<longleftrightarrow> 1 < k \<and> k < 5" "bit (0x1d :: int) k \<longleftrightarrow> k < 5 \<and> k \<noteq> 1"
proof -
  have eqs: "(0x1f :: int) = mask 5" "(0x1e :: int) = mask 5 AND NOT (push_bit 0 1)"
    "(0x1c :: int) = mask 5 AND NOT (mask 2)" "(0x1d :: int) = mask 5 AND NOT (push_bit 1 1)"
    by (simp_all add: mask_eq_exp_minus_1)
  show "bit (0x1f :: int) k \<longleftrightarrow> k < 5" "bit (0x1e :: int) k \<longleftrightarrow> 0 < k \<and> k < 5"
    "bit (0x1c :: int) k \<longleftrightarrow> 1 < k \<and> k < 5" "bit (0x1d :: int) k \<longleftrightarrow> k < 5 \<and> k \<noteq> 1"
    unfolding eqs bit_and_iff bit_not_iff bit_mask_iff bit_push_bit_iff bit_1_iff by auto
qed

lemma both_bits: "(x :: DWORD) AND 3 = 3 \<longleftrightarrow> bit x 0 \<and> bit x 1"
proof
  assume "x AND 3 = 3"
  then have "bit (x AND 3) k = bit (3 :: DWORD) k" for k by simp
  from this [of 0] this [of 1] show "bit x 0 \<and> bit x 1" by (simp add: bit_and_iff bit_numeral_rec)
next
  assume b: "bit x 0 \<and> bit x 1"
  have "(3 :: DWORD) = mask 2" by (simp add: mask_eq_exp_minus_1)
  moreover have "x AND mask 2 = mask 2"
    by (rule bit_word_eqI) (use b in \<open>auto simp: bit_simps less_2_cases_iff\<close>)
  ultimately show "x AND 3 = 3" by simp
qed

lemma fixed_blocking_bits:
  "bit (fixed_blocking IF ext nmi i) k \<longleftrightarrow> bit i k \<and> k < 5
     \<and> (k = 0 \<longrightarrow> IF \<and> \<not> bit i 1 \<and> \<not> ext) \<and> (k = 1 \<longrightarrow> \<not> ext \<and> \<not> nmi)"
  by (auto simp: fixed_blocking_def Let_def both_bits bit_and_iff small_masks simp del: bit_numeral_rec)

lemma fixed_state: "fixInterruptabilityState s = vmwrite vm_guest_interruptability_state
    (ucast (fixed_blocking (bit (vmread s vm_guest_rflags) 9)
      (let e = ucast (vmread s vm_entry_interruptioninfo) in ii_valid e \<and> ii_type e = 0)
      (let e = ucast (vmread s vm_entry_interruptioninfo) in ii_valid e \<and> ii_type e = 2)
      (ucast (vmread s vm_guest_interruptability_state)))) s"
  by (simp add: fixInterruptabilityState_def fixed_blocking_def Let_def)

lemma width_blocking [simp]: "vm_width vm_guest_interruptability_state = 32"
  by (simp add: vm_width_def)


section \<open>Repaired segments\<close>

text \<open>A register passes when its descriptor is marked accessed or, except for CS, is unusable.\<close>

definition rights_ok :: "bool \<Rightarrow> nat \<Rightarrow> machine \<Rightarrow> bool" where
  "rights_ok always f s \<longleftrightarrow> bit (vmread s f) 0 \<or> \<not> always \<and> bit (vmread s f) 16"

definition segments_ok :: "machine \<Rightarrow> bool" where
  "segments_ok s \<longleftrightarrow> rights_ok True vm_guest_cs_access_rights s \<and> rights_ok False vm_guest_ds_access_rights s
     \<and> rights_ok False vm_guest_es_access_rights s \<and> rights_ok False vm_guest_fs_access_rights s
     \<and> rights_ok False vm_guest_gs_access_rights s
     \<and> take_bit 2 (vmread s vm_guest_ss) = take_bit 2 (vmread s vm_guest_cs)"

lemma fix_rights_ok: "vm_width f = 32 \<Longrightarrow> rights_ok a f (snd (fix_rights a f hs))"
  "f \<noteq> g \<Longrightarrow> rights_ok b g (snd (fix_rights a f hs)) = rights_ok b g (snd hs)"
  by (auto simp: rights_ok_def fix_rights_def Let_def split_beta bit_simps)

lemma fix_ss_rights: "f \<noteq> vm_guest_ss \<Longrightarrow> f \<noteq> vm_guest_ss_access_rights \<Longrightarrow>
    rights_ok b f (snd (fix_ss hs)) = rights_ok b f (snd hs)"
  by (simp add: rights_ok_def fix_ss_def Let_def split_beta)

lemma rpl_eq: "(ucast (x :: UINT64) :: WORD) AND 3 = ucast (y :: UINT64) AND 3 \<longleftrightarrow> take_bit 2 x = take_bit 2 y"
proof -
  have "(ucast (z :: UINT64) :: WORD) AND 3 = ucast (take_bit 2 z)" for z
    by (simp add: take_bit_eq_mask mask_eq_exp_minus_1)
      (rule bit_word_eqI, auto simp: bit_simps)
  moreover have "ucast (take_bit 2 x) = (ucast (take_bit 2 y) :: WORD) \<longleftrightarrow> take_bit 2 x = take_bit 2 y"
  proof
    assume h: "ucast (take_bit 2 x) = (ucast (take_bit 2 y) :: WORD)"
    show "take_bit 2 x = take_bit 2 y"
    proof (rule bit_word_eqI)
      fix k assume "k < LENGTH(64)"
      show "bit (take_bit 2 x) k = bit (take_bit 2 y) k"
        using arg_cong [OF h, of "\<lambda>w. bit w k"] by (auto simp: bit_simps)
    qed
  qed simp
  ultimately show ?thesis by simp
qed

lemma fix_ss_rpl:
  "take_bit 2 (vmread (snd (fix_ss hs)) vm_guest_ss) = take_bit 2 (vmread (snd (fix_ss hs)) vm_guest_cs)"
proof (cases hs)
  case (Pair h s)
  have "take_bit 2 (take_bit 16 (ucast (((ucast (x :: UINT64) :: WORD) AND 0xfffc) OR (ucast (y :: UINT64) AND 3)))) 
     = take_bit 2 y" for x y
  proof (rule bit_word_eqI)
    fix k assume "k < LENGTH(64)"
    have "k < 2 \<Longrightarrow> \<not> bit (0xfffc :: WORD) k \<and> bit (3 :: WORD) k"
      by (auto simp: less_2_cases_iff)
    then show "bit (take_bit 2 (take_bit 16 (ucast (((ucast x :: WORD) AND 0xfffc) OR (ucast y AND 3))) :: UINT64)) k
        = bit (take_bit 2 y) k"
      by (auto simp: bit_simps simp del: bit_numeral_word_iff)
  qed
  then show ?thesis
    using Pair by (simp add: fix_ss_def Let_def rpl_eq vm_width_def)
qed

lemma ok_fixed: "rights_ok a f s \<Longrightarrow> fix_rights a f (b, s) = (b, s)"
  "take_bit 2 (vmread s vm_guest_ss) = take_bit 2 (vmread s vm_guest_cs) \<Longrightarrow> fix_ss (b, s) = (b, s)"
  by (auto simp: rights_ok_def fix_rights_def fix_ss_def Let_def rpl_eq)

text \<open>
  C19: protected-mode guests the processor refuses to enter. After the repair CS is marked
  accessed, so is every usable data segment, and SS has the privilege level of CS; and a
  second repair finds nothing to do, so a guest that is still refused is reported and not
  retried for ever.
\<close>

theorem segments_repaired:
  "segments_ok (snd (repair_segments s))
   \<and> repair_segments (snd (repair_segments s)) = (False, snd (repair_segments s))"
proof -
  have ok: "segments_ok (snd (repair_segments s))"
    by (simp add: segments_ok_def repair_segments_def fix_ss_rpl fix_ss_rights fix_rights_ok vm_width_def)
  then show ?thesis by (simp add: segments_ok_def repair_segments_def ok_fixed del: prod.collapse)
qed

end
