(* ===== verification/Event_Dispatch.thy ===== *)
theory Event_Dispatch
  imports Invalid_State
begin

text \<open>
  The dispatcher of exits on Intel processors, \<^verbatim>\<open>handleVMEvent\<close> of
  \<^verbatim>\<open>dbvm/vmm/vmeventhandler.c\<close>, and \<^verbatim>\<open>handleINVLPG\<close> of \<^verbatim>\<open>vmpaging.c\<close>.
  A result other than 0 makes the exit loop stop. The build without a serial port is
  modelled, in which \<^verbatim>\<open>handleIOAccess\<close> returns 0 at once.
\<close>

unbundle bit_operations_syntax

section \<open>INVLPG\<close>

text \<open>
  \<^verbatim>\<open>PFN << 12\<close> without a conversion: the field is promoted to \<^verbatim>\<open>int\<close>, the shift is
  done at 32 bits and the result converted to an address with its sign.
\<close>

definition PFN_shifted :: "nat \<Rightarrow> UINT64 \<Rightarrow> UINT64" where
  "PFN_shifted n e = scast (push_bit 12 (ucast (take_bit n (drop_bit 12 e))) :: 32 word)"

definition host_load32 :: "UINT64 \<Rightarrow> machine \<Rightarrow> ULONG" where
  "host_load32 va s = le_word (map (\<lambda>j. mem s (host_pa s va + of_nat j)) [0..<4])"

definition clear_P64 :: "UINT64 \<Rightarrow> machine \<Rightarrow> machine" where
  "clear_P64 p s = s\<lparr>mem := put_bytes (mem s) p (le_bytes 8 (unset_bit 0 (rd64 (mem s) p)))\<rparr>"

definition clear_P32 :: "UINT64 \<Rightarrow> machine \<Rightarrow> machine" where
  "clear_P32 p s = s\<lparr>mem := put_bytes (mem s) p (le_bytes 4 (unset_bit 0 (rd32 (mem s) p)))\<rparr>"

text \<open>The last two levels, common to both 64-bit forms: \<open>pd\<close> is the physical address of the directory.\<close>

definition invlpg_dir :: "UINT64 \<Rightarrow> UINT64 \<Rightarrow> machine \<Rightarrow> machine" where
  "invlpg_dir pd address s =
     (let at = pd + 8 * (drop_bit 21 address AND 0x1ff); e = rd64 (mem s) at
      in if entry_P e then
           (if entry_PS e then clear_P64 at s
            else clear_P64 (PFN_shifted 28 e + 8 * (drop_bit 12 address AND 0x1ff)) s)
         else s)"

definition invlpg64 :: "UINT64 \<Rightarrow> machine \<Rightarrow> machine" where
  "invlpg64 address s =
     (let e4 = host_load64 (virtualTLB (cpu s) + 8 * (drop_bit 39 address AND 0x1ff)) s in
      if entry_P e4 then
        (let e3 = rd64 (mem s) (PFN_shifted 28 e4 + 8 * (drop_bit 30 address AND 0x1ff))
         in if entry_P e3 then invlpg_dir (PFN_shifted 28 e3) address s else s)
      else s)"

text \<open>With PAE the index in the first table is a \<^verbatim>\<open>ULONG\<close>.\<close>

definition invlpg_pae :: "UINT64 \<Rightarrow> machine \<Rightarrow> machine" where
  "invlpg_pae address s =
     (let e3 = host_load64 (virtualTLB (cpu s) + 8 * take_bit 32 (drop_bit 30 address)) s
      in if entry_P e3 then invlpg_dir (PFN_shifted 28 e3) address s else s)"

definition invlpg32 :: "UINT64 \<Rightarrow> machine \<Rightarrow> machine" where
  "invlpg32 address s =
     (let va = virtualTLB (cpu s) + 4 * take_bit 32 (drop_bit 22 address);
          e = host_load32 va s
      in if bit e 0 then
           (if bit e 7 then clear_P32 (host_pa s va) s
            else clear_P32 (PFN_shifted 20 (ucast e) + 4 * (drop_bit 12 address AND 0x3ff)) s)
         else s)"

definition handleINVLPG :: "machine \<Rightarrow> machine" where
  "handleINVLPG s0 =
     (let address = vmread s0 vm_exit_qualification; s = next_instruction s0 in
      if \<not> memorycloak s \<or> virtualTLB (cpu s) = 0 then s
      else if \<not> bit (vmread s vm_cr0_fakeread) 0 \<or> \<not> bit (vmread s vm_cr0_fakeread) 31 then s
      else if IS64BITPAGING s then invlpg64 address s
      else if bit (vmread s vm_cr4_fakeread) 5 then invlpg_pae address s
      else invlpg32 address s)"

section \<open>The dispatcher\<close>

abbreviation vm_exit_reason :: nat where "vm_exit_reason \<equiv> 0x4402"
abbreviation vm_preemption_timer_value :: nat where "vm_preemption_timer_value \<equiv> 0x482e"

definition handleIOAccess :: "machine \<Rightarrow> int \<times> machine" where
  "handleIOAccess s = (0, s)"

definition handle_external :: "machine \<Rightarrow> int \<times> machine" where
  "handle_external s =
     (if vmread s vm_guest_activity_state = 1 then
        (let s1 = vmwrite vm_guest_activity_state 0
               (vmwrite vm_execution_controls_pin (vmread s vm_execution_controls_pin AND 0xfffffffe) s)
         in (0, if ISREALMODE s1 then returnToRealmode s1 else s1))
      else (1, s))"

definition rearm_preemption_timer :: "machine \<Rightarrow> machine" where
  "rearm_preemption_timer s = vmwrite vm_preemption_timer_value (take_bit 5 (msr s 0x485) * 10000000) s"

text \<open>
  The lock around vmcalls of the processor with number \<open>c\<close> is threaded through; the other
  handlers do not touch it.
\<close>

definition handleVMEvent :: "vm86_tables \<Rightarrow> WORD \<Rightarrow> nat \<Rightarrow> criticalSection \<Rightarrow> machine
    \<Rightarrow> (int \<times> criticalSection \<times> machine) option" where
  "handleVMEvent v junk c vmcallCS s =
     (let reason = vmread s vm_exit_reason AND 0x7fffffff;
          ok = map_option (\<lambda>t. (0, vmcallCS, t));
          res = map_option (\<lambda>(r, t). (r, vmcallCS, t))
      in if reason = 0 then ok (handleInterrupt junk s)
         else if reason = 1 then res (Some (handle_external s))
         else if reason = 3 \<or> reason = 7 then ok (Some s)
         else if reason = 4 then ok (Some (handleSIPI s))
         else if reason = 9 then res (handleTaskswitch s)
         else if reason = 10 then ok (Some (handleCPUID s))
         else if reason = 11 then ok (Some (raiseInvalidOpcodeException s))
         else if reason = 12 then ok (Some (handleHLT s))
         else if reason = 14 then ok (Some (handleINVLPG s))
         else if reason = 18 then map_option (\<lambda>(cs, t). (0, cs, t)) (handleVMCall junk c vmcallCS s)
         else if 19 \<le> reason \<and> reason \<le> 27 then ok (Some (raiseInvalidOpcodeException s))
         else if reason = 28 then res (handleCRaccess s)
         else if reason = 30 then res (Some (handleIOAccess s))
         else if reason = 31 then ok (handleRDMSR s)
         else if reason = 32 then ok (handleWRMSR s)
         else if reason = 33 then res (handleInvalidEntryState v s)
         else if reason = 52 then ok (Some (rearm_preemption_timer s))
         else if reason = 55 then ok (Some (handleXSETBV s))
         else Some (1, vmcallCS, s))"

end
