(* ===== verification/Host_Isolation.thy ===== *)
theory Host_Isolation
  imports Event_Dispatch
begin

text \<open>
  The host state of the VMCS, the values the processor loads when it leaves the guest, through
  the handling of one exit. Bits 10 and 11 of a field's encoding give its kind; kind 3 is host
  state. \<open>host_state\<close> is the part of the VMCS with those encodings, and every handler of the
  dispatcher is shown to keep it.
\<close>

section \<open>Host state\<close>

definition host_field :: "nat \<Rightarrow> bool" where
  "host_field f \<longleftrightarrow> f div 1024 mod 4 = 3"

definition host_state :: "machine \<Rightarrow> nat \<Rightarrow> UINT64" where
  "host_state s f = (if host_field f then vmread s f else 0)"

lemma host_field_numeral [simp]: "host_field (numeral n) \<longleftrightarrow> numeral n div 1024 mod 4 = (3 :: nat)"
  by (simp add: host_field_def)

lemma host_vmwrite [simp]: "\<not> host_field f \<Longrightarrow> host_state (vmwrite f v s) = host_state s"
  by (auto simp: host_state_def fun_eq_iff)

lemma host_updates [simp]:
  "host_state (s\<lparr>mem := m\<rparr>) = host_state s" "host_state (s\<lparr>regs := r\<rparr>) = host_state s"
  "host_state (s\<lparr>cpu := c\<rparr>) = host_state s" "host_state (s\<lparr>host := h\<rparr>) = host_state s"
  "host_state (s\<lparr>globals := g\<rparr>) = host_state s" "host_state (s\<lparr>memorycloak := b\<rparr>) = host_state s"
  "host_state (s\<lparr>irqs := is\<rparr>) = host_state s" "host_state (s\<lparr>MSRBitmap := mb\<rparr>) = host_state s"
  "host_state (s\<lparr>msr := x\<rparr>) = host_state s" "host_state (writeMSR a v s) = host_state s"
  by (auto simp: host_state_def vmread_def writeMSR_def)

lemma host_vmcs: "vmcs t = vmcs s \<Longrightarrow> host_state t = host_state s"
  by (simp add: host_state_def vmread_def fun_eq_iff)

lemma host_VTP [simp]: "host_state (snd (VirtualToPhysical a s)) = host_state s"
  by (rule host_vmcs) simp

lemma host_map: "mapVMmemory s a sz = Some (e, pf, w, t) \<Longrightarrow> host_state t = host_state s"
  by (rule host_vmcs) (rule mapVMmemory_state(3))

lemma host_touches: "touches F s t \<Longrightarrow> Ball F (\<lambda>f. \<not> host_field f) \<Longrightarrow> host_state t = host_state s"
  by (force simp: touches_def host_state_def vmread_def fun_eq_iff)

lemma host_fold:
  "(\<And>i t. i \<in> set is \<Longrightarrow> host_state (g i t) = host_state t) \<Longrightarrow> host_state (fold g is s) = host_state s"
  by (induction "is" arbitrary: s) auto

lemma host_setters [simp]:
  "host_state (set_rax v s) = host_state s" "host_state (set_info f s) = host_state s"
  "host_state (set_globals g s) = host_state s" "host_state (set_vmcb b s) = host_state s"
  "host_state (set_ultimap u s) = host_state s" "host_state (next_instruction s) = host_state s"
  "host_state (inject_entry i e s) = host_state s"
  by (simp_all add: set_rax_def set_info_def set_globals_def set_vmcb_def set_ultimap_def
      next_instruction_def inject_entry_def Let_def)

lemma host_raise [simp]:
  "host_state (raiseGeneralProtectionFault e s) = host_state s"
  "host_state (raiseInvalidOpcodeException s) = host_state s" "host_state (raisePagefault a s) = host_state s"
  "host_state (snd (raisePrivilege s)) = host_state s"
  by (simp_all add: raiseGeneralProtectionFault_def raiseInvalidOpcodeException_def raisePagefault_def
      raisePrivilege_def Let_def)

section \<open>Control registers and the emulator\<close>

lemma host_emulatePaging: "emulatePaging s = Some t \<Longrightarrow> host_state t = host_state s"
  by (drule emulatePaging_touches) (erule host_touches, simp)

lemma segment_not_host [simp]:
  assumes "i < 8"
  shows "\<not> host_field (0x800 + 2 * i)" "\<not> host_field (0x4800 + 2 * i)"
    "\<not> host_field (0x4814 + 2 * i)" "\<not> host_field (0x6806 + 2 * i)"
proof -
  have "(0x800 + 2 * i) div 1024 = 2" "(0x4800 + 2 * i) div 1024 = 18"
    "(0x4814 + 2 * i) div 1024 = 18" "(0x6806 + 2 * i) div 1024 = 26"
    using assms by (intro div_nat_eqI; simp)+
  then show "\<not> host_field (0x800 + 2 * i)" "\<not> host_field (0x4800 + 2 * i)"
    "\<not> host_field (0x4814 + 2 * i)" "\<not> host_field (0x6806 + 2 * i)"
    by (simp_all add: host_field_def)
qed

lemma guest_fields: "f \<in> rm_fields \<union> cr_fields \<Longrightarrow> \<not> host_field f"
  by (auto simp: rm_fields_def cr_fields_def switch_fields_def)

lemma host_field_frame: "field_frame cr_fields s t \<Longrightarrow> host_state t = host_state s"
  using guest_fields by (fastforce simp: field_frame_def host_state_def)

lemma host_cr:
  "setVM_CR0 v s = Some (r, t) \<Longrightarrow> host_state t = host_state s"
  "setVM_CR3 v s = Some (r, t) \<Longrightarrow> host_state t = host_state s"
  "setVM_CR4 v s = Some (r, t) \<Longrightarrow> host_state t = host_state s"
  using dbvm_cr_frames [of v s r t] host_field_frame by blast+

lemma host_setRegister [simp]: "host_state (setRegister n v s) = host_state s"
  by (simp add: setRegister_def put_register_def Let_def)

lemma host_emulateRealMode: "emulateRealMode dbvm_cr s = Some (b, t) \<Longrightarrow> host_state t = host_state s"
  using ff.loop_step [OF dbvm_cr_respects(1)] by (auto simp: emulateRealMode_def intro: host_field_frame)

lemma host_CRaccess: "handleCRaccess s = Some (r, t) \<Longrightarrow> host_state t = host_state s"
  by (auto simp: handleCRaccess_def Let_def cr_written_def split: if_splits dest!: host_cr)

section \<open>Segments and exceptions\<close>

lemma host_pass:
  assumes "segment_pass get field sels s = Some t"
    and "field \<in> {0x800, 0x4800, 0x4814, 0x6806}" "\<forall>x\<in>set sels. fst x < 8"
  shows "host_state t = host_state s"
  using segment_pass_frame(2) [OF assms(1)] by (rule host_touches) (use assms in \<open>auto simp: pass_fields_def\<close>)

lemma host_mark: "mark_accessed gdt ldt sels s = Some t \<Longrightarrow> host_state t = host_state s"
  by (drule mark_accessed_vmcs) (erule host_touches, simp)

lemma host_change_selectors: "change_selectors cs ss ds es fs gs s = Some t \<Longrightarrow> host_state t = host_state s"
  by (auto simp: change_selectors_def bind_Some_iff Let_def segment_list_def dest!: host_pass host_mark)

lemma host_loads:
  "load_ss junk gdt ldt sel s = Some t \<Longrightarrow> host_state t = host_state s"
  "load_cs junk gdt ldt sel s = Some t \<Longrightarrow> host_state t = host_state s"
  by (auto simp: load_ss_def load_cs_def bind_Some_iff Let_def split: if_splits)

lemma host_set [simp]: "host_state (set_rsp v s) = host_state s" "host_state (set_rflags v s) = host_state s"
  "host_state (set_rip v s) = host_state s"
  by (simp_all add: set_rsp_def set_rflags_def set_rip_def)

lemma host_exception:
  "emulateExceptionInterrupt junk cs rip h e f s = Some (r, t) \<Longrightarrow> host_state t = host_state s"
  unfolding emulateExceptionInterrupt_def Let_def split_beta
  by (elim SomeE) (auto dest!: host_loads split: if_split_asm)

section \<open>The vmcall interface\<close>

lemma host_ultimap [simp]:
  "host_state (ultimap_setup a b c s) = host_state s" "host_state (ultimap_disable s) = host_state s"
  "host_state (ultimap_pause s) = host_state s" "host_state (ultimap_resume s) = host_state s"
  "host_state (ultimap_handleDB s) = host_state s" "host_state (ultimap_handleMSRWrite r v s) = host_state s"
  by (simp_all add: ultimap_setup_def ultimap_disable_def ultimap_pause_def ultimap_resume_def
      ultimap_handleDB_def ultimap_handleMSRWrite_def Let_def)

lemma host_readMSRSafe [simp]: "host_state (snd (readMSRSafe m s)) = host_state s"
  by (simp add: readMSRSafe_def Let_def)

lemma host_wrmsr: "wrmsr m v s = Some t \<Longrightarrow> host_state t = host_state s"
  by (auto simp: wrmsr_def split: if_splits)

lemma callback_fields_guest: "f \<in> set callback_fields \<Longrightarrow> \<not> host_field f"
  by (auto simp: callback_fields_def)

lemma host_returnFromCR3Callback [simp]: "host_state (returnFromCR3Callback c s) = host_state s"
  by (simp add: returnFromCR3Callback_def Let_def host_fold callback_fields_guest)

lemma host_finish [simp]: "host_state (vmcall_finish s) = host_state s"
  by (simp add: vmcall_finish_def)

lemma host_outcome: "host_state (outcome_state r) = host_state (case r of Next t \<Rightarrow> t | Stop t \<Rightarrow> t)"
  by (simp add: outcome_state_def split: outcome.split)

definition commands_keep :: "command \<Rightarrow> bool" where
  "commands_keep c \<longleftrightarrow> (\<forall>w s r. c w s = Some r \<longrightarrow> host_state (outcome_state r) = host_state s)"

lemmas keep_defs = commands_keep_def bind_Some_iff Let_def split_beta host_outcome

lemma keep_intel: "commands_keep c \<Longrightarrow> commands_keep (intel_only c)"
  by (auto simp: keep_defs intel_only_def)

lemma keep_physical: "commands_keep (vmcall_physical wr)"
  unfolding commands_keep_def vmcall_physical_def split_beta host_outcome
  by (intro allI impI, elim SomeE) (auto dest!: host_map)

lemma keep_sysenter: "commands_keep vmcall_fake_sysenter" "commands_keep vmcall_get_sysenter"
    "commands_keep vmcall_set_sysenter"
  by (auto simp: keep_defs vmcall_fake_sysenter_def vmcall_get_sysenter_def vmcall_set_sysenter_def
      store_dword_def split: if_split_asm dest!: host_map)

lemma keep_redirect: "commands_keep (vmcall_redirect n get put)" "commands_keep (redirected g c)"
  by (auto simp: keep_defs vmcall_redirect_def redirected_def intercept_exception_def)

lemma keep_interrupts: "commands_keep vmcall_block_interrupts" "commands_keep vmcall_restore_interrupts"
    "commands_keep vmcall_register_callback" "commands_keep vmcall_return_callback"
    "commands_keep vmcall_ultimap" "commands_keep (guest_control g f)"
    "commands_keep vmcall_change_password" "commands_keep vmcall_memory_cloak"
  by (auto simp: keep_defs vmcall_block_interrupts_def vmcall_restore_interrupts_def
      vmcall_register_callback_def vmcall_return_callback_def vmcall_ultimap_def guest_control_def
      vmcall_change_password_def vmcall_memory_cloak_def split: if_split_asm)

lemma keep_msr: "commands_keep vmcall_change_selectors" "commands_keep vmcall_readmsr"
    "commands_keep vmcall_writemsr" "commands_keep (vmcall_kernelmode junk)"
  by (auto simp: keep_defs vmcall_change_selectors_def vmcall_readmsr_def vmcall_writemsr_def
      vmcall_kernelmode_def dest!: host_change_selectors host_wrmsr host_exception)

lemmas keep_commands = keep_physical keep_sysenter keep_redirect keep_interrupts keep_msr

lemma keep_vmcall_command: "commands_keep (vmcall_command junk n)"
proof -
  have "commands_keep (\<lambda>w s. if b then c w s else d w s)" if "commands_keep c" "commands_keep d" for b c d
    using that by (cases b) simp_all
  note cases = this
  show ?thesis
    unfolding vmcall_command_def
    by (intro cases keep_intel keep_commands)
      (auto simp: keep_defs ultimap_debugoutput_def)
qed

lemma host_VMCall: "handleVMCall junk c cs s = Some (cs', t) \<Longrightarrow> host_state t = host_state s"
  using keep_vmcall_command
  by (auto simp: handleVMCall_def handleVMCall_inner_def bind_Some_iff Let_def map_failed_def
      commands_keep_def split: if_split_asm dest!: host_map)

section \<open>Interrupts and instructions\<close>

lemma host_redirect: "redirect_bypass junk r h e f i s = Some x \<Longrightarrow>
    host_state (case x of Inl t \<Rightarrow> t | Inr (i, t) \<Rightarrow> t) = host_state s"
  unfolding redirect_bypass_def split_beta by (elim SomeE) (auto dest!: host_exception)

definition redirect_state :: "machine + ULONG \<times> machine \<Rightarrow> machine" where
  "redirect_state x = (case x of Inl t \<Rightarrow> t | Inr (i, t) \<Rightarrow> t)"

lemma host_int: "handle_int1 junk i s = Some x \<Longrightarrow> host_state (redirect_state x) = host_state s"
    "handle_int3 junk i s = Some x \<Longrightarrow> host_state (redirect_state x) = host_state s"
  by (auto simp: handle_int1_def handle_int3_def Let_def redirect_state_def split: if_split_asm
      dest!: host_redirect)

lemma host_int14: "handle_int14 junk i s = Some x \<Longrightarrow> host_state (redirect_state x) = host_state s"
  unfolding handle_int14_def Let_def split_beta
  by (elim SomeE) (auto simp: redirect_state_def int14_redirected_def Let_def dest!: host_exception)

lemma host_reflect [simp]: "host_state (reflect_exception i df f s) = host_state s"
  by (simp add: reflect_exception_def Let_def)

lemma host_protected: "handleInterruptProtectedMode junk s = Some t \<Longrightarrow> host_state t = host_state s"
  unfolding handleInterruptProtectedMode_def Let_def split_beta
  by (elim SomeE) (auto dest!: host_int host_int14 simp: redirect_state_def split: if_split_asm)

lemma host_msr: "handleWRMSR s = Some t \<Longrightarrow> host_state t = host_state s"
    "handleRDMSR s = Some t \<Longrightarrow> host_state t = host_state s"
  by (auto simp: handleWRMSR_def handleRDMSR_def write_efer_def sysenter_write_def Let_def bind_Some_iff
      split_beta split: if_split_asm dest!: host_emulatePaging host_wrmsr)

lemma host_instructions [simp]:
  "host_state (handleCPUID s) = host_state s" "host_state (handleXSETBV s) = host_state s"
  "host_state (handleHLT s) = host_state s" "host_state (handleSIPI s) = host_state s"
  by (simp_all add: handleCPUID_def handleXSETBV_def handleHLT_def handleSIPI_def Let_def split_beta
      split: option.split)

section \<open>Tasks, real mode, invalid states\<close>

lemma host_task_selectors: "x \<in> set (task_selectors m t) \<Longrightarrow> fst x < 8"
  by (auto simp: task_selectors_def)

lemma host_mark_task: "mark_task gdt ldt t is s = Some u \<Longrightarrow> host_state u = host_state s"
  by (induction gdt ldt t "is" s rule: mark_task.induct) (auto simp: bind_Some_iff)

lemma host_load_segments: "load_segments gdt t sel a n s = Some u \<Longrightarrow> host_state u = host_state s"
  unfolding load_segments_def Let_def
  by (elim SomeE) (auto dest!: host_pass host_mark_task host_task_selectors)

lemma host_enter_task: "enter_task t c s = Some u \<Longrightarrow> host_state u = host_state s"
  unfolding enter_task_def Let_def by (elim SomeE) (auto dest!: host_emulatePaging split: if_split_asm)

lemma host_task [simp]: "host_state (save_task t c s) = host_state s" "host_state (link_task t c o' s) = host_state s"
  by (simp_all add: save_task_def link_task_def)

lemma host_taskswitch: "handleTaskswitch s = Some (r, t) \<Longrightarrow> host_state t = host_state s"
  unfolding handleTaskswitch_def Let_def by (elim SomeE) (auto dest!: host_load_segments host_enter_task)

lemma host_six [simp]:
  "host_state (fold (\<lambda>i t. vmwrite (0x800 + 2 * i) (g i t) t) [0..<6] s) = host_state s"
  "host_state (fold (\<lambda>i. vmwrite (0x4800 + 2 * i) v) [0..<6] s) = host_state s"
  "host_state (fold (\<lambda>i. vmwrite (0x4814 + 2 * i) v) [0..<6] s) = host_state s"
  by (rule host_fold, simp)+

lemma host_returnToRealmode [simp]: "host_state (returnToRealmode s) = host_state s"
  by (simp add: returnToRealmode_def Let_def)

lemma host_e820: "e820_copy n k i out s = Some (k', i', t) \<Longrightarrow> host_state t = host_state s"
  by (induction n k i out s rule: e820_copy.induct) (auto simp: bind_Some_iff store_def split: if_split_asm)

lemma host_bios [simp]: "host_state (bios_return c n s) = host_state s" "host_state (int15_88 n s) = host_state s"
  "host_state (int15_e801 n s) = host_state s"
  by (simp_all add: bios_return_def int15_88_def int15_e801_def Let_def split_beta)

lemma host_int15_e820: "int15_e820 n s = Some t \<Longrightarrow> host_state t = host_state s"
  by (auto simp: int15_e820_def Let_def bind_Some_iff split: if_split_asm dest!: host_e820)

lemma host_emulateRMinterrupt: "emulateRMinterrupt n s = Some t \<Longrightarrow> host_state t = host_state s"
  by (auto simp: emulateRMinterrupt_def Let_def bind_Some_iff store_def)

lemma host_realmode: "handleInterruptRealMode s = Some t \<Longrightarrow> host_state t = host_state s"
  by (auto simp: handleInterruptRealMode_def Let_def bind_Some_iff split: if_split_asm
      dest!: host_int15_e820 host_emulateRMinterrupt host_emulateRealMode)

lemma host_put [simp]: "host_state (host_put va bs s) = host_state s"
  by (simp add: host_put_def)

lemma host_setupTSS8086 [simp]: "host_state (setupTSS8086 v s) = host_state s"
  by (simp add: setupTSS8086_def Let_def split_beta)

lemma host_force_vm86 [simp]: "host_state (force_vm86 v s) = host_state s"
  by (simp add: force_vm86_def Let_def split_beta)

lemma host_repair: "host_state (snd (fix_ss hs)) = host_state (snd hs)"
  "\<not> host_field f \<Longrightarrow> host_state (snd (fix_rights a f hs)) = host_state (snd hs)"
  by (simp_all add: fix_ss_def fix_rights_def Let_def split_beta)

lemma host_invalid: "handleInvalidEntryState v s = Some (r, t) \<Longrightarrow> host_state t = host_state s"
  by (auto simp: handleInvalidEntryState_def Let_def bind_Some_iff split_beta fixInterruptabilityState_def
      repair_segments_def host_repair split: if_split_asm dest!: host_emulateRealMode)

lemma host_invlpg [simp]: "host_state (handleINVLPG s) = host_state s"
  by (simp add: handleINVLPG_def invlpg64_def invlpg_pae_def invlpg32_def invlpg_dir_def clear_P64_def
      clear_P32_def Let_def)

section \<open>One exit, and any number of exits\<close>

lemma host_VMEvent: "handleVMEvent v junk c cs s = Some (r, cs', t) \<Longrightarrow> host_state t = host_state s"
  by (auto simp: handleVMEvent_def Let_def handleInterrupt_def handle_external_def handleIOAccess_def
      rearm_preemption_timer_def split: if_split_asm dest!: host_protected host_realmode host_taskswitch
      host_VMCall host_CRaccess host_msr host_invalid)

text \<open>
  Isolation of the hypervisor. Whatever the reason of an exit and whatever the guest has put
  into its registers and memory, handling the exit leaves every field of the host state in the
  VMCS as it was: the addresses of the exit handler and of its stack, the hypervisor's page
  tables, its segments and descriptor tables.
\<close>

theorem exit_keeps_host_state:
  assumes "handleVMEvent v junk c vmcallCS s = Some (r, vmcallCS', t)" "host_field f"
  shows "vmread t f = vmread s f"
  using fun_cong [OF host_VMEvent [OF assms(1)], of f] assms(2) by (simp add: host_state_def)

definition sample_vm86 :: vm86_tables where
  "sample_vm86 = \<lparr>own_GDTbase = 0x320000, own_GDTsize = 0x4f, idttable32 = 0x321000,
     VirtualMachineTSS_V8086 = 0x322000, RealmodeRing0Stack = 0x326000\<rparr>"

text \<open>A guest stopped at CPUID, with the address of the exit handler in its field.\<close>

abbreviation cpuid_exit :: machine where
  "cpuid_exit \<equiv> vmwrite vm_exit_reason 10 (vmwrite 0x6c16 0x401234 sample)"

theorem exit_keeps_host_state_witness:
  "\<exists>t. handleVMEvent sample_vm86 0 0 \<lparr>locked = 0, apicid = 0, lockcount = 0\<rparr> cpuid_exit
      = Some (0, \<lparr>locked = 0, apicid = 0, lockcount = 0\<rparr>, t) \<and> vmread t 0x6c16 = 0x401234"
proof -
  have "handleVMEvent sample_vm86 0 0 cs cpuid_exit = Some (0, cs, handleCPUID cpuid_exit)" for cs
    by (simp add: handleVMEvent_def vm_width_def)
  from this this [THEN exit_keeps_host_state, of "0x6c16"] show ?thesis by (simp add: vm_width_def)
qed

lemma fix_nothing: "\<not> fst (fix_rights a f hs) \<Longrightarrow> fix_rights a f hs = hs" "\<not> fst (fix_ss hs) \<Longrightarrow> fix_ss hs = hs"
  by (auto simp: fix_rights_def fix_ss_def Let_def split_beta split: if_split_asm)

lemma repair_nothing: "\<not> fst (repair_segments s) \<Longrightarrow> repair_segments s = (False, s)"
  unfolding repair_segments_def by (metis fix_nothing fst_conv)

text \<open>
  When the dispatcher returns an error for an exit other than a control register access, the
  machine and the lock are as they were before it, except that after a failed VM entry the
  interruptibility state has been corrected.
\<close>

lemma unhandled_exit_unchanged:
  assumes "handleVMEvent v junk c vmcallCS s = Some (r, vmcallCS', t)" "r \<noteq> 0"
    and "vmread s vm_exit_reason AND 0x7fffffff \<noteq> 28"
  shows "vmcallCS' = vmcallCS \<and> t = (if vmread s vm_exit_reason AND 0x7fffffff = 33
    then fixInterruptabilityState s else s)"
proof -
  have "t = s" if "handleTaskswitch s = Some (r, t)" "r \<noteq> 0" for r t
    using that unfolding handleTaskswitch_def Let_def by (elim SomeE) auto
  moreover have "t = fixInterruptabilityState s" if "handleInvalidEntryState v s = Some (r, t)" "r \<noteq> 0" for r t
    using that by (auto simp: handleInvalidEntryState_def Let_def bind_Some_iff split_beta repair_nothing
        split: if_split_asm)
  ultimately show ?thesis
    using assms by (auto simp: handleVMEvent_def Let_def handle_external_def handleIOAccess_def
        split: if_split_asm)
qed

end
