(* ===== verification/AMD_Events.thy ===== *)
theory AMD_Events
  imports Host_Isolation
begin

text \<open>
  The exits of an AMD processor, \<^verbatim>\<open>handleVMEvent_amd\<close> of
  \<^verbatim>\<open>dbvm/vmm/vmeventhandler_amd.c\<close>. The guest state is in the control block \<^verbatim>\<open>vmcb\<close>,
  the guest's RAX too; \<^verbatim>\<open>VMCB_CLEAN_BITS\<close> tells the processor which parts of the block it
  may keep cached.
\<close>

unbundle bit_operations_syntax

section \<open>Finding the end of an instruction\<close>

text \<open>
  A processor without \<^verbatim>\<open>nRIP\<close> leaves the length of the instruction to a search for its
  opcode in the next 15 bytes: \<open>Some (Some i)\<close> when byte \<open>i\<close> is it. \<open>None\<close> is a read
  that the mapped window does not cover.
\<close>

fun scan_bytes :: "pmem \<Rightarrow> window \<Rightarrow> BYTE \<Rightarrow> nat \<Rightarrow> nat \<Rightarrow> nat option option" where
  "scan_bytes m w b 0 i = Some None"
| "scan_bytes m w b (Suc n) i = do {
     pa \<leftarrow> win_pa w i;
     if m pa = b then Some (Some i) else scan_bytes m w b n (Suc i) }"

definition scan_code :: "BYTE \<Rightarrow> machine \<Rightarrow> (nat option \<times> window \<times> machine) option" where
  "scan_code b s = do {
     (error, pf, w, s1) \<leftarrow> mapVMmemory s (vmcb_cs_base (amd s) + vmcb_RIP (amd s)) 15;
     i \<leftarrow> scan_bytes (mem s1) w b 15 0;
     Some (i, w, s1) }"

definition to_nRIP :: "machine \<Rightarrow> machine" where
  "to_nRIP s = set_vmcb (\<lambda>b. b\<lparr>vmcb_RIP := nRIP b\<rparr>) s"

definition add_RIP :: "nat \<Rightarrow> machine \<Rightarrow> machine" where
  "add_RIP n s = set_vmcb (\<lambda>b. b\<lparr>vmcb_RIP := vmcb_RIP b + of_nat n\<rparr>) s"

section \<open>Exceptions\<close>

text \<open>
  Delivering an exception, to the vector it is redirected to, or to the routine that bypasses
  the guest's interrupt table.
\<close>

definition amd_deliver :: "WORD \<Rightarrow> redirection \<Rightarrow> DWORD option \<Rightarrow> bool \<Rightarrow> machine \<Rightarrow> (int \<times> machine) option" where
  "amd_deliver junk r errorcode isFault s =
     (if redir_idtbypass r = 0 \<or> ISREALMODE s then
        Some (0, set_vmcb (\<lambda>b. b\<lparr>inject_Type := 3, inject_Vector := of_int (redir_int r), inject_Valid := True,
          inject_EV := errorcode \<noteq> None,
          inject_ERRORCODE := (case errorcode of None \<Rightarrow> inject_ERRORCODE b | Some e \<Rightarrow> e)\<rparr>) s)
      else emulateExceptionInterrupt junk (ucast (redir_cs r)) (redir_rip r) (errorcode \<noteq> None)
             (case errorcode of None \<Rightarrow> 0 | Some e \<Rightarrow> ucast e) isFault s)"

definition amd_excp1 :: "WORD \<Rightarrow> machine \<Rightarrow> (int \<times> machine) option" where
  "amd_excp1 junk s =
     (let s1 = (if bit (vmcb_DR7 (amd s)) 13 then
                  set_vmcb (\<lambda>b. b\<lparr>vmcb_DR7 := unset_bit 13 (vmcb_DR7 b),
                    VMCB_CLEAN_BITS := unset_bit 6 (VMCB_CLEAN_BITS b)\<rparr>) s
                else s)
      in amd_deliver junk (redirect1 (globals s1)) None False s1)"

definition amd_excp3 :: "WORD \<Rightarrow> machine \<Rightarrow> (int \<times> machine) option" where
  "amd_excp3 junk s = do {
     s1 \<leftarrow> (if AMD_hasNRIPS (globals s) \<noteq> 0 then Some (to_nRIP s)
            else do {
              (i, w, s2) \<leftarrow> scan_code 0xcc s;
              Some (case i of None \<Rightarrow> s2 | Some i \<Rightarrow> add_RIP (i + 1) s2) });
     amd_deliver junk (redirect3 (globals s1)) None False s1 }"

definition amd_excp14 :: "WORD \<Rightarrow> machine \<Rightarrow> (int \<times> machine) option" where
  "amd_excp14 junk s =
     (let errorcode = ucast (EXITINFO1 (amd s)) :: DWORD;
          cr2 = EXITINFO2 (amd s);
          s1 = s\<lparr>host := (host s)\<lparr>hostCR2 := cr2\<rparr>\<rparr>;
          s2 = set_vmcb (\<lambda>b. b\<lparr>vmcb_CR2 := cr2, VMCB_CLEAN_BITS := unset_bit 9 (VMCB_CLEAN_BITS b),
                 vmcb_RFLAGS := set_bit 16 (vmcb_RFLAGS b)\<rparr>) s1
      in amd_deliver junk (redirect14 (globals s2)) (Some errorcode) True s2)"

section \<open>Software interrupts\<close>

definition amd_carry :: "bool \<Rightarrow> machine \<Rightarrow> machine" where
  "amd_carry carry s = set_vmcb (\<lambda>b. b\<lparr>vmcb_RFLAGS :=
     (if carry then set_bit 0 (vmcb_RFLAGS b) else unset_bit 0 (vmcb_RFLAGS b))\<rparr>) s"

definition amd_set_RAX :: "UINT64 \<Rightarrow> machine \<Rightarrow> machine" where
  "amd_set_RAX v s = set_vmcb (\<lambda>b. b\<lparr>vmcb_RAX := v\<rparr>) s"

text \<open>
  The three functions of interrupt 15h, each with whether it has handled the interrupt. The
  code runs them one after the other, each on the RAX the one before has left.
\<close>

definition amd_int15_88 :: "bool \<times> machine \<Rightarrow> bool \<times> machine" where
  "amd_int15_88 hs =
     (let (handled, s) = hs
      in if vmcb_RAX (amd s) AND 0xff00 = 0x8800
         then (True, amd_carry False (amd_set_RAX (low32 (vmcb_RAX (amd s)) 0xfc00) s))
         else hs)"

definition amd_int15_e801 :: "bool \<times> machine \<Rightarrow> bool \<times> machine" where
  "amd_int15_e801 hs =
     (let (handled, s) = hs; (between, above) = e801_sizes (globals s); r = regs s
      in if vmcb_RAX (amd s) AND 0xffff = 0xe801
         then (True, amd_carry False ((amd_set_RAX (low16 (vmcb_RAX (amd s)) (ucast (between div 1024))) s)
           \<lparr>regs := r\<lparr>rbx := low16 (rbx r) (ucast (above div (64 * 1024))),
              rcx := low16 (rcx r) (ucast (between div 1024)),
              rdx := low16 (rdx r) (ucast (above div (64 * 1024)))\<rparr>\<rparr>))
         else hs)"

definition amd_int15_e820 :: "bool \<times> machine \<Rightarrow> (bool \<times> machine) option" where
  "amd_int15_e820 hs =
     (let (handled, s) = hs; r = regs s;
          startindex = sint (ucast (rbx r) :: 32 word);
          ecx = ucast (rcx r) :: ULONG
      in if vmcb_RAX (amd s) AND 0xffff \<noteq> 0xe820 then Some hs
         else if ecx \<ge> 20 \<and> ucast (rdx r) = (0x534D4150 :: ULONG) \<and> startindex < ARDcount (globals s)
         then (let s1 = amd_set_RAX (low32 (vmcb_RAX (amd s)) 0x534D4150) s in do {
           (k, i, s2) \<leftarrow> e820_copy (unat (ecx div 20)) 0 startindex
                           (vmcb_es_base (amd s1) + (rdi r AND 0xffff)) s1;
           Some (True, amd_carry False (s2\<lparr>regs := (regs s2)
             \<lparr>rbx := low32 (rbx (regs s2)) (if i \<ge> ARDcount (globals s2) then 0 else of_int i),
              rcx := low32 (rcx (regs s2)) (of_nat (k * 20))\<rparr>\<rparr>)) })
         else Some (True, amd_carry True s))"

text \<open>
  The number of the interrupt and the length of its instruction. \<open>intnr0\<close> is what the
  variable \<^verbatim>\<open>intnr\<close> holds before the search, which leaves it as it is when it finds nothing.
\<close>

definition amd_intnr :: "ULONG \<Rightarrow> machine \<Rightarrow> (ULONG \<times> nat \<times> machine) option" where
  "amd_intnr intnr0 s =
     (if AMD_hasDecodeAssists (globals s) \<noteq> 0 then Some (ucast (EXITINFO1 (amd s)), 0, s)
      else do {
        (i, w, s1) \<leftarrow> scan_code 0xcd s;
        case i of None \<Rightarrow> Some (intnr0, 0, s1)
        | Some i \<Rightarrow> do {
            pa \<leftarrow> win_pa w (i + 1);
            Some (ucast (mem s1 pa), i + 2, s1) } })"

definition amd_swint :: "ULONG \<Rightarrow> machine \<Rightarrow> (int \<times> machine) option" where
  "amd_swint intnr0 s = do {
     (intnr, instructionlength, s1) \<leftarrow> amd_intnr intnr0 s;
     (handled, s2) \<leftarrow> amd_int15_e820
       (if ISREALMODE s1 \<and> intnr = 0x15 then amd_int15_e801 (amd_int15_88 (False, s1)) else (False, s1));
     (let s3 = (if AMD_hasNRIPS (globals s2) \<noteq> 0 then to_nRIP s2 else add_RIP instructionlength s2)
      in Some (0, if handled then s3
           else set_vmcb (\<lambda>b. b\<lparr>inject_Type := 4, inject_Vector := ucast intnr, inject_Valid := True,
                  inject_EV := False\<rparr>) s3)) }"

section \<open>Model specific registers\<close>

definition msr_operand :: "machine \<Rightarrow> UINT64" where
  "msr_operand s = push_bit 32 (rdx (regs s) AND 0xffffffff) + (vmcb_RAX (amd s) AND 0xffffffff)"

definition amd_wrmsr :: "machine \<Rightarrow> machine" where
  "amd_wrmsr s =
     (let m = rcx (regs s) AND 0xffffffff in
      if m = 0xc0000080 then
        (let s1 = s\<lparr>cpu := (cpu s)\<lparr>efer := msr_operand s\<rparr>\<rparr>;
             s2 = s1\<lparr>cpu := (cpu s1)\<lparr>vmcb_EFER := efer (cpu s1) OR 0x1000\<rparr>\<rparr>
         in set_vmcb (\<lambda>b. b\<lparr>VMCB_CLEAN_BITS := unset_bit 5 (VMCB_CLEAN_BITS b)\<rparr>) s2)
      else if m = 0xc0010117 then set_info (\<lambda>i. i\<lparr>guest_VM_HSAVE_PA := msr_operand s\<rparr>) s
      else s)"

text \<open>
  \<open>value0\<close> is what the variable \<^verbatim>\<open>value\<close> holds before the switch, which sets it for two
  registers only.
\<close>

definition amd_rdmsr :: "UINT64 \<Rightarrow> machine \<Rightarrow> machine" where
  "amd_rdmsr value0 s =
     (let m = rcx (regs s) AND 0xffffffff;
          s1 = (if m = 0xc0000080 then s\<lparr>cpu := (cpu s)\<lparr>efer :=
                  (if bit (efer (cpu s)) 12 then vmcb_EFER (cpu s) else unset_bit 12 (vmcb_EFER (cpu s)))\<rparr>\<rparr>
                else s);
          value = (if m = 0xc0000080 then efer (cpu s1)
                   else if m = 0xc0010117 then guest_VM_HSAVE_PA (info (cpu s1)) else value0);
          s2 = amd_set_RAX (take_bit 32 value) s1
      in s2\<lparr>regs := (regs s2)\<lparr>rdx := take_bit 32 (drop_bit 32 (efer (cpu s2)))\<rparr>\<rparr>)"

text \<open>The search for the length also prints the three bytes behind the one it has found.\<close>

definition amd_msr :: "UINT64 \<Rightarrow> machine \<Rightarrow> (int \<times> machine) option" where
  "amd_msr value0 s =
     (let s1 = (if EXITINFO1 (amd s) \<noteq> 0 then amd_wrmsr s else amd_rdmsr value0 s)
      in if AMD_hasNRIPS (globals s1) \<noteq> 0 then Some (0, to_nRIP s1)
         else do {
           (i, w, s2) \<leftarrow> scan_code 0x0f s1;
           case i of None \<Rightarrow> Some (0, s2)
           | Some i \<Rightarrow> do {
               shown \<leftarrow> win_read (mem s2) w (i + 1) 3;
               Some (0, add_RIP (i + 2) s2) } })"

section \<open>The dispatcher\<close>

text \<open>
  Every other exit, those for INIT, SHUTDOWN and an invalid control block among them, ends in
  \<^verbatim>\<open>while (1)\<close>: \<open>None\<close>.
\<close>

definition handleVMEvent_amd :: "WORD \<Rightarrow> ULONG \<Rightarrow> UINT64 \<Rightarrow> nat \<Rightarrow> criticalSection \<Rightarrow> machine
    \<Rightarrow> (int \<times> criticalSection \<times> machine) option" where
  "handleVMEvent_amd junk intnr0 value0 c vmcallCS s0 =
     (let s = set_vmcb (\<lambda>b. b\<lparr>VMCB_CLEAN_BITS := 0xffffffff\<rparr>) s0;
          code = EXITCODE (amd s);
          res = map_option (\<lambda>(r, t). (r, vmcallCS, t))
      in if code = 0x41 then res (amd_excp1 junk s)
         else if code = 0x43 then res (amd_excp3 junk s)
         else if code = 0x4e then res (amd_excp14 junk s)
         else if code = 0x75 then res (amd_swint intnr0 s)
         else if code = 0x7c then res (amd_msr value0 s)
         else if code = 0x80 then Some (0, vmcallCS, raiseInvalidOpcodeException s)
         else if code = 0x81 then map_option (\<lambda>(cs, t). (0, cs, t)) (handleVMCall junk c vmcallCS s)
         else None)"

section \<open>EFER\<close>

text \<open>The accessors of the state after an update of the control block or of \<open>info\<close>.\<close>

lemma set_vmcb_parts [simp]:
  "amd (set_vmcb f s) = f (amd s)" "regs (set_vmcb f s) = regs s" "mem (set_vmcb f s) = mem s"
  "globals (set_vmcb f s) = globals s" "isAMD (set_vmcb f s) = isAMD s"
  "vmcb_EFER (cpu (set_vmcb f s)) = vmcb_EFER (cpu s)" "efer (cpu (set_vmcb f s)) = efer (cpu s)"
  by (simp_all add: set_vmcb_def)

lemma set_info_parts [simp]: "vmcb_EFER (cpu (set_info f s)) = vmcb_EFER (cpu s)"
  by (simp add: set_info_def)

lemma msr_operand_halves:
  "take_bit 32 (msr_operand s) = take_bit 32 (vmcb_RAX (amd s))"
  "take_bit 32 (drop_bit 32 (msr_operand s)) = take_bit 32 (rdx (regs s))"
proof -
  have m: "(0xffffffff :: UINT64) = mask 32" by (simp add: mask_eq_exp_minus_1)
  have "push_bit 32 (take_bit 32 x) AND take_bit 32 y = (0 :: UINT64)" for x y
    by (rule bit_word_eqI) (auto simp: bit_simps)
  then have "msr_operand s = push_bit 32 (take_bit 32 (rdx (regs s))) OR take_bit 32 (vmcb_RAX (amd s))"
    by (simp add: msr_operand_def m take_bit_eq_mask [symmetric] and_zero_add_eq_or)
  then show "take_bit 32 (msr_operand s) = take_bit 32 (vmcb_RAX (amd s))"
    "take_bit 32 (drop_bit 32 (msr_operand s)) = take_bit 32 (rdx (regs s))"
    by (auto intro!: bit_word_eqI simp: bit_simps)
qed

lemma set_svme: "v OR 0x1000 = set_bit 12 (v :: UINT64)"
  by (simp add: set_bit_eq_or)

lemma svme_masked: "(if bit v 12 then v OR 0x1000 else unset_bit 12 (v OR 0x1000)) = (v :: UINT64)"
  unfolding set_svme by (auto intro!: bit_word_eqI simp: bit_simps)

text \<open>
  C22: EFER of an AMD guest. After a write of EFER the processor runs the guest with the value
  written and with SVME set, which it needs to run a guest at all. A later read, by then with
  any other state, returns the value written, SVME as the guest wants it: what the hypervisor
  adds is not seen.
\<close>

theorem efer_read_back:
  assumes nrips: "AMD_hasNRIPS (globals s) \<noteq> 0" "AMD_hasNRIPS (globals t') \<noteq> 0"
    and wr: "EXITCODE (amd s) = 0x7c" "EXITINFO1 (amd s) \<noteq> 0" "rcx (regs s) AND 0xffffffff = 0xc0000080"
    and t: "handleVMEvent_amd junk n v c cs s = Some (r, cs', t)"
    and rd: "EXITCODE (amd t') = 0x7c" "EXITINFO1 (amd t') = 0" "rcx (regs t') AND 0xffffffff = 0xc0000080"
    and later: "efer (cpu t') = efer (cpu t)" "vmcb_EFER (cpu t') = vmcb_EFER (cpu t)"
  shows "vmcb_EFER (cpu t) = msr_operand s OR 0x1000 \<and> vmcb_RIP (amd t) = nRIP (amd s)
    \<and> (\<exists>u. handleVMEvent_amd junk n v c cs t' = Some (0, cs, u) \<and> vmcb_RIP (amd u) = nRIP (amd t')
         \<and> vmcb_RAX (amd u) = take_bit 32 (vmcb_RAX (amd s)) \<and> rdx (regs u) = take_bit 32 (rdx (regs s)))"
proof -
  have op: "msr_operand (set_vmcb (\<lambda>b. b\<lparr>VMCB_CLEAN_BITS := x\<rparr>) s) = msr_operand s" for x
    by (simp add: msr_operand_def)
  have 1: "efer (cpu t) = msr_operand s" "vmcb_EFER (cpu t) = msr_operand s OR 0x1000"
      "vmcb_RIP (amd t) = nRIP (amd s)"
    using nrips wr t by (auto simp: handleVMEvent_amd_def Let_def amd_msr_def amd_wrmsr_def to_nRIP_def op)
  have e: "(if bit (efer (cpu t')) 12 then vmcb_EFER (cpu t') else unset_bit 12 (vmcb_EFER (cpu t'))) = msr_operand s"
    unfolding later 1 by (rule svme_masked)
  have "\<exists>u. handleVMEvent_amd junk n v c cs t' = Some (0, cs, u) \<and> vmcb_RIP (amd u) = nRIP (amd t')
      \<and> vmcb_RAX (amd u) = take_bit 32 (msr_operand s)
      \<and> rdx (regs u) = take_bit 32 (drop_bit 32 (msr_operand s))"
    using nrips rd by (simp add: handleVMEvent_amd_def Let_def amd_msr_def amd_rdmsr_def amd_set_RAX_def
        to_nRIP_def e del: if_split cong: if_cong)
  with 1 show ?thesis by (simp add: msr_operand_halves)
qed

abbreviation free_lock :: criticalSection where
  "free_lock \<equiv> \<lparr>locked = 0, apicid = 0, lockcount = 0\<rparr>"

text \<open>A guest that turns on long mode and NX, and reads the register back.\<close>

abbreviation wrmsr_exit :: machine where
  "wrmsr_exit \<equiv> set_vmcb (\<lambda>b. b\<lparr>EXITCODE := 0x7c, EXITINFO1 := 1, vmcb_RAX := 0x900, nRIP := 2\<rparr>)
     (sample\<lparr>isAMD := True, regs := (regs sample)\<lparr>rcx := 0xc0000080, rdx := 0\<rparr>\<rparr>)"

theorem efer_read_back_witness:
  "\<exists>t u. handleVMEvent_amd 0 0 0 0 free_lock wrmsr_exit = Some (0, free_lock, t) \<and> vmcb_EFER (cpu t) = 0x1900
     \<and> handleVMEvent_amd 0 0 0 0 free_lock (set_vmcb (\<lambda>b. b\<lparr>EXITINFO1 := 0\<rparr>) t) = Some (0, free_lock, u)
     \<and> vmcb_RAX (amd u) = 0x900"
proof -
  have g: "AMD_hasNRIPS (globals sample) = 1" by (simp add: sample_def sample_globals_def)
  obtain t where t: "handleVMEvent_amd 0 0 0 0 free_lock wrmsr_exit = Some (0, free_lock, t)"
    and t_parts: "AMD_hasNRIPS (globals t) = 1" "EXITCODE (amd t) = 0x7c" "rcx (regs t) = 0xc0000080"
    by (simp add: handleVMEvent_amd_def Let_def amd_msr_def amd_wrmsr_def to_nRIP_def g)
  have "msr_operand wrmsr_exit = 0x900" by (simp add: msr_operand_def)
  with efer_read_back [OF _ _ _ _ _ t, of "set_vmcb (\<lambda>b. b\<lparr>EXITINFO1 := 0\<rparr>) t"] t t_parts show ?thesis
    by (fastforce simp: g)
qed

section \<open>SVME stays set\<close>

lemma efer_map: "mapVMmemory s a sz = Some (e, pf, w, t)
    \<Longrightarrow> vmcb_EFER (cpu t) = vmcb_EFER (cpu s) \<and> isAMD t = isAMD s"
  by (auto simp: mapVMmemory_def Let_def split: if_splits option.splits)

lemma efer_vmwrite [simp]: "vmcb_EFER (cpu (vmwrite f v s)) = vmcb_EFER (cpu s)"
  by (simp add: vmwrite_def)

lemma efer_setters [simp]:
  "vmcb_EFER (cpu (set_rax v s)) = vmcb_EFER (cpu s)" "vmcb_EFER (cpu (set_globals g s)) = vmcb_EFER (cpu s)"
  "vmcb_EFER (cpu (to_nRIP s)) = vmcb_EFER (cpu s)" "vmcb_EFER (cpu (add_RIP n s)) = vmcb_EFER (cpu s)"
  "vmcb_EFER (cpu (amd_carry b s)) = vmcb_EFER (cpu s)" "vmcb_EFER (cpu (amd_set_RAX v s)) = vmcb_EFER (cpu s)"
  "vmcb_EFER (cpu (set_rsp v s)) = vmcb_EFER (cpu s)" "vmcb_EFER (cpu (set_rflags v s)) = vmcb_EFER (cpu s)"
  "vmcb_EFER (cpu (set_rip v s)) = vmcb_EFER (cpu s)" "vmcb_EFER (cpu (vmcall_finish s)) = vmcb_EFER (cpu s)"
  "vmcb_EFER (cpu (writeMSR a v s)) = vmcb_EFER (cpu s)"
  "vmcb_EFER (cpu (inject_entry i e s)) = vmcb_EFER (cpu s)"
  "vmcb_EFER (cpu (intercept_exception n b s)) = vmcb_EFER (cpu s)"
  by (simp_all add: set_rax_def set_globals_def to_nRIP_def add_RIP_def amd_carry_def amd_set_RAX_def
      set_rsp_def set_rflags_def set_rip_def vmcall_finish_def next_instruction_def writeMSR_def
      inject_entry_def intercept_exception_def Let_def)

lemma efer_raise [simp]:
  "vmcb_EFER (cpu (raiseInvalidOpcodeException s)) = vmcb_EFER (cpu s)"
  "vmcb_EFER (cpu (raisePagefault a s)) = vmcb_EFER (cpu s)"
  by (simp_all add: raiseInvalidOpcodeException_def raisePagefault_def Let_def)

lemma efer_loads:
  "load_ss junk gdt ldt sel s = Some t \<Longrightarrow> vmcb_EFER (cpu t) = vmcb_EFER (cpu s)"
  "load_cs junk gdt ldt sel s = Some t \<Longrightarrow> vmcb_EFER (cpu t) = vmcb_EFER (cpu s)"
  by (auto simp: load_ss_def load_cs_def bind_Some_iff Let_def split: if_splits)

lemma efer_exception:
  "emulateExceptionInterrupt junk cs rip h e f s = Some (r, t) \<Longrightarrow> vmcb_EFER (cpu t) = vmcb_EFER (cpu s)"
  unfolding emulateExceptionInterrupt_def Let_def split_beta
  by (elim SomeE) (auto dest!: efer_loads split: if_split_asm)

lemma efer_callback [simp]: "vmcb_EFER (cpu (returnFromCR3Callback c s)) = vmcb_EFER (cpu s)"
proof -
  have "cpu (fold (\<lambda>f. vmwrite f (g f)) fs s) = cpu s" for g fs and s :: machine
    by (induction fs arbitrary: s) (simp_all add: vmwrite_def)
  then show ?thesis by (simp add: returnFromCR3Callback_def Let_def del: fold.simps)
qed

definition efer_kept :: "command \<Rightarrow> bool" where
  "efer_kept c \<longleftrightarrow> (\<forall>w s r. isAMD s \<longrightarrow> c w s = Some r \<longrightarrow> vmcb_EFER (cpu (outcome_state r)) = vmcb_EFER (cpu s))"

lemma efer_outcome: "vmcb_EFER (cpu (outcome_state r)) = vmcb_EFER (cpu (case r of Next t \<Rightarrow> t | Stop t \<Rightarrow> t))"
  by (simp add: outcome_state_def split: outcome.split)

lemmas efer_defs = efer_kept_def bind_Some_iff Let_def split_beta efer_outcome

lemma efer_kept_intel: "efer_kept (intel_only c)"
  by (auto simp: efer_defs intel_only_def)

lemma efer_kept_physical: "efer_kept (vmcall_physical wr)"
  unfolding efer_kept_def vmcall_physical_def split_beta efer_outcome
  by (intro allI impI, elim SomeE) (auto dest!: efer_map)

lemma efer_kept_others: "efer_kept (vmcall_redirect n get put)" "efer_kept (redirected g d)"
    "efer_kept vmcall_return_callback" "efer_kept (guest_control h f)" "efer_kept vmcall_change_password"
    "efer_kept vmcall_readmsr" "efer_kept vmcall_writemsr"
  by (auto simp: efer_defs vmcall_redirect_def redirected_def vmcall_return_callback_def guest_control_def
      vmcall_change_password_def vmcall_readmsr_def vmcall_writemsr_def readMSRSafe_def wrmsr_def
      split: if_split_asm)

lemma efer_kept_command: "efer_kept (vmcall_command junk n)"
proof -
  have "efer_kept (\<lambda>w s. if b then c w s else d w s)" if "efer_kept c" "efer_kept d" for b c d
    using that by (cases b) simp_all
  note cases = this
  show ?thesis
    unfolding vmcall_command_def
    by (intro cases efer_kept_intel efer_kept_physical efer_kept_others) (auto simp: efer_defs)
qed

lemma efer_inner:
  assumes "handleVMCall_inner junk s = Some t" "isAMD s"
  shows "vmcb_EFER (cpu t) = vmcb_EFER (cpu s)"
proof -
  have rax: "isAMD (set_rax v s) = isAMD s" for v s by (simp add: set_rax_def)
  have cmd: "vmcb_EFER (cpu (outcome_state r)) = vmcb_EFER (cpu u)"
    if "vmcall_command junk n w u = Some r" "isAMD u" for n w u r
    using efer_kept_command that by (simp add: efer_kept_def)
  show ?thesis
    using assms(1) unfolding handleVMCall_inner_def Let_def split_beta
    by (elim SomeE) (use assms(2) in \<open>auto simp: map_failed_def rax cmd dest!: efer_map split: if_split_asm\<close>)
qed

lemma efer_VMCall:
  "handleVMCall junk c cs s = Some (cs', t) \<Longrightarrow> isAMD s \<Longrightarrow> vmcb_EFER (cpu t) = vmcb_EFER (cpu s)"
  by (auto simp: handleVMCall_def bind_Some_iff dest: efer_inner)

lemma efer_scan: "scan_code b s = Some (i, w, t) \<Longrightarrow> vmcb_EFER (cpu t) = vmcb_EFER (cpu s)"
  by (auto simp: scan_code_def bind_Some_iff dest!: efer_map)

lemma efer_deliver: "amd_deliver junk r e f s = Some (x, t) \<Longrightarrow> vmcb_EFER (cpu t) = vmcb_EFER (cpu s)"
  by (auto simp: amd_deliver_def split: if_split_asm dest: efer_exception)

lemma efer_exceptions:
  "amd_excp1 junk s = Some (x, t) \<Longrightarrow> vmcb_EFER (cpu t) = vmcb_EFER (cpu s)"
  "amd_excp3 junk s = Some (x, t) \<Longrightarrow> vmcb_EFER (cpu t) = vmcb_EFER (cpu s)"
  "amd_excp14 junk s = Some (x, t) \<Longrightarrow> vmcb_EFER (cpu t) = vmcb_EFER (cpu s)"
  by (auto simp: amd_excp1_def amd_excp3_def amd_excp14_def Let_def bind_Some_iff
      split: if_split_asm option.split_asm dest!: efer_deliver efer_scan)

lemma efer_e820: "e820_copy n k i out s = Some (k', i', t) \<Longrightarrow> vmcb_EFER (cpu t) = vmcb_EFER (cpu s)"
  by (induction n k i out s rule: e820_copy.induct) (auto simp: bind_Some_iff store_def split: if_split_asm)

lemma efer_int15:
  "vmcb_EFER (cpu (snd (amd_int15_88 hs))) = vmcb_EFER (cpu (snd hs))"
  "vmcb_EFER (cpu (snd (amd_int15_e801 hs))) = vmcb_EFER (cpu (snd hs))"
  "amd_int15_e820 hs = Some hs' \<Longrightarrow> vmcb_EFER (cpu (snd hs')) = vmcb_EFER (cpu (snd hs))"
  by (auto simp: amd_int15_88_def amd_int15_e801_def amd_int15_e820_def Let_def split_beta bind_Some_iff
      split: if_split_asm dest!: efer_e820)

lemma efer_intnr: "amd_intnr n s = Some (m, l, t) \<Longrightarrow> vmcb_EFER (cpu t) = vmcb_EFER (cpu s)"
  by (auto simp: amd_intnr_def bind_Some_iff split: if_split_asm option.split_asm dest!: efer_scan)

lemma efer_swint: "amd_swint n s = Some (x, t) \<Longrightarrow> vmcb_EFER (cpu t) = vmcb_EFER (cpu s)"
  by (auto simp: amd_swint_def Let_def bind_Some_iff efer_int15 split: if_split_asm
      dest!: efer_intnr efer_int15(3))

lemma efer_msr:
  assumes "amd_msr v s = Some (x, t)" "bit (vmcb_EFER (cpu s)) 12"
  shows "bit (vmcb_EFER (cpu t)) 12"
proof -
  have "bit (vmcb_EFER (cpu (amd_wrmsr s))) 12" "vmcb_EFER (cpu (amd_rdmsr v s)) = vmcb_EFER (cpu s)"
    using assms(2) by (simp_all add: amd_wrmsr_def amd_rdmsr_def Let_def set_svme bit_set_bit_iff)
  then show ?thesis
    using assms by (auto simp: amd_msr_def Let_def bind_Some_iff split: if_split_asm option.split_asm
        dest!: efer_scan)
qed

text \<open>
  C21: SVME of an AMD guest. The processor refuses to run a guest whose EFER lacks SVME. Whatever
  the exit and whatever the guest does to EFER, the bit stays set.
\<close>

theorem svme_kept:
  assumes "handleVMEvent_amd junk n v c vmcallCS s = Some (r, vmcallCS', t)" "isAMD s"
    and "bit (vmcb_EFER (cpu s)) 12"
  shows "bit (vmcb_EFER (cpu t)) 12"
  using assms by (auto simp: handleVMEvent_amd_def Let_def split: if_split_asm
      dest!: efer_exceptions efer_swint efer_VMCall dest: efer_msr)

text \<open>A guest that clears EFER.\<close>

abbreviation clear_efer :: machine where
  "clear_efer \<equiv> set_vmcb (\<lambda>b. b\<lparr>vmcb_RAX := 0\<rparr>)
     (wrmsr_exit\<lparr>cpu := (cpu wrmsr_exit)\<lparr>vmcb_EFER := 0x1000\<rparr>\<rparr>)"

theorem svme_kept_witness:
  "\<exists>t. handleVMEvent_amd 0 0 0 0 free_lock clear_efer = Some (0, free_lock, t) \<and> bit (vmcb_EFER (cpu t)) 12"
proof -
  have "AMD_hasNRIPS (globals sample) = 1" by (simp add: sample_def sample_globals_def)
  then obtain t where t: "handleVMEvent_amd 0 0 0 0 free_lock clear_efer = Some (0, free_lock, t)"
    by (simp add: handleVMEvent_amd_def Let_def amd_msr_def amd_wrmsr_def)
  have "bit (0x1000 :: UINT64) 12" by (simp add: bit_iff_odd)
  then have "bit (vmcb_EFER (cpu clear_efer)) 12" "isAMD clear_efer" by simp_all
  with t svme_kept [OF t] show ?thesis by blast
qed

section \<open>Software interrupts of the guest\<close>

lemma ISREALMODE_set_vmcb [simp]: "ISREALMODE (set_vmcb f s) = ISREALMODE s"
  by (simp add: ISREALMODE_def set_vmcb_def vmread_def)

lemma interrupt_vector: "ucast (ucast (x :: UINT64) :: ULONG) = (ucast x :: BYTE)"
  by (rule bit_word_eqI) (auto simp: bit_simps)

text \<open>
  C23: software interrupts of an AMD guest. On a processor that reports the interrupt's number
  and the next instruction, an interrupt that is not one of the hooked functions of interrupt
  15h is put back as it was: it is injected with its own number and without an error code,
  execution is to go on behind the instruction, and nothing else of the guest, no register and
  no byte of its memory, changes. AX is not E820h: for that value the code does not look at the
  number of the interrupt.
\<close>

theorem amd_interrupt_passed_on:
  assumes "EXITCODE (amd s) = 0x75" "AMD_hasNRIPS (globals s) \<noteq> 0" "AMD_hasDecodeAssists (globals s) \<noteq> 0"
    and "vmcb_RAX (amd s) AND 0xffff \<noteq> 0xe820"
    and "\<not> (ISREALMODE s \<and> ucast (EXITINFO1 (amd s)) = (0x15 :: ULONG)
           \<and> (vmcb_RAX (amd s) AND 0xff00 = 0x8800 \<or> vmcb_RAX (amd s) AND 0xffff = 0xe801))"
  shows "handleVMEvent_amd junk n v c vmcallCS s = Some (0, vmcallCS,
    set_vmcb (\<lambda>b. b\<lparr>VMCB_CLEAN_BITS := 0xffffffff, vmcb_RIP := nRIP b, inject_Type := 4,
      inject_Vector := ucast (EXITINFO1 b), inject_Valid := True, inject_EV := False\<rparr>) s)"
proof -
  let ?s = "set_vmcb (\<lambda>b. b\<lparr>VMCB_CLEAN_BITS := 0xffffffff\<rparr>) s"
  have "(if ISREALMODE ?s \<and> ucast (EXITINFO1 (amd s)) = (0x15 :: ULONG)
      then amd_int15_e801 (amd_int15_88 (False, ?s)) else (False, ?s)) = (False, ?s)"
    using assms(5) by (auto simp: amd_int15_88_def amd_int15_e801_def split_beta)
  moreover have "amd_int15_e820 (False, ?s) = Some (False, ?s)"
    using assms(4) by (simp add: amd_int15_e820_def)
  ultimately have "amd_swint n ?s = Some (0, set_vmcb (\<lambda>b. b\<lparr>inject_Type := 4,
      inject_Vector := ucast (ucast (EXITINFO1 (amd s)) :: ULONG), inject_Valid := True, inject_EV := False\<rparr>) (to_nRIP ?s))"
    using assms(2,3) by (simp add: amd_swint_def amd_intnr_def)
  then show ?thesis
    using assms(1) by (simp add: handleVMEvent_amd_def to_nRIP_def interrupt_vector set_vmcb_def)
qed

abbreviation int80_exit :: machine where
  "int80_exit \<equiv> set_vmcb (\<lambda>b. b\<lparr>EXITCODE := 0x75, EXITINFO1 := 0x80, vmcb_RAX := 1, nRIP := 2\<rparr>)
     (sample\<lparr>isAMD := True\<rparr>)"

theorem amd_interrupt_passed_on_witness:
  "\<exists>t. handleVMEvent_amd 0 0 0 0 free_lock int80_exit = Some (0, free_lock, t)
     \<and> inject_Vector (amd t) = 0x80 \<and> vmcb_RIP (amd t) = 2 \<and> regs t = regs sample"
proof -
  have "AMD_hasNRIPS (globals sample) = 1" "AMD_hasDecodeAssists (globals sample) = 1"
    by (simp_all add: sample_def sample_globals_def)
  then show ?thesis using amd_interrupt_passed_on [of int80_exit 0 0 0 0 free_lock] by simp
qed

text \<open>
  With AX = E820h every software interrupt of the guest is swallowed, in any mode and whatever
  its number: here with a buffer size that the function refuses, so that only the carry flag
  is set.
\<close>

lemma e820_swallows_interrupt:
  assumes "EXITCODE (amd s) = 0x75" "AMD_hasNRIPS (globals s) \<noteq> 0" "AMD_hasDecodeAssists (globals s) \<noteq> 0"
    and "vmcb_RAX (amd s) AND 0xffff = 0xe820" "ucast (rcx (regs s)) < (20 :: ULONG)"
    and "\<not> ISREALMODE s"
  shows "handleVMEvent_amd junk n v c vmcallCS s = Some (0, vmcallCS,
    set_vmcb (\<lambda>b. b\<lparr>VMCB_CLEAN_BITS := 0xffffffff, vmcb_RIP := nRIP b,
      vmcb_RFLAGS := set_bit 0 (vmcb_RFLAGS b)\<rparr>) s)"
proof -
  let ?s = "set_vmcb (\<lambda>b. b\<lparr>VMCB_CLEAN_BITS := 0xffffffff\<rparr>) s"
  have "\<not> ucast (rcx (regs s)) \<ge> (20 :: ULONG)" using assms(5) by simp
  then have "amd_int15_e820 (False, ?s) = Some (True, amd_carry True ?s)"
    using assms(4) by (simp add: amd_int15_e820_def)
  then have "amd_swint n ?s = Some (0, to_nRIP (amd_carry True ?s))"
    using assms(2,3,6) by (simp add: amd_swint_def amd_intnr_def amd_carry_def)
  then show ?thesis
    using assms(1) by (simp add: handleVMEvent_amd_def to_nRIP_def amd_carry_def set_vmcb_def)
qed

end
