(* ===== verification/VM_Exit.thy ===== *)
theory VM_Exit
  imports AMD_Events VM_Call_Access
begin

text \<open>
  The two functions the exit stubs call, \<^verbatim>\<open>vmexit\<close> and \<^verbatim>\<open>vmexit_amd\<close> of
  \<^verbatim>\<open>dbvm/vmm/vmmhelper.c\<close>, as a build without \<^verbatim>\<open>DEBUG\<close> has them.
\<close>

unbundle bit_operations_syntax

definition vmexit_amd :: "WORD \<Rightarrow> ULONG \<Rightarrow> UINT64 \<Rightarrow> nat \<Rightarrow> criticalSection \<Rightarrow> machine
    \<Rightarrow> (int \<times> criticalSection \<times> machine) option" where
  "vmexit_amd junk intnr0 value0 c vmcallCS s = handleVMEvent_amd junk intnr0 value0 c vmcallCS s"

text \<open>On Intel an exit that is not handled becomes an invalid opcode exception of the guest.\<close>

definition vmexit :: "vm86_tables \<Rightarrow> WORD \<Rightarrow> nat \<Rightarrow> criticalSection \<Rightarrow> machine
    \<Rightarrow> (int \<times> criticalSection \<times> machine) option" where
  "vmexit v junk c vmcallCS s = do {
     (result, cs, t) \<leftarrow> handleVMEvent v junk c vmcallCS s;
     Some (if result \<noteq> 0 then (0, cs, raiseInvalidOpcodeException t) else (result, cs, t)) }"

lemma raised_UD:
  assumes "\<not> isAMD s"
  shows "f \<notin> entry_fields \<Longrightarrow> vmread (raiseInvalidOpcodeException s) f = vmread s f"
    "regs (raiseInvalidOpcodeException s) = regs s" "mem (raiseInvalidOpcodeException s) = mem s"
    "cpu (raiseInvalidOpcodeException s) = cpu s"
  using assms by (simp_all add: raiseInvalidOpcodeException_def inject_entry_read)

text \<open>
  C20: what becomes of an exit that is not handled. For an exit other than a control register
  access, the hypervisor goes on with the guest: the guest gets an invalid opcode exception at
  the instruction that caused the exit, and apart from that exception the machine and the
  vmcall lock are as they were, except that after a failed VM entry the interruptibility state
  has been corrected.
\<close>

theorem unhandled_exit_raises_UD:
  assumes "handleVMEvent v junk c vmcallCS s = Some (r, vmcallCS', t)" "r \<noteq> 0"
    and "vmread s vm_exit_reason AND 0x7fffffff \<noteq> 28" "\<not> isAMD s"
  shows "\<exists>u. vmexit v junk c vmcallCS s = Some (0, vmcallCS, u) \<and> pending_exception u = Some (6, 3, None)
    \<and> (\<forall>f. f \<notin> entry_fields \<and> f \<noteq> vm_guest_interruptability_state \<longrightarrow> vmread u f = vmread s f)
    \<and> (vmread s vm_exit_reason AND 0x7fffffff \<noteq> 33
         \<longrightarrow> vmread u vm_guest_interruptability_state = vmread s vm_guest_interruptability_state)
    \<and> regs u = regs s \<and> mem u = mem s \<and> cpu u = cpu s"
proof -
  let ?t = "if vmread s vm_exit_reason AND 0x7fffffff = 33 then fixInterruptabilityState s else s"
  have "vmexit v junk c vmcallCS s = Some (0, vmcallCS, raiseInvalidOpcodeException ?t)"
    using unhandled_exit_unchanged [OF assms(1-3)] assms(1,2) by (simp add: vmexit_def)
  moreover have "\<not> isAMD ?t" using assms(4) by (simp add: fixInterruptabilityState_def Let_def)
  ultimately show ?thesis
    using raised_UD [of ?t] pending_raise(1) [of ?t] by (auto simp: fixInterruptabilityState_def Let_def entry_fields_def)
qed

theorem unhandled_exit_raises_UD_witness:
  "\<exists>u. vmexit sample_vm86 0 0 free_lock (vmwrite vm_exit_reason 2 sample) = Some (0, free_lock, u)
     \<and> pending_exception u = Some (6, 3, None) \<and> regs u = regs sample"
proof -
  have "handleVMEvent sample_vm86 0 0 free_lock (vmwrite vm_exit_reason 2 sample)
      = Some (1, free_lock, vmwrite vm_exit_reason 2 sample)"
    by (simp add: handleVMEvent_def vm_width_def)
  moreover have "\<not> isAMD sample" by (simp add: sample_def)
  ultimately show ?thesis
    using unhandled_exit_raises_UD [of sample_vm86 0 0 free_lock "vmwrite vm_exit_reason 2 sample"]
    by (fastforce simp: vm_width_def)
qed

end
