(* ===== verification/VMX_Setup.thy ===== *)
theory VMX_Setup
  imports Host_Isolation Identity_Map
begin

text \<open>
  The set-up of a virtual machine on an Intel processor: \<^verbatim>\<open>setupVMX\<close> of
  \<^verbatim>\<open>dbvm/vmm/vmmhelper.c\<close> behind its branch for AMD processors. It fills the VMCS: the
  controls, within what the processor's capability registers allow; the state the guest starts
  with, which is that of the operating system the hypervisor was loaded from, or of the boot
  loader on the first processor, or of a processor that waits to be started; and the state of
  the hypervisor itself.
\<close>

unbundle bit_operations_syntax

section \<open>State\<close>

text \<open>The processor state that the loader in the operating system has stored for the guest.\<close>

record OriginalState =
  os_EFER :: UINT64
  os_LME :: UINT64
  os_idtbase :: UINT64
  os_idtlimit :: UINT64
  os_gdtbase :: UINT64
  os_gdtlimit :: UINT64
  os_cr0 :: UINT64
  os_cr3 :: UINT64
  os_cr4 :: UINT64
  os_dr7 :: UINT64
  os_rip :: UINT64
  os_rsp :: UINT64
  os_rflags :: UINT64
  os_cs :: UINT64
  os_ss :: UINT64
  os_ds :: UINT64
  os_es :: UINT64
  os_fs :: UINT64
  os_gs :: UINT64
  os_tr :: UINT64
  os_ldt :: UINT64
  os_fsbase :: UINT64
  os_gsbase :: UINT64

text \<open>
  It is read from physical memory at \<open>a\<close>. The second 2 MB of its window are soon used for the
  GDT: \<open>None\<close> when the structure reaches into them.
\<close>

definition read_original :: "pmem \<Rightarrow> UINT64 \<Rightarrow> OriginalState option" where
  "read_original m a =
     (let q = (\<lambda>i. le_word (map (\<lambda>j. m (a + of_nat (8 * i + j))) [0..<8])) in
      if unat a mod 0x200000 + 320 > 0x200000 then None
      else Some \<lparr>os_EFER = q 1, os_LME = q 2, os_idtbase = q 3, os_idtlimit = q 4, os_gdtbase = q 5,
        os_gdtlimit = q 6, os_cr0 = q 7, os_cr3 = q 9, os_cr4 = q 10, os_dr7 = q 11, os_rip = q 12,
        os_rsp = q 20, os_rflags = q 29, os_cs = q 30, os_ss = q 31, os_ds = q 32, os_es = q 33,
        os_fs = q 34, os_gs = q 35, os_tr = q 36, os_ldt = q 37, os_fsbase = q 38, os_gsbase = q 39\<rparr>)"

text \<open>
  What the processor reports of the running hypervisor and what the linker knows of it: its
  control registers, flags and interrupt table, the addresses of its task state segments and
  of the boot routine, its descriptor tables, the code for real mode and where the waiting loop
  stands in it.
\<close>

record boot_env = vm86_tables +
  own_CR0 :: UINT64
  own_CR3 :: UINT64
  own_IDTbase :: UINT64
  own_RFLAGS :: UINT64
  ownTSS :: UINT64
  mainTSS :: UINT64
  quickboot :: UINT64
  waitforsipi :: UINT64
  GDT_IDT_BASE :: UINT64
  movetoreal_code :: "BYTE list"

text \<open>
  The globals of \<^verbatim>\<open>vmmhelper.c\<close>: the capability registers as the set-up keeps them (that for
  the processor-based controls is in \<open>machine\<close>) and the addresses of the bitmaps.
\<close>

record vmx_globals =
  IA32_VMX_PINBASED_CTLS :: UINT64
  IA32_VMX_SECONDARY_PROCBASED_CTLS :: UINT64
  IA32_VMX_EXIT_CTLS :: UINT64
  IA32_VMX_ENTRY_CTLS :: UINT64
  globals_have_been_configured :: bool
  MSRBitmap_address :: UINT64
  IOBitmap :: UINT64

type_synonym setup_state = "vmx_globals \<times> machine"

definition vmwrites :: "(nat \<times> UINT64) list \<Rightarrow> machine \<Rightarrow> machine" where
  "vmwrites l s = fold (\<lambda>(f, v). vmwrite f v) l s"

definition vmwrite_physical :: "nat \<Rightarrow> UINT64 \<Rightarrow> machine \<Rightarrow> machine" where
  "vmwrite_physical f va s = (let (pa, s1) = VirtualToPhysical va s in vmwrite f pa s1)"

section \<open>Bitmaps\<close>

text \<open>\<^verbatim>\<open>MSRBitmap[base+n/8]|=1 << (n % 8)\<close>\<close>

definition set_msr_bit :: "nat \<Rightarrow> nat \<Rightarrow> (nat \<Rightarrow> BYTE) \<Rightarrow> nat \<Rightarrow> BYTE" where
  "set_msr_bit base n m = m(base + n div 8 := m (base + n div 8) OR push_bit (n mod 8) 1)"

text \<open>The bits for EFER are stored with \<^verbatim>\<open>=\<close>. The last two lines are the same.\<close>

definition initial_MSRBitmap :: "nat \<Rightarrow> BYTE" where
  "initial_MSRBitmap =
     (let m0 = (\<lambda>_. 0);
          m1 = set_msr_bit 0 0x176 (set_msr_bit 0 0x175 (set_msr_bit 0 0x174 m0));
          m2 = set_msr_bit 2048 0x176 (set_msr_bit 2048 0x175 (set_msr_bit 2048 0x174 m1));
          m3 = m2(1024 + 0x80 div 8 := push_bit (0x80 mod 8) 1);
          m4 = m3(3072 + 0x80 div 8 := push_bit (0x80 mod 8) 1);
          m5 = set_msr_bit 0 0x3a m4
      in set_msr_bit 0 0x3a m5)"

text \<open>
  The blocks are allocated once. What the block for the MSRs holds is the field \<open>MSRBitmap\<close> of
  the machine.
\<close>

definition setup_bitmaps :: "setup_state \<Rightarrow> setup_state option" where
  "setup_bitmaps gs = (let (g, s) = gs in do {
     (g1, s1) \<leftarrow> (if MSRBitmap_address g = 0 then do {
          (p, h) \<leftarrow> malloc 4096 (heap s);
          Some (g\<lparr>MSRBitmap_address := p\<rparr>, s\<lparr>heap := h, MSRBitmap := initial_MSRBitmap\<rparr>) }
        else Some (g, s));
     if IOBitmap g1 = 0 then do {
          (p, h) \<leftarrow> malloc (4096 * 2) (heap s1);
          Some (g1\<lparr>IOBitmap := p\<rparr>, zero_pages 2 p (s1\<lparr>heap := h\<rparr>)) }
     else Some (g1, s1) })"

section \<open>Controls\<close>

definition read_capabilities :: "setup_state \<Rightarrow> setup_state" where
  "read_capabilities gs =
     (let (g, s) = gs;
          s1 = s\<lparr>IA32_VMX_PROCBASED_CTLS := msr s 0x482\<rparr>;
          g1 = g\<lparr>IA32_VMX_PINBASED_CTLS := msr s 0x481,
                 IA32_VMX_SECONDARY_PROCBASED_CTLS := (if bit (msr s 0x482) 63 then msr s 0x48b
                   else IA32_VMX_SECONDARY_PROCBASED_CTLS g),
                 IA32_VMX_EXIT_CTLS := msr s 0x483, IA32_VMX_ENTRY_CTLS := msr s 0x484\<rparr>
      in (g1, s1))"

text \<open>
  The high half of a capability register has the controls that may be 1, the low half those
  that must be. \<open>allowed x c\<close>: all of \<open>x\<close> may be 1; \<open>expect x c\<close> adds \<open>x\<close> to the low half
  then.
\<close>

definition allowed :: "UINT64 \<Rightarrow> UINT64 \<Rightarrow> bool" where
  "allowed x c \<longleftrightarrow> drop_bit 32 c AND x = x"

definition expect :: "UINT64 \<Rightarrow> UINT64 \<Rightarrow> UINT64" where
  "expect x c = (if allowed x c then c OR x else c)"

definition compatible_capabilities :: "setup_state \<Rightarrow> setup_state" where
  "compatible_capabilities gs =
     (let (g, s) = gs
      in (g\<lparr>IA32_VMX_PINBASED_CTLS := expect 0x10 (expect 4 (expect 2 (IA32_VMX_PINBASED_CTLS g)))\<rparr>,
          s\<lparr>IA32_VMX_PROCBASED_CTLS := expect 0x10000 (expect 0x8000 (expect 0x4000000 (expect 0x1e000
              (expect 0x100 (expect 0x70 (expect 2 (IA32_VMX_PROCBASED_CTLS s)))))))\<rparr>))"

text \<open>Those of some further controls that are allowed, added to \<open>r\<close> or to the low half.\<close>

fun add_allowed :: "UINT64 list \<Rightarrow> UINT64 \<Rightarrow> UINT64 \<Rightarrow> UINT64" where
  "add_allowed [] c r = r"
| "add_allowed (x # xs) c r = add_allowed xs c (if allowed x c then r OR x else r)"

definition controls :: "UINT64 list \<Rightarrow> UINT64 \<Rightarrow> UINT64" where
  "controls xs c = add_allowed xs c (take_bit 32 c)"

definition setup_controls :: "setup_state \<Rightarrow> machine" where
  "setup_controls gs =
     (let (g, s) = gs;
          s1 = vmwrites [(0x4000, take_bit 32 (IA32_VMX_PINBASED_CTLS g)),
            (0x4004, 0xffff), (0x4006, 0), (0x4008, 0), (0x400a, 1),
            (0x400c, controls [0x200, 0x8000, 4] (IA32_VMX_EXIT_CTLS g)),
            (0x400e, 0), (0x4010, 0), (0x4014, 0), (0x4016, 0), (0x4018, 0), (0x401a, 0), (0x401c, 0)] s;
          s2 = vmwrite_physical 0x2000 (IOBitmap g) s1;
          s3 = vmwrite_physical 0x2002 (IOBitmap g + 4096) s2;
          s4 = vmwrite_physical 0x2004 (MSRBitmap_address g) s3
      in vmwrites [(0x2006, -1), (0x2008, -1), (0x200a, -1), (0x200c, -1), (0x2010, 0), (0x2012, -1),
            (0x6000, -1), (0x6002, -1), (0x600a, 0), (0x600c, 0), (0x600e, 0)] s4)"

text \<open>The secondary controls: only those allowed of \<open>xs\<close>.\<close>

definition secondary :: "UINT64 list \<Rightarrow> UINT64 \<Rightarrow> UINT64" where
  "secondary xs c = add_allowed xs c 0"

definition with_secondary :: "UINT64 \<Rightarrow> UINT64 \<Rightarrow> UINT64" where
  "with_secondary proc c = (if bit proc 63 then set_bit 31 c else c)"

section \<open>A guest that is already running\<close>

text \<open>
  \<open>ldtselector\<close> is read through the pointer \<^verbatim>\<open>originalstate\<close> while it is still \<^verbatim>\<open>NULL\<close>; it is
  an argument of the model.
\<close>

definition original_tables :: "ULONG \<Rightarrow> OriginalState \<Rightarrow> machine \<Rightarrow> (dtable \<times> dtable) option" where
  "original_tables ldtselector o' s = do {
     g \<leftarrow> phys_or_0 s (os_gdtbase o');
     if os_ldt o' = 0 then Some (phys_table g, None)
     else do {
       e \<leftarrow> dt_entry (mem s) (the (phys_table g)) (drop_bit 3 ldtselector);
       l \<leftarrow> phys_or_0 s (scast (segment_base32 e));
       Some (Some (g, 0x200000 - unat g mod 0x200000), phys_table l) } }"

definition loaded_controls :: "OriginalState \<Rightarrow> setup_state \<Rightarrow> machine" where
  "loaded_controls o' gs =
     (let (g, s) = gs; lme = os_LME o' \<noteq> 0; proc = IA32_VMX_PROCBASED_CTLS s;
          c = with_secondary proc (take_bit 32 proc OR 0x200 OR 0x2000000 OR 0x10000000);
          s1 = s\<lparr>cpu := (cpu s)\<lparr>guestCR3 := os_cr3 o', guestCR0 := os_cr0 o', hasIF := of_bool (bit (os_rflags o') 9)\<rparr>\<rparr>;
          s2 = vmwrite vm_execution_controls_cpu c s1;
          s3 = (if bit c 31 then vmwrite 0x401e
                  (secondary [8, 0x100000, 0x1000] (IA32_VMX_SECONDARY_PROCBASED_CTLS g)) s2 else s2);
          s4 = s3\<lparr>cpu := (cpu s3)\<lparr>efer := (if lme then os_EFER o' OR 0x500 else os_EFER o')\<rparr>\<rparr>
      in vmwrites [(vm_entry_controls, take_bit 32 (IA32_VMX_ENTRY_CTLS g) OR 4 OR (if lme then 0x200 else 0)),
           (vm_cr0_fakeread, os_cr0 o'), (vm_cr4_fakeread, os_cr4 o'), (0x6008, -1),
           (vm_guest_cr0, take_bit 32 (IA32_VMX_CR0_FIXED0 s) OR os_cr0 o'), (vm_guest_cr3, os_cr3 o'),
           (vm_guest_cr4, take_bit 32 (IA32_VMX_CR4_FIXED0 s) OR os_cr4 o'),
           (vm_guest_gdtr_base, os_gdtbase o'), (vm_guest_gdt_limit, os_gdtlimit o'),
           (vm_guest_idtr_base, os_idtbase o'), (vm_guest_idt_limit, os_idtlimit o')] s4)"

text \<open>The segment registers by their index in the VMCS; 6 is LDTR and 7 is TR.\<close>

definition original_selectors :: "OriginalState \<Rightarrow> (nat \<times> ULONG) list" where
  "original_selectors o' = [(0, ucast (os_es o')), (1, ucast (os_cs o')), (2, ucast (os_ss o')),
     (3, ucast (os_ds o')), (4, ucast (os_fs o')), (5, ucast (os_gs o')), (6, ucast (os_ldt o')), (7, ucast (os_tr o'))]"

text \<open>
  The bases. The base of the stack segment is written to the field of DS and then overwritten
  by that of DS.
\<close>

definition loaded_bases :: "OriginalState \<Rightarrow> dtable \<Rightarrow> dtable \<Rightarrow> machine \<Rightarrow> machine option" where
  "loaded_bases o' gdt ldt s = do {
     s1 \<leftarrow> segment_pass (\<lambda>m. getSegmentBase m gdt ldt) 0x6806
            [(6, ucast (os_ldt o')), (0, ucast (os_es o')), (1, ucast (os_cs o')), (3, ucast (os_ss o')),
             (3, ucast (os_ds o'))] s;
     if os_LME o' \<noteq> 0 then do {
       tr \<leftarrow> getSegmentBaseEx (mem s1) gdt ldt (ucast (os_tr o')) True;
       Some (vmwrites [(vm_guest_fs_base, os_fsbase o'), (vm_guest_gs_base, os_gsbase o'), (vm_guest_tr_base, tr)] s1) }
     else segment_pass (\<lambda>m. getSegmentBase m gdt ldt) 0x6806
            [(4, ucast (os_fs o')), (5, ucast (os_gs o')), (7, ucast (os_tr o'))] s1 }"

definition loaded_registers :: "OriginalState \<Rightarrow> machine \<Rightarrow> machine" where
  "loaded_registers o' s =
     (let w = (\<lambda>v. if os_LME o' \<noteq> 0 then v else take_bit 32 v);
          s1 = vmwrites [(0x482a, msr s 0x174), (0x6824, msr s 0x175), (0x6826, msr s 0x176)] s;
          s2 = set_info (\<lambda>i. i\<lparr>actual_sysenter_CS := vmread s1 0x482a, actual_sysenter_ESP := vmread s1 0x6824,
                 actual_sysenter_EIP := vmread s1 0x6826\<rparr>) s1
      in vmwrites [(vm_guest_dr7, os_dr7 o'), (0x4826, 0), (vm_guest_rsp, w (os_rsp o')),
           (vm_guest_rip, w (os_rip o')), (vm_guest_rflags, os_rflags o')] s2)"

definition guest_loaded :: "ULONG \<Rightarrow> OriginalState \<Rightarrow> setup_state \<Rightarrow> machine option" where
  "guest_loaded ldtselector o' gs =
     (let s1 = loaded_controls o' gs; sels = original_selectors o' in do {
        (gdt, ldt) \<leftarrow> original_tables ldtselector o' s1;
        s2 \<leftarrow> segment_pass (\<lambda>m sel. Some sel) 0x800 sels s1;
        s3 \<leftarrow> segment_pass (\<lambda>m. getSegmentLimit m gdt ldt) 0x4800 sels s2;
        s4 \<leftarrow> loaded_bases o' gdt ldt s3;
        s5 \<leftarrow> segment_pass (\<lambda>m. getSegmentAccessRights m gdt ldt) 0x4814 sels s4;
        Some (loaded_registers o' s5) })"

section \<open>A guest that boots\<close>

definition enable_rdtscp :: "UINT64 \<Rightarrow> setup_state \<Rightarrow> machine" where
  "enable_rdtscp c gs =
     (let (g, s) = gs
      in if bit c 31 \<and> allowed 8 (IA32_VMX_SECONDARY_PROCBASED_CTLS g) then vmwrite 0x401e 8 s else s)"

text \<open>The first processor starts as the hypervisor runs, in a routine that boots the system.\<close>

definition boot_state :: "boot_env \<Rightarrow> UINT64 \<Rightarrow> setup_state \<Rightarrow> (nat \<times> UINT64) list" where
  "boot_state b stack gs =
     (let (g, s) = gs; cr4 = hostCR4 (host s)
      in [(vm_entry_controls, controls [0x200, 4] (IA32_VMX_ENTRY_CTLS g)),
          (vm_cr0_fakeread, own_CR0 b), (vm_cr4_fakeread, cr4), (0x6008, own_CR3 b),
          (vm_guest_gdtr_base, own_GDTbase b), (vm_guest_idtr_base, own_IDTbase b),
          (vm_guest_gdt_limit, 88), (vm_guest_idt_limit, 8 * 256),
          (vm_guest_cr0, own_CR0 b), (vm_guest_cr3, own_CR3 b),
          (vm_guest_cr4, cr4 OR IA32_VMX_CR4_FIXED0 s OR 1 OR 0x10 OR 0x20 OR 1),
          (vm_guest_es, 8), (vm_guest_cs, 80), (vm_guest_ss, 8), (vm_guest_ds, 8), (vm_guest_fs, 8),
          (vm_guest_gs, 8), (vm_guest_ldtr, 0), (vm_guest_tr, 64),
          (0x4800, 0), (0x4802, 0), (0x4804, 0), (0x4806, 0), (0x4808, 0), (0x480a, 0), (0x480c, 0),
          (0x480e, of_nat sizeof_TSS + 32 + 8192 + 1),
          (0x6806, 0), (0x6808, 0), (0x680a, 0), (0x680c, 0), (0x680e, 0), (0x6810, 0), (0x6812, 0),
          (vm_guest_tr_base, mainTSS b),
          (0x4814, 0x10000), (0x4816, 0x209b), (0x4818, 0x10000), (0x481a, 0x10000), (0x481c, 0x10000),
          (0x481e, 0x10000), (0x4820, 0x10000), (0x4822, 0x408b),
          (0x482a, 0), (0x6824, 0), (0x6826, 0), (vm_guest_dr7, 0x400), (0x4826, 0),
          (vm_guest_rsp, stack + 0x1000 - 8), (vm_guest_rip, quickboot b), (vm_guest_rflags, own_RFLAGS b)])"

definition guest_boot :: "boot_env \<Rightarrow> setup_state \<Rightarrow> machine option" where
  "guest_boot b gs =
     (let (g, s) = gs; proc = IA32_VMX_PROCBASED_CTLS s;
          c = with_secondary proc (controls [0x80, 0x200, 0x10000000] proc);
          s1 = s\<lparr>cpu := (cpu s)\<lparr>guestCR3 := own_CR3 b, guestCR0 := own_CR0 b, hasIF := 0\<rparr>\<rparr>;
          s2 = enable_rdtscp c (g, vmwrite vm_execution_controls_cpu c s1)
      in do {
        (stack, h) \<leftarrow> malloc 4096 (heap s2);
        Some (vmwrites (boot_state b stack (g, s2)) (s2\<lparr>heap := h\<rparr>)) })"

text \<open>The other processors wait in virtual 8086 mode for a start-up message.\<close>

definition wait_state :: "boot_env \<Rightarrow> DWORD \<Rightarrow> DWORD \<Rightarrow> UINT64 \<Rightarrow> UINT64 \<Rightarrow> setup_state \<Rightarrow> (nat \<times> UINT64) list" where
  "wait_state b gdtbase idtbase pagedir' tss gs =
     (let (g, s) = gs
      in [(vm_entry_controls, IA32_VMX_ENTRY_CTLS g), (vm_cr0_fakeread, 0), (vm_cr4_fakeread, 0), (0x6008, -1),
          (vm_guest_gdtr_base, ucast gdtbase), (vm_guest_gdt_limit, ucast (own_GDTsize b)),
          (vm_guest_idtr_base, ucast idtbase), (vm_guest_idt_limit, 256 * 8),
          (vm_guest_cr0, IA32_VMX_CR0_FIXED0 s OR 0x10000), (vm_guest_cr3, pagedir'),
          (vm_guest_cr4, IA32_VMX_CR4_FIXED0 s OR 1 OR 0x10 OR 0x20 OR 1),
          (vm_guest_es, 0), (vm_guest_cs, 0x2000), (vm_guest_ss, 0), (vm_guest_ds, 0), (vm_guest_fs, 0),
          (vm_guest_gs, 0), (vm_guest_ldtr, 0), (vm_guest_tr, 64),
          (0x4800, 0xffff), (0x4802, 0xffff), (0x4804, 0xffff), (0x4806, 0xffff), (0x4808, 0xffff),
          (0x480a, 0xffff), (0x480c, 0), (0x480e, of_nat sizeof_TSS + 32 + 8192 + 1),
          (0x6806, 0), (0x6808, 0x20000), (0x680a, 0), (0x680c, 0), (0x680e, 0), (0x6810, 0), (0x6812, 0),
          (vm_guest_tr_base, tss),
          (0x4814, 0xf3), (0x4816, 0xf3), (0x4818, 0xf3), (0x481a, 0xf3), (0x481c, 0xf3), (0x481e, 0xf3),
          (0x4820, 0x10000), (0x4822, 0x408b),
          (0x482a, 0), (0x6824, 0), (0x6826, 0), (vm_guest_dr7, 0x400), (0x4826, 3),
          (vm_guest_rsp, 0xffc), (vm_guest_rip, waitforsipi b), (vm_guest_rflags, 0x23002)])"

definition guest_wait :: "boot_env \<Rightarrow> setup_state \<Rightarrow> machine" where
  "guest_wait b gs =
     (let (g, s) = gs;
          (gdtbase, s1) = VirtualToPhysical (own_GDTbase b) s;
          (idtbase, s2) = VirtualToPhysical (idttable32 b) s1;
          s3 = s2\<lparr>cpu := (cpu s2)\<lparr>guestCR3 := 0, guestCR0 := 0, hasIF := 0, RealMode_IDTBase := 0,
                 RealMode_GDTBase := 0, RealMode_IDTLimit := 0x400\<rparr>\<rparr>;
          proc = IA32_VMX_PROCBASED_CTLS s;
          c = with_secondary proc (take_bit 32 (proc OR 0x200 OR 0x2000000 OR 0x10000000));
          s4 = enable_rdtscp c (g, vmwrite vm_execution_controls_cpu c s3);
          (cr3, s5) = VirtualToPhysical (nonpagedEmulationPagedir s4) s4;
          (tss, s6) = VirtualToPhysical (VirtualMachineTSS_V8086 b) s5
      in vmwrites (wait_state b (ucast gdtbase) (ucast idtbase) cr3 tss (g, s6)) s6)"

section \<open>The hypervisor's own state\<close>

definition host_values :: "boot_env \<Rightarrow> machine \<Rightarrow> (nat \<times> UINT64) list" where
  "host_values b s =
     [(0xc00, 8), (0xc02, 80), (0xc04, 8), (0xc06, 8), (0xc08, 8), (0xc0a, 8), (0xc0c, 96),
      (0x4c00, msr s 0x174), (0x6c10, msr s 0x175), (0x6c12, msr s 0x176),
      (0x6c00, own_CR0 b), (0x6c02, own_CR3 b), (0x6c04, hostCR4 (host s)),
      (0x6c06, msr s 0xc0000100), (0x6c08, msr s 0xc0000101), (0x6c0a, ownTSS b),
      (0x6c0c, own_GDTbase b), (0x6c0e, own_IDTbase b)]"

definition setup_host :: "boot_env \<Rightarrow> machine \<Rightarrow> machine" where
  "setup_host b s =
     (let s1 = vmwrites [(0x2800, -1), (0x2802, 0), (vm_guest_interruptability_state, 0), (0x4828, 0), (0x6822, 0)] s
      in vmwrites (host_values b s1) s1)"

section \<open>All of it\<close>

text \<open>The boot code in low memory, written once and not when the hypervisor was loaded later.\<close>

definition copy_boot_code :: "boot_env \<Rightarrow> machine \<Rightarrow> machine" where
  "copy_boot_code b s =
     (let s1 = zero_pages 1 0x60000 (zero_pages 1 0x50000 (zero_pages 1 0x20000 s));
          gdt = map (\<lambda>k. mem s1 (host_pa s1 (GDT_IDT_BASE b + of_nat k))) [0..<0x50];
          s2 = host_put 0x50000 gdt s1
      in host_put 0x20000 (movetoreal_code b) s2)"

text \<open>
  \<open>loadedOS\<close> is the physical address of the stored state, 0 without one. \<open>None\<close> also for an
  AMD processor, which has a set-up of its own.
\<close>

definition setupVMX_inner :: "boot_env \<Rightarrow> UINT64 \<Rightarrow> ULONG \<Rightarrow> setup_state \<Rightarrow> setup_state option" where
  "setupVMX_inner b loadedOS ldtselector gs =
     (let (g, s) = gs; configured = globals_have_been_configured g;
          s1 = (if loadedOS = 0 \<and> \<not> configured then copy_boot_code b s else s)
      in if isAMD s1 then None
         else do {
           (g2, s2) \<leftarrow> setup_bitmaps (g, s1);
           s3 \<leftarrow> setupRealModePaging s2;
           (let (g4, s4) = compatible_capabilities (if configured then (g2, s3)
                  else read_capabilities (g2, setupTSS8086 (vm86_tables.truncate b) s3));
                s5 = setup_controls (g4, s4)
            in do {
              s6 \<leftarrow> (if loadedOS \<noteq> 0 then do {
                         o' \<leftarrow> read_original (mem s5) loadedOS;
                         guest_loaded ldtselector o' (g4, s5) }
                     else if cpunr (info (cpu s5)) = 0 then guest_boot b (g4, s5)
                     else Some (guest_wait b (g4, s5)));
              Some (g4\<lparr>globals_have_been_configured := True\<rparr>, setup_host b s6) }) })"

definition setupVMX :: "boot_env \<Rightarrow> UINT64 \<Rightarrow> ULONG \<Rightarrow> nat \<Rightarrow> criticalSection \<times> setup_state
    \<Rightarrow> (criticalSection \<times> setup_state) option" where
  "setupVMX b loadedOS ldtselector c st = do {
     lock \<leftarrow> csEnter c (fst st);
     gs \<leftarrow> setupVMX_inner b loadedOS ldtselector (snd st);
     Some (csLeave c lock, gs) }"

section \<open>Reading the fields back\<close>

lemma vmread_vmwrites:
  "vmread (vmwrites l s) f = (case map_of (rev l) f of None \<Rightarrow> vmread s f | Some v \<Rightarrow> take_bit (vm_width f) v)"
  unfolding vmwrites_def
  by (induction l arbitrary: s) (auto simp: map_add_def split: option.split)

lemma vmwrites_other: "f \<notin> fst ` set l \<Longrightarrow> vmread (vmwrites l s) f = vmread s f"
proof -
  assume "f \<notin> fst ` set l"
  then have "map_of (rev l) f = None" by (simp add: map_of_eq_None_iff)
  then show ?thesis by (simp add: vmread_vmwrites)
qed

lemma vmwrites_parts [simp]:
  "mem (vmwrites l s) = mem s" "cpu (vmwrites l s) = cpu s" "msr (vmwrites l s) = msr s"
  "host (vmwrites l s) = host s" "isAMD (vmwrites l s) = isAMD s" "heap (vmwrites l s) = heap s"
  "IA32_VMX_PROCBASED_CTLS (vmwrites l s) = IA32_VMX_PROCBASED_CTLS s"
  by (induction l arbitrary: s) (auto simp: vmwrites_def vmwrite_def)

lemma vmwrite_physical_read: "f \<noteq> g \<Longrightarrow> vmread (vmwrite_physical f a s) g = vmread s g"
proof -
  have "vmread (snd (VirtualToPhysical a s)) g = vmread s g" by (simp add: vmread_def)
  then show "f \<noteq> g \<Longrightarrow> ?thesis" by (simp add: vmwrite_physical_def split_beta)
qed

section \<open>The bitmap of the MSRs\<close>

text \<open>
  How the processor reads the bitmap: 1 KB each for the reads of the low MSRs, of those from
  C0000000h, for the writes of the low ones and of the high ones.
\<close>

definition msr_exits :: "(nat \<Rightarrow> BYTE) \<Rightarrow> bool \<Rightarrow> bool \<Rightarrow> nat \<Rightarrow> bool" where
  "msr_exits m writing high n \<longleftrightarrow>
     bit (m ((if writing then 2048 else 0) + (if high then 1024 else 0) + n div 8)) (n mod 8)"

lemma set_msr_bit_iff:
  "bit (set_msr_bit base k m (base' + n div 8)) (n mod 8) \<longleftrightarrow>
     bit (m (base' + n div 8)) (n mod 8) \<or> base' + n div 8 = base + k div 8 \<and> n mod 8 = k mod 8"
  by (auto simp: set_msr_bit_def bit_simps)

lemma same_msr: "n div 8 = k div 8 \<and> n mod 8 = k mod 8 \<longleftrightarrow> n = (k :: nat)"
  by (metis div_mult_mod_eq)


lemma assigned_bit_iff:
  "bit ((m(c := 1)) (base' + n div 8)) (n mod 8) \<longleftrightarrow>
     (if base' + n div 8 = c then n mod 8 = 0 else bit (m (base' + n div 8)) (n mod 8))"
  for m :: "nat \<Rightarrow> BYTE"
  by (simp add: bit_1_iff)



section \<open>Legal controls\<close>

text \<open>What a capability register demands of a set of controls, and that it can be satisfied.\<close>

definition legal :: "UINT64 \<Rightarrow> UINT64 \<Rightarrow> bool" where
  "legal cap v \<longleftrightarrow> (\<forall>i < 32. (bit cap i \<longrightarrow> bit v i) \<and> (bit v i \<longrightarrow> bit cap (32 + i)))"

definition satisfiable :: "UINT64 \<Rightarrow> bool" where
  "satisfiable cap \<longleftrightarrow> (\<forall>i < 32. bit cap i \<longrightarrow> bit cap (32 + i))"

lemma allowed_bit: "allowed x c \<Longrightarrow> bit x i \<Longrightarrow> bit c (32 + i)"
  unfolding allowed_def by (metis bit_and_iff bit_drop_bit_eq o_apply)

lemma expect_bits:
  assumes "take_bit 32 x = x"
  shows "satisfiable c \<Longrightarrow> satisfiable (expect x c)" "bit c i \<Longrightarrow> bit (expect x c) i"
    "bit (expect x c) (32 + i) \<longleftrightarrow> bit c (32 + i)"
proof -
  have high: "\<not> bit x (32 + i)" for i
    using assms by (metis bit_take_bit_iff not_add_less1)
  show "bit c i \<Longrightarrow> bit (expect x c) i" by (simp add: expect_def bit_or_iff)
  show "bit (expect x c) (32 + i) \<longleftrightarrow> bit c (32 + i)" for i by (simp add: expect_def bit_or_iff high)
  then show "satisfiable c \<Longrightarrow> satisfiable (expect x c)"
    by (auto simp: satisfiable_def) (auto simp: expect_def bit_or_iff split: if_splits dest: allowed_bit)
qed

lemma add_allowed_bits:
  "bit (add_allowed xs c r) i \<Longrightarrow> bit r i \<or> bit c (32 + i)" "bit r i \<Longrightarrow> bit (add_allowed xs c r) i"
proof -
  show "bit (add_allowed xs c r) i \<Longrightarrow> bit r i \<or> bit c (32 + i)"
  proof (induction xs arbitrary: r)
    case (Cons x xs)
    from Cons.prems have "bit (if allowed x c then r OR x else r) i \<or> bit c (32 + i)" by (intro Cons.IH) simp
    then show ?case by (cases "allowed x c") (auto simp: bit_or_iff dest: allowed_bit)
  qed simp
  show "bit r i \<Longrightarrow> bit (add_allowed xs c r) i" by (induction xs arbitrary: r) (simp_all add: bit_or_iff)
qed

lemma legal_controls: "satisfiable c \<Longrightarrow> legal c (controls xs c)"
  unfolding legal_def controls_def satisfiable_def
  by (metis add_allowed_bits bit_take_bit_iff)

lemma legal_low: "satisfiable c \<Longrightarrow> legal c (take_bit 32 c)"
  by (auto simp: legal_def satisfiable_def bit_take_bit_iff)

text \<open>What is legal for the register as the set-up keeps it is legal for the register.\<close>

lemma legal_expect:
  assumes "take_bit 32 x = x" "legal (expect x c) v"
  shows "legal c v"
  using assms(2) expect_bits(2,3) [OF assms(1)] by (auto simp: legal_def)

lemma legal_take: "legal c (take_bit 32 v) \<longleftrightarrow> legal c v"
  by (auto simp: legal_def bit_take_bit_iff)

lemma legal_secondary:
  assumes "satisfiable p" "\<forall>i. bit p (32 + i) = bit c (32 + i)" "legal p v" "bit p 63 = bit c 63"
  shows "legal p (with_secondary c v)"
  using assms unfolding legal_def with_secondary_def
  by (auto simp: bit_set_bit_iff)

text \<open>The set-up keeps the MSRs, and its guest part the controls that it does not choose.\<close>

lemma zero_pages_parts [simp]:
  "msr (zero_pages n a s) = msr s" "isAMD (zero_pages n a s) = isAMD s" "vmcs (zero_pages n a s) = vmcs s"
  "cpu (zero_pages n a s) = cpu s" "host (zero_pages n a s) = host s"
  by (induction n a s rule: zero_pages.induct) simp_all

lemma host_put_parts [simp]:
  "msr (host_put a bs s) = msr s" "isAMD (host_put a bs s) = isAMD s" "cpu (host_put a bs s) = cpu s"
  "host (host_put a bs s) = host s"
  by (simp_all add: host_put_def)

lemma copy_boot_code_parts [simp]:
  "msr (copy_boot_code b s) = msr s" "isAMD (copy_boot_code b s) = isAMD s" "cpu (copy_boot_code b s) = cpu s"
  "host (copy_boot_code b s) = host s"
  by (simp_all add: copy_boot_code_def Let_def)

lemma VirtualToPhysical_msr [simp]: "msr (snd (VirtualToPhysical a s)) = msr s" "cpu (snd (VirtualToPhysical a s)) = cpu s"
   "host (snd (VirtualToPhysical a s)) = host s"
  by (simp_all add: VirtualToPhysical_def MapPhysicalMemory_def MapPhysicalMemoryEx_def Let_def split_beta)

lemma setupTSS8086_parts [simp]: "msr (setupTSS8086 v s) = msr s" "cpu (setupTSS8086 v s) = cpu s" "host (setupTSS8086 v s) = host s"
  by (simp_all add: setupTSS8086_def Let_def split_beta)

lemma bitmaps_parts: "setup_bitmaps (g, s) = Some (g', t) \<Longrightarrow> msr t = msr s \<and> cpu t = cpu s \<and> host t = host s"
  by (auto simp: setup_bitmaps_def bind_Some_iff split: if_splits)

lemma table_entry_cpu [simp]: "cpu (table_entry rw a p s) = cpu s"
  by (simp add: table_entry_def host_store64_def Let_def split_beta)

lemma fill_cpu: "cpu (fill_pdpt rw p d n s) = cpu s" "fill_dir n i d s = Some t \<Longrightarrow> cpu t = cpu s"
proof -
  have "cpu (fold (\<lambda>i. table_entry rw (a i) (b i)) is s) = cpu s" for a b and "is" :: "nat list"
    by (induction "is" arbitrary: s) simp_all
  then show "cpu (fill_pdpt rw p d n s) = cpu s" by (simp add: fill_pdpt_def)
  show "fill_dir n i d s = Some t \<Longrightarrow> cpu t = cpu s"
    by (induction n i d s rule: fill_dir.induct) (auto simp: host_store64_def Let_def split: if_splits)
qed

lemma paging_parts: "setupRealModePaging s = Some t \<Longrightarrow> msr t = msr s \<and> cpu t = cpu s"
  using setupNonPagedPaging_touches [of s t]
  by (auto simp: setupRealModePaging_def touches_def setupNonPagedPaging_def bind_Some_iff Let_def split_beta
      fill_cpu split: if_splits dest!: fill_cpu(2))

definition fixed_controls :: "nat set" where
  "fixed_controls = {0x4000, 0x400c}"

lemma pass_keeps:
  assumes "segment_pass get field sels s = Some t" "f \<notin> pass_fields field sels"
  shows "vmread t f = vmread s f"
  using segment_pass_frame(2) [OF assms(1)] assms(2) by (simp add: touches_def vmread_def)

lemma guest_keeps:
  assumes "f \<in> fixed_controls"
  shows "guest_loaded sel o' (g, s) = Some t \<Longrightarrow> vmread t f = vmread s f"
    and "guest_boot b (g, s) = Some t \<Longrightarrow> vmread t f = vmread s f"
    and "vmread (guest_wait b (g, s)) f = vmread s f" and "vmread (setup_host b s) f = vmread s f"
proof -
  show "vmread (setup_host b s) f = vmread s f"
    using assms by (auto simp: setup_host_def Let_def vmwrites_other host_values_def fixed_controls_def)
  have vtp: "vmread (snd (VirtualToPhysical a u)) h = vmread u h" for a u h by (simp add: vmread_def)
  have rdtscp: "vmread (enable_rdtscp c (g, u)) h = vmread u h" if "h \<noteq> 0x401e" for c u h
    using that by (auto simp: enable_rdtscp_def)
  show "vmread (guest_wait b (g, s)) f = vmread s f"
    using assms by (auto simp: guest_wait_def Let_def split_beta vmwrites_other wait_state_def vtp rdtscp
        fixed_controls_def)
  show "guest_boot b (g, s) = Some t \<Longrightarrow> vmread t f = vmread s f"
    using assms by (auto simp: guest_boot_def Let_def bind_Some_iff vmwrites_other boot_state_def rdtscp
        fixed_controls_def)
  have ctl: "vmread (loaded_controls o' (g, s)) f = vmread s f"
    using assms by (auto simp: loaded_controls_def Let_def vmwrites_other fixed_controls_def)
  have reg: "vmread (loaded_registers o' u) f = vmread u f" for u
    using assms by (auto simp: loaded_registers_def Let_def vmwrites_other fixed_controls_def set_info_def)
  have pass: "vmread v f = vmread u f" if "segment_pass get field sels u = Some v"
    "field \<in> {0x800, 0x4800, 0x4814, 0x6806}" "fst ` set sels \<subseteq> {..<8}" for get field sels u v
    using that assms by (intro pass_keeps) (auto simp: pass_fields_def fixed_controls_def)
  have bases: "vmread v f = vmread u f" if "loaded_bases o' gdt ldt u = Some v" for gdt ldt u v
    using that assms by (auto simp: loaded_bases_def bind_Some_iff vmwrites_other fixed_controls_def
        split: if_splits dest!: pass)
  have sels: "fst ` set (original_selectors o') \<subseteq> {..<8}" by (simp add: original_selectors_def)
  show "guest_loaded sel o' (g, s) = Some t \<Longrightarrow> vmread t f = vmread s f"
    by (auto simp: guest_loaded_def Let_def bind_Some_iff reg ctl dest!: pass [OF _ _ sels] bases)
qed

lemma setup_controls_read:
  "vmread (setup_controls (g, s)) 0x4000 = take_bit 32 (IA32_VMX_PINBASED_CTLS g)"
  "vmread (setup_controls (g, s)) 0x400c = take_bit 32 (controls [0x200, 0x8000, 4] (IA32_VMX_EXIT_CTLS g))"
  by (simp_all add: setup_controls_def Let_def vmread_vmwrites vmwrite_physical_read vm_width_def)

lemma vmwrite_physical_parts [simp]:
  "cpu (vmwrite_physical f a s) = cpu s" "msr (vmwrite_physical f a s) = msr s"
  "IA32_VMX_PROCBASED_CTLS (vmwrite_physical f a s) = IA32_VMX_PROCBASED_CTLS s"
  "host (vmwrite_physical f a s) = host s"
  by (simp_all add: vmwrite_physical_def split_beta VirtualToPhysical_def MapPhysicalMemory_def
      MapPhysicalMemoryEx_def Let_def)

lemma setup_controls_parts [simp]:
  "cpu (setup_controls (g, s)) = cpu s" "msr (setup_controls (g, s)) = msr s"
  "IA32_VMX_PROCBASED_CTLS (setup_controls (g, s)) = IA32_VMX_PROCBASED_CTLS s"
  "host (setup_controls (g, s)) = host s"
  by (simp_all add: setup_controls_def Let_def)

lemma boot_controls:
  assumes "guest_boot b (g, s) = Some t"
  shows "vmread (setup_host b t) vm_execution_controls_cpu = take_bit 32 (with_secondary (IA32_VMX_PROCBASED_CTLS s)
      (controls [0x80, 0x200, 0x10000000] (IA32_VMX_PROCBASED_CTLS s)))"
    "vmread (setup_host b t) vm_entry_controls = take_bit 32 (controls [0x200, 4] (IA32_VMX_ENTRY_CTLS g))"
  using assms by (auto simp: guest_boot_def setup_host_def host_values_def enable_rdtscp_def boot_state_def
      bind_Some_iff Let_def vmread_vmwrites vm_width_def)

text \<open>
  The parts of a set-up that has returned, on the first processor that is set up.
\<close>

lemma setup_parts:
  assumes "setupVMX_inner b os sel (g, s) = Some (g', t)" "\<not> globals_have_been_configured g"
  obtains g4 s4 s6 where "IA32_VMX_PINBASED_CTLS g4 = expect 0x10 (expect 4 (expect 2 (msr s 0x481)))"
    "IA32_VMX_PROCBASED_CTLS s4 = expect 0x10000 (expect 0x8000 (expect 0x4000000 (expect 0x1e000
       (expect 0x100 (expect 0x70 (expect 2 (msr s 0x482)))))))"
    "IA32_VMX_EXIT_CTLS g4 = msr s 0x483" "IA32_VMX_ENTRY_CTLS g4 = msr s 0x484" "t = setup_host b s6"
    "if os \<noteq> 0 then \<exists>o'. guest_loaded sel o' (g4, setup_controls (g4, s4)) = Some s6
     else if cpunr (info (cpu s)) = 0 then guest_boot b (g4, setup_controls (g4, s4)) = Some s6
     else s6 = guest_wait b (g4, setup_controls (g4, s4))"
proof -
  let ?s1 = "if os = 0 then copy_boot_code b s else s"
  obtain g2 s2 s3 where 1: "setup_bitmaps (g, ?s1) = Some (g2, s2)" "setupRealModePaging s2 = Some s3"
    using assms by (auto simp: setupVMX_inner_def Let_def bind_Some_iff split_beta split: if_splits)
  let ?gs = "compatible_capabilities (read_capabilities (g2, setupTSS8086 (vm86_tables.truncate b) s3))"
  have m: "msr s3 = msr s" "cpu s3 = cpu s"
    using bitmaps_parts [OF 1(1)] paging_parts [OF 1(2)] by auto
  obtain s6 where 2: "t = setup_host b s6" "if os \<noteq> 0
      then \<exists>o'. guest_loaded sel o' (fst ?gs, setup_controls ?gs) = Some s6
      else if cpunr (info (cpu (setup_controls ?gs))) = 0 then guest_boot b (fst ?gs, setup_controls ?gs) = Some s6
      else s6 = guest_wait b (fst ?gs, setup_controls ?gs)"
    using assms 1 by (auto simp: setupVMX_inner_def Let_def bind_Some_iff split_beta split: if_splits)
  obtain g4 s4 where gs: "?gs = (g4, s4)" by (cases ?gs)
  have "cpu s4 = cpu s" using gs m
    by (auto simp: compatible_capabilities_def read_capabilities_def)
  moreover have "IA32_VMX_PINBASED_CTLS g4 = expect 0x10 (expect 4 (expect 2 (msr s 0x481)))"
    "IA32_VMX_PROCBASED_CTLS s4 = expect 0x10000 (expect 0x8000 (expect 0x4000000 (expect 0x1e000
       (expect 0x100 (expect 0x70 (expect 2 (msr s 0x482)))))))"
    "IA32_VMX_EXIT_CTLS g4 = msr s 0x483" "IA32_VMX_ENTRY_CTLS g4 = msr s 0x484"
    using gs m by (auto simp: compatible_capabilities_def read_capabilities_def)
  ultimately show ?thesis using that [of g4 s4 s6] 2(1) 2(2) [unfolded gs fst_conv setup_controls_parts] by simp
qed

lemma legal_with_secondary: "satisfiable c \<Longrightarrow> legal c v \<Longrightarrow> legal c (with_secondary c v)"
  by (rule legal_secondary) simp_all

lemma expect_numerals: "take_bit 32 x = x \<Longrightarrow> satisfiable c \<Longrightarrow> satisfiable (expect x c)"
  by (rule expect_bits)

text \<open>
  C16: the controls are ones the processor accepts. The capability registers say for every control
  whether it must be 1 and whether it may be. After the set-up of the first processor the
  pin-based and the exit controls have every bit that must be 1 and none that may not be; for a
  guest that boots, this also holds for the processor-based and the entry controls, which the
  code selects with a test there. That a control that must be 1 may be 1 is assumed of the
  processor.
\<close>

theorem setup_controls_legal:
  assumes "setupVMX_inner b os sel (g, s) = Some (g', t)" "\<not> globals_have_been_configured g"
    and "satisfiable (msr s 0x481)" "satisfiable (msr s 0x482)" "satisfiable (msr s 0x483)" "satisfiable (msr s 0x484)"
  shows "legal (msr s 0x481) (vmread t vm_execution_controls_pin) \<and> legal (msr s 0x483) (vmread t 0x400c)
    \<and> (os = 0 \<and> cpunr (info (cpu s)) = 0 \<longrightarrow> legal (msr s 0x482) (vmread t vm_execution_controls_cpu)
         \<and> legal (msr s 0x484) (vmread t vm_entry_controls))"
  using assms(1,2)
proof (rule setup_parts)
  fix g4 s4 s6
  assume pin: "IA32_VMX_PINBASED_CTLS g4 = expect 0x10 (expect 4 (expect 2 (msr s 0x481)))"
    and proc: "IA32_VMX_PROCBASED_CTLS s4 = expect 0x10000 (expect 0x8000 (expect 0x4000000 (expect 0x1e000
       (expect 0x100 (expect 0x70 (expect 2 (msr s 0x482)))))))"
    and ex: "IA32_VMX_EXIT_CTLS g4 = msr s 0x483" and en: "IA32_VMX_ENTRY_CTLS g4 = msr s 0x484"
    and t: "t = setup_host b s6"
    and guest: "if os \<noteq> 0 then \<exists>o'. guest_loaded sel o' (g4, setup_controls (g4, s4)) = Some s6
     else if cpunr (info (cpu s)) = 0 then guest_boot b (g4, setup_controls (g4, s4)) = Some s6
     else s6 = guest_wait b (g4, setup_controls (g4, s4))"
  have kept: "vmread t f = vmread (setup_controls (g4, s4)) f" if "f \<in> fixed_controls" for f
    using guest t guest_keeps [OF that] by (auto split: if_splits)
  have sat: "satisfiable (IA32_VMX_PINBASED_CTLS g4)" "satisfiable (IA32_VMX_PROCBASED_CTLS s4)"
    unfolding pin proc using assms(3,4) by (intro expect_numerals; simp)+
  have "legal (msr s 0x481) (take_bit 32 (IA32_VMX_PINBASED_CTLS g4))"
    using legal_low [OF sat(1)] unfolding pin by (auto dest!: legal_expect [rotated])
  moreover have "legal (msr s 0x483) (take_bit 32 (controls [0x200, 0x8000, 4] (msr s 0x483)))"
    using assms(5) by (simp add: legal_take legal_controls)
  moreover have "legal (msr s 0x482) (vmread t vm_execution_controls_cpu) \<and> legal (msr s 0x484) (vmread t vm_entry_controls)"
    if "os = 0 \<and> cpunr (info (cpu s)) = 0"
  proof -
    have boot: "guest_boot b (g4, setup_controls (g4, s4)) = Some s6" using guest that by simp
    have "legal (IA32_VMX_PROCBASED_CTLS s4) (vmread t vm_execution_controls_cpu)"
      using boot_controls(1) [OF boot] sat(2) t by (simp add: legal_take legal_with_secondary legal_controls)
    then have "legal (msr s 0x482) (vmread t vm_execution_controls_cpu)"
      unfolding proc by (auto dest!: legal_expect [rotated])
    moreover have "legal (msr s 0x484) (vmread t vm_entry_controls)"
      using boot_controls(2) [OF boot] assms(6) t by (simp add: en legal_take legal_controls)
    ultimately show ?thesis by blast
  qed
  ultimately show ?thesis
    using kept [of "0x4000"] kept [of "0x400c"] by (simp add: fixed_controls_def setup_controls_read ex)
qed

lemma zero_pages_heap: "heap (zero_pages n a s) = heap s"
    "nonpagedEmulationPagedir (zero_pages n a s) = nonpagedEmulationPagedir s"
  by (induction n a s rule: zero_pages.induct) simp_all

lemma VirtualToPhysical_heap [simp]: "heap (snd (VirtualToPhysical a s)) = heap s"
  by (simp add: VirtualToPhysical_def MapPhysicalMemory_def MapPhysicalMemoryEx_def Let_def split_beta)

lemma table_entry_heap [simp]: "heap (table_entry rw a p s) = heap s"
  by (simp add: table_entry_def host_store64_def Let_def split_beta)

lemma paging_heap:
  assumes "setupRealModePaging s = Some t" "nonpagedEmulationPagedir s \<noteq> 0"
  shows "heap t = heap s"
proof -
  have "heap (fold (\<lambda>i. table_entry rw (a i) (b i)) is s) = heap s" for rw a b s and "is" :: "nat list"
    by (induction "is" arbitrary: s) simp_all
  moreover have "fill_dir n i d s = Some t \<Longrightarrow> heap t = heap s" for n i d s t
    by (induction n i d s rule: fill_dir.induct) (auto simp: host_store64_def Let_def split: if_splits)
  ultimately show ?thesis
    using assms by (auto simp: setupRealModePaging_def setupNonPagedPaging_def fill_pdpt_def bind_Some_iff
        Let_def split_beta)
qed

lemma enable_rdtscp_heap [simp]: "heap (enable_rdtscp c (g, s)) = heap s"
  by (simp add: enable_rdtscp_def)

lemma setup_heap [simp]: "heap (setupTSS8086 v s) = heap s" "heap (setup_controls (g, s)) = heap s"
  by (simp_all add: setupTSS8086_def setup_controls_def vmwrite_physical_def host_put_def Let_def split_beta)

text \<open>A first processor that boots, with capability registers that demand some controls.\<close>

definition sample_boot :: boot_env where
  "sample_boot = \<lparr>own_GDTbase = 0x320000, own_GDTsize = 0x4f, idttable32 = 0x321000,
     VirtualMachineTSS_V8086 = 0x322000, RealmodeRing0Stack = 0x326000, own_CR0 = 0x80000031,
     own_CR3 = 0x330000, own_IDTbase = 0x331000, own_RFLAGS = 2, ownTSS = 0x332000, mainTSS = 0x333000,
     quickboot = 0x334000, waitforsipi = 0x100, GDT_IDT_BASE = 0x320000, movetoreal_code = [0xf4]\<rparr>"

definition sample_vmx :: vmx_globals where
  "sample_vmx = \<lparr>IA32_VMX_PINBASED_CTLS = 0, IA32_VMX_SECONDARY_PROCBASED_CTLS = 0, IA32_VMX_EXIT_CTLS = 0,
     IA32_VMX_ENTRY_CTLS = 0, globals_have_been_configured = False, MSRBitmap_address = 0x340000,
     IOBitmap = 0x341000\<rparr>"

abbreviation booting :: machine where
  "booting \<equiv> sample\<lparr>msr := (\<lambda>_. 0x0000ffff00000016)\<rparr>"

lemma booting_paging: "\<exists>t. setupNonPagedPaging (copy_boot_code sample_boot booting) = Some t"
proof -
  let ?s = "copy_boot_code sample_boot booting"
  have zero: "pagedir (zero_pages n a s) = pagedir s" "nonpagedEmulationPagedir (zero_pages n a s) = nonpagedEmulationPagedir s"
    for n a s by (induction n a s rule: zero_pages.induct) simp_all
  have parts: "pagedir ?s = pagedir sample" "nonpagedEmulationPagedir ?s = 0x310000" "vmcs ?s = vmcs sample"
    by (simp_all add: copy_boot_code_def host_put_def Let_def zero) (simp add: sample_def)
  have d: "dir_slot 0x310000 = 8" by (simp add: dir_slot_def and_1ff take_bit_word_eq_self drop_bit_eq_div)
  have e: "pagedir ?s (dir_slot 0x310000) = 0x200087" unfolding parts by (simp add: d sample_def)
  have pa: "host_pa ?s 0x310000 = 0x310000"
    unfolding host_pa_def VirtualToPhysical_def e Let_def
    by (simp add: entry_P_def entry_PS_def bit_numeral_rec drop_bit_eq_div take_bit_eq_mod push_bit_eq_mult)
  have big: "big_page ?s 0x310000 0x9000"
    unfolding big_page_def e by (simp add: entry_P_def entry_PS_def bit_numeral_rec)
  have "\<not> IS64BITPAGING ?s"
    by (simp add: IS64BITPAGING_def vmread_def parts) (simp add: sample_def)
  then show ?thesis
    by (rule setupNonPagedPaging_returns [OF _ parts(2) _ big]) (simp_all only: pa, simp_all)
qed

lemma booting_setup: "\<exists>g t. setupVMX_inner sample_boot 0 0 (sample_vmx, booting) = Some (g, t)"
proof -
  obtain u where u: "setupRealModePaging (copy_boot_code sample_boot booting) = Some u"
    using booting_paging by (auto simp: setupRealModePaging_def)
  have maps: "setup_bitmaps (sample_vmx, s) = Some (sample_vmx, s)" for s
    by (simp add: setup_bitmaps_def sample_vmx_def)
  have h: "heap u = heap sample"
  proof -
    have "heap (copy_boot_code sample_boot booting) = heap sample"
      "nonpagedEmulationPagedir (copy_boot_code sample_boot booting) \<noteq> 0"
      by (simp_all add: copy_boot_code_def host_put_def Let_def zero_pages_heap) (simp add: sample_def)
    then show ?thesis using paging_heap [OF u] by simp
  qed
  have m: "malloc 4096 (heap sample) = Some (0, heap sample)"
    by (simp add: malloc_def findFreeRegion_def find_from.simps [of _ _ 0]) (simp add: sample_def find_from.simps [of _ _ 0])
  obtain g s4 where gs: "compatible_capabilities (read_capabilities (sample_vmx,
      setupTSS8086 (vm86_tables.truncate sample_boot) u)) = (g, s4)"
    by (cases "compatible_capabilities (read_capabilities (sample_vmx, setupTSS8086 (vm86_tables.truncate sample_boot) u))")
  have c4: "cpu s4 = cpu sample" "heap s4 = heap sample"
    using gs paging_parts [OF u] h by (auto simp: compatible_capabilities_def read_capabilities_def)
  have "cpunr (info (cpu sample)) = 0" "\<not> isAMD sample" "\<not> globals_have_been_configured sample_vmx"
    by (simp_all add: sample_def sample_info_def sample_vmx_def)
  moreover obtain s6 where "guest_boot sample_boot (g, setup_controls (g, s4)) = Some s6"
    using m c4 by (simp add: guest_boot_def Let_def)
  ultimately show ?thesis using maps u gs c4 by (simp add: setupVMX_inner_def)
qed

lemma booting_satisfiable: "satisfiable 0x0000ffff00000016"
proof -
  have cap: "(0x0000ffff00000016 :: UINT64) = push_bit 32 (mask 16) OR 0x16"
    by (simp add: mask_eq_exp_minus_1 push_bit_eq_mult)
  have low: "i < 16" if "bit (0x16 :: UINT64) i" for i
  proof -
    have "take_bit 16 (0x16 :: UINT64) = 0x16" by simp
    with that have "bit (take_bit 16 (0x16 :: UINT64)) i" by (simp only:)
    then show ?thesis by (simp only: bit_take_bit_iff)
  qed
  show ?thesis unfolding satisfiable_def cap
    by (intro allI impI) (simp only: bit_or_iff bit_push_bit_iff bit_mask_iff, use low in auto)
qed

theorem setup_controls_legal_witness:
  "\<exists>g t. setupVMX_inner sample_boot 0 0 (sample_vmx, booting) = Some (g, t)
     \<and> legal 0x0000ffff00000016 (vmread t vm_execution_controls_pin)
     \<and> legal 0x0000ffff00000016 (vmread t vm_execution_controls_cpu)"
proof -
  have "cpunr (info (cpu sample)) = 0" "\<not> globals_have_been_configured sample_vmx"
    by (simp_all add: sample_def sample_info_def sample_vmx_def)
  then show ?thesis
    using setup_controls_legal [of sample_boot 0 0 sample_vmx booting] booting_setup booting_satisfiable
    by fastforce
qed

section \<open>Taking over a running system\<close>

lemma pass_read:
  assumes "segment_pass get field sels s = Some t" "field \<in> {0x800, 0x4800, 0x4814, 0x6806}" "fst ` set sels \<subseteq> {..<8}"
    and "f \<notin> {field..<field + 16}"
  shows "vmread t f = vmread s f"
  using assms by (intro pass_keeps) (auto simp: pass_fields_def)

text \<open>The blocks of fields that the segment registers are loaded into.\<close>

definition segment_fields :: "nat set" where
  "segment_fields = {0x800..<0x810} \<union> {0x4800..<0x4810} \<union> {0x4814..<0x4824} \<union> {0x6806..<0x6816}"

lemma loaded_frame:
  assumes "guest_loaded sel o' (g, s) = Some t" "f \<notin> segment_fields"
    and "f \<notin> {0x482a, 0x6824, 0x6826, vm_guest_dr7, 0x4826, vm_guest_rsp, vm_guest_rip, vm_guest_rflags}"
  shows "vmread t f = vmread (loaded_controls o' (g, s)) f"
proof -
  have f: "f \<notin> {0x800..<0x800 + 16}" "f \<notin> {0x4800..<0x4800 + 16}" "f \<notin> {0x4814..<0x4814 + 16}"
      "f \<notin> {0x6806..<0x6806 + 16}"
    using assms(2) by (simp_all add: segment_fields_def)
  have sels: "fst ` set (original_selectors o') \<subseteq> {..<8}" by (simp add: original_selectors_def)
  have bases: "vmread v f = vmread u f" if "loaded_bases o' gdt ldt u = Some v" for gdt ldt u v
    using that f(4) by (auto simp: loaded_bases_def bind_Some_iff vmwrites_other split: if_splits
        dest!: pass_read [where f = f])
  have reg: "vmread (loaded_registers o' u) f = vmread u f" for u
    using assms(3) by (auto simp: loaded_registers_def Let_def vmwrites_other set_info_def)
  show ?thesis
    using assms(1) f by (auto simp: guest_loaded_def Let_def bind_Some_iff reg
        dest!: pass_read [OF _ _ sels, where f = f] bases)
qed

lemma loaded_passes:
  assumes "guest_loaded ldtselector o' (g, s) = Some u"
  obtains gdt ldt s2 s3 s4 s5 where
    "original_tables ldtselector o' (loaded_controls o' (g, s)) = Some (gdt, ldt)"
    "segment_pass (\<lambda>m sel. Some sel) 0x800 (original_selectors o') (loaded_controls o' (g, s)) = Some s2"
    "segment_pass (\<lambda>m. getSegmentLimit m gdt ldt) 0x4800 (original_selectors o') s2 = Some s3"
    "loaded_bases o' gdt ldt s3 = Some s4"
    "segment_pass (\<lambda>m. getSegmentAccessRights m gdt ldt) 0x4814 (original_selectors o') s4 = Some s5"
    "u = loaded_registers o' s5"
  using assms by (auto simp: guest_loaded_def Let_def bind_Some_iff)

lemma host_values_area: "(f, x) \<in> set (host_values b s) \<Longrightarrow> host_field f"
  by (auto simp: host_values_def)

lemma setup_host_keeps:
  assumes "\<not> host_field f" "f \<notin> {0x2800, 0x2802, vm_guest_interruptability_state, 0x4828, 0x6822}"
  shows "vmread (setup_host b s) f = vmread s f"
proof -
  have "f \<notin> fst ` set (host_values b u)" for u using assms(1) by (auto dest: host_values_area)
  then show ?thesis using assms(2) by (simp add: setup_host_def Let_def vmwrites_other)
qed

text \<open>The registers that are not segment registers.\<close>

lemma loaded_register_fields:
  assumes "guest_loaded ldtselector o' (g, s) = Some u"
  shows "vmread u vm_guest_rip = (if os_LME o' \<noteq> 0 then os_rip o' else take_bit 32 (os_rip o'))"
    "vmread u vm_guest_rsp = (if os_LME o' \<noteq> 0 then os_rsp o' else take_bit 32 (os_rsp o'))"
    "vmread u vm_guest_rflags = os_rflags o'" "vmread u vm_guest_dr7 = os_dr7 o'"
  using assms by (auto elim!: loaded_passes simp: loaded_registers_def Let_def vmread_vmwrites vm_width_def)

lemma loaded_control_fields:
  assumes "guest_loaded ldtselector o' (g, s) = Some u"
  shows "vmread u vm_cr0_fakeread = os_cr0 o'" "vmread u vm_cr4_fakeread = os_cr4 o'"
    "vmread u vm_guest_cr3 = os_cr3 o'"
    "vmread u vm_guest_cr0 = take_bit 32 (IA32_VMX_CR0_FIXED0 s) OR os_cr0 o'"
    "vmread u vm_guest_cr4 = take_bit 32 (IA32_VMX_CR4_FIXED0 s) OR os_cr4 o'"
    "vmread u vm_guest_gdtr_base = os_gdtbase o'" "vmread u vm_guest_gdt_limit = take_bit 32 (os_gdtlimit o')"
    "vmread u vm_guest_idtr_base = os_idtbase o'" "vmread u vm_guest_idt_limit = take_bit 32 (os_idtlimit o')"
  using loaded_frame [OF assms]
  by (simp_all add: segment_fields_def loaded_controls_def Let_def vmread_vmwrites vm_width_def)

text \<open>The segment registers: selector, limit and access rights.\<close>

lemma loaded_segments:
  assumes "guest_loaded ldtselector o' (g, s) = Some u"
    and "original_tables ldtselector o' (loaded_controls o' (g, s)) = Some (gdt, ldt)"
    and "(i, sel) \<in> set (original_selectors o')"
  shows "vmread u (0x800 + 2 * i) = take_bit 16 (ucast sel)"
    and "map_option ucast (getSegmentLimit (mem s) gdt ldt sel) = Some (vmread u (0x4800 + 2 * i))"
    and "map_option ucast (getSegmentAccessRights (mem s) gdt ldt sel) = Some (vmread u (0x4814 + 2 * i))"
proof -
  let ?l = "original_selectors o'"
  obtain s2 s3 s4 s5 where p:
    "segment_pass (\<lambda>m sel. Some sel) 0x800 ?l (loaded_controls o' (g, s)) = Some s2"
    "segment_pass (\<lambda>m. getSegmentLimit m gdt ldt) 0x4800 ?l s2 = Some s3"
    "loaded_bases o' gdt ldt s3 = Some s4"
    "segment_pass (\<lambda>m. getSegmentAccessRights m gdt ldt) 0x4814 ?l s4 = Some s5"
    and u: "u = loaded_registers o' s5"
    using assms(1,2) by (auto elim!: loaded_passes)
  have l: "distinct (map fst ?l)" "fst ` set ?l \<subseteq> {..<8}" by (simp_all add: original_selectors_def)
  have i: "i < 8" using l(2) assms(3) by force
  have w: "vm_width (0x800 + 2 * i) = 16" "vm_width (0x4800 + 2 * i) = 32" "vm_width (0x4814 + 2 * i) = 32"
    using assms(3) by (auto simp: original_selectors_def vm_width_def)
  note loads = segment_pass_loads [OF _ l(1) assms(3)]
  have bases: "vmread s4 f = vmread s3 f" "mem s4 = mem s3" if "f < 0x6806" for f
    using p(3) that by (auto simp: loaded_bases_def bind_Some_iff vmwrites_other split: if_splits
        dest: segment_pass_frame(1) dest!: pass_read [where f = f])
  have reg: "vmread u f = vmread s5 f" if "f < 0x4824" for f
    using that by (simp add: u loaded_registers_def Let_def vmwrites_other set_info_def)
  have m: "mem s2 = mem s" "mem s3 = mem s" "mem s4 = mem s"
    using segment_pass_frame(1) [OF p(1)] segment_pass_frame(1) [OF p(2)] bases(2) [of 0]
    by (simp_all add: loaded_controls_def Let_def)
  show "vmread u (0x800 + 2 * i) = take_bit 16 (ucast sel)"
    using loads [OF p(1)] w(1) i reg pass_read [OF p(4) _ l(2)] bases(1) pass_read [OF p(2) _ l(2)] by simp
  show "map_option ucast (getSegmentLimit (mem s) gdt ldt sel) = Some (vmread u (0x4800 + 2 * i))"
    using loads [OF p(2)] w(2) i m reg pass_read [OF p(4) _ l(2)] bases(1) by (auto simp: ucast_width32)
  show "map_option ucast (getSegmentAccessRights (mem s) gdt ldt sel) = Some (vmread u (0x4814 + 2 * i))"
    using loads [OF p(4)] w(3) i m reg by (auto simp: ucast_width32)
qed


text \<open>A 32-bit system with one 4 MB page; its selectors name the first descriptor of its GDT.\<close>

definition sample_original :: OriginalState where
  "sample_original = \<lparr>os_EFER = 0, os_LME = 0, os_idtbase = 0x2000, os_idtlimit = 0x7ff, os_gdtbase = 0x1000,
     os_gdtlimit = 0x7f, os_cr0 = 0x80000001, os_cr3 = 0x100000, os_cr4 = 0x10, os_dr7 = 0x400,
     os_rip = 0x1234, os_rsp = 0x9000, os_rflags = 0x202, os_cs = 8, os_ss = 8, os_ds = 8, os_es = 8,
     os_fs = 8, os_gs = 8, os_tr = 8, os_ldt = 0, os_fsbase = 0, os_gsbase = 0\<rparr>"

abbreviation taken_over :: machine where
  "taken_over \<equiv> loaded_controls sample_original (sample_vmx, sample)"

lemma taken_over_tables: "original_tables 0 sample_original taken_over = Some (Some (0x1000, 0x3ff000), None)"
proof -
  have walk: "walk_nonPAE sample_mem 0x100000 0x1000 = Some (Some 0x1000)"
    by (simp add: walk_nonPAE_def tbl_entry32_def sample_mem_def entry_P_def entry_PS_def PFN_base_def
        bit_numeral_rec drop_bit_eq_div take_bit_eq_mod push_bit_eq_mult)
  have "getPhysicalAddressVM taken_over 0x1000 = Some (Some 0x1000)"
    using walk
    by (simp add: getPhysicalAddressVM_def IS64BITPAGING_def loaded_controls_def sample_original_def sample_vmx_def
        vmread_vmwrites vm_width_def Let_def) (simp add: sample_def bit_numeral_rec take_bit_eq_mod)
  then show ?thesis by (simp add: original_tables_def phys_or_0_def phys_table_def sample_original_def)
qed

lemma taken_over_loads: "\<exists>u. guest_loaded 0 sample_original (sample_vmx, sample) = Some u"
  using taken_over_tables
  by (simp add: guest_loaded_def Let_def original_selectors_def sample_original_def loaded_bases_def
      getSegmentLimit_def getSegmentBase_def getSegmentBaseEx_def getSegmentAccessRights_def used_table_def
      dt_entry_def bit_simps)


end
