(* ===== verification/Multicore.thy ===== *)
theory Multicore
  imports VM_Call
begin

text \<open>
  How many processors there are: \<^verbatim>\<open>initAPcpus\<close> of \<^verbatim>\<open>dbvm/vmm/multicore.c\<close> counts them in the
  tables the firmware has left in memory, those of ACPI or else the older multiprocessor table,
  and starts the others when there are any. Starting them (\<^verbatim>\<open>initcpus\<close> in \<^verbatim>\<open>apica.asm\<close>) is
  recorded as the list of the addresses it is called with.
\<close>

section \<open>Reading tables\<close>

text \<open>
  A table is read through a window: low memory directly, other memory through
  \<^verbatim>\<open>MapPhysicalMemory\<close>. The code maps the root table and the table a checksum is taken of at
  one address, but only one after the other, and the APIC tables at another.
\<close>

type_synonym table_window = "nat \<Rightarrow> UINT64 option"

abbreviation low_memory :: "UINT64 \<Rightarrow> table_window" where
  "low_memory p \<equiv> win_pa (HostPtr p)"

definition table_byte :: "table_window \<Rightarrow> pmem \<Rightarrow> nat \<Rightarrow> BYTE option" where
  "table_byte w m k = map_option m (w k)"

definition table_bytes :: "table_window \<Rightarrow> pmem \<Rightarrow> nat \<Rightarrow> nat \<Rightarrow> BYTE list option" where
  "table_bytes w m k n = those (map (\<lambda>j. table_byte w m (k + j)) [0..<n])"

definition table_dword :: "table_window \<Rightarrow> pmem \<Rightarrow> nat \<Rightarrow> DWORD option" where
  "table_dword w m k = map_option le_word (table_bytes w m k 4)"

fun sum_bytes :: "table_window \<Rightarrow> pmem \<Rightarrow> nat \<Rightarrow> nat \<Rightarrow> BYTE \<Rightarrow> BYTE option" where
  "sum_bytes w m i 0 t = Some t"
| "sum_bytes w m i (Suc n) t = do {
     b \<leftarrow> table_byte w m i;
     sum_bytes w m (Suc i) n (t + b) }"

text \<open>\<open>sz\<close> is an \<^verbatim>\<open>int\<close>: nothing is added up when it is negative.\<close>

definition checkcrc :: "pmem \<Rightarrow> UINT64 \<Rightarrow> int \<Rightarrow> bool option" where
  "checkcrc m PhysicalAddress sz =
     map_option (\<lambda>t. t = 0) (sum_bytes (phys_pa PhysicalAddress) m 0 (nat sz) 0)"

section \<open>Finding the tables\<close>

text \<open>The address of the structure found, 0 for \<^verbatim>\<open>NULL\<close>.\<close>

fun find_RSDP_inrange :: "pmem \<Rightarrow> UINT64 \<Rightarrow> nat \<Rightarrow> UINT64 option" where
  "find_RSDP_inrange m address 0 = Some 0"
| "find_RSDP_inrange m address (Suc n) = do {
     bs \<leftarrow> table_bytes (low_memory address) m 0 8;
     if le_word bs = (0x2052545020445352 :: UINT64) then do {
       ok \<leftarrow> checkcrc m address 20;
       if ok then Some address else find_RSDP_inrange m (address + 1) n }
     else find_RSDP_inrange m (address + 1) n }"

fun find_MP_inrange :: "pmem \<Rightarrow> UINT64 \<Rightarrow> nat \<Rightarrow> UINT64 option" where
  "find_MP_inrange m address 0 = Some 0"
| "find_MP_inrange m address (Suc n) = do {
     signature \<leftarrow> table_dword (low_memory address) m 0;
     if signature = 0x5f504d5f then do {
       mpc \<leftarrow> table_dword (low_memory address) m 4;
       if mpc < 0x400000 then do {
         mpc_signature \<leftarrow> table_dword (low_memory (ucast mpc)) m 0;
         if mpc_signature = 0x504d4350 then Some address else find_MP_inrange m (address + 1) n }
       else find_MP_inrange m (address + 1) n }
     else find_MP_inrange m (address + 1) n }"

section \<open>The ACPI tables\<close>

text \<open>
  The state of the count: the processors found so far and the calls of \<^verbatim>\<open>initcpus\<close>. The second
  processor starts the others.
\<close>

type_synonym processors = "nat \<times> UINT64 list"

definition count_local_apic :: "pmem \<Rightarrow> UINT64 \<Rightarrow> processors \<Rightarrow> processors option" where
  "count_local_apic m apicdt acc =
     (let (found, calls) = acc; found = found + 1
      in if found = 2 then do {
           LocalAPIC \<leftarrow> table_dword (phys_pa apicdt) m 36;
           Some (found, calls @ [ucast LocalAPIC]) }
         else Some (found, calls))"

text \<open>
  The walk over the structures of the APIC table at \<open>apicdt\<close>. It does not end at a structure
  whose length is 0.
\<close>

partial_function (option) madt_loop ::
  "pmem \<Rightarrow> UINT64 \<Rightarrow> int \<Rightarrow> nat \<Rightarrow> processors \<Rightarrow> processors option" where
  "madt_loop m apicdt APICStructure_size j acc =
     (if \<not> int j < APICStructure_size then Some acc
      else do {
        type \<leftarrow> table_byte (phys_pa apicdt) m (44 + j);
        acc' \<leftarrow> (if type = 0 then count_local_apic m apicdt acc else Some acc);
        len \<leftarrow> table_byte (phys_pa apicdt) m (44 + j + 1);
        madt_loop m apicdt APICStructure_size (j + unat len) acc' })"

fun rsdt_loop :: "pmem \<Rightarrow> UINT64 \<Rightarrow> nat \<Rightarrow> nat \<Rightarrow> processors \<Rightarrow> processors option" where
  "rsdt_loop m rsdt 0 i acc = Some acc"
| "rsdt_loop m rsdt (Suc n) i acc = do {
     entry \<leftarrow> table_dword (phys_pa rsdt) m (36 + 4 * i);
     (let apicdt = ucast entry in do {
        signature \<leftarrow> table_dword (phys_pa apicdt) m 0;
        acc' \<leftarrow> (if signature = 0x43495041 then do {
                   len \<leftarrow> table_dword (phys_pa apicdt) m 4;
                   madt_loop m apicdt (sint (len - 44)) 0 acc }
                 else Some acc);
        rsdt_loop m rsdt n (Suc i) acc' }) }"

definition acpi_processors :: "pmem \<Rightarrow> UINT64 \<Rightarrow> processors option" where
  "acpi_processors m rsd_ptr = do {
     rsdtaddress \<leftarrow> table_dword (low_memory rsd_ptr) m 16;
     (let rsdt = ucast rsdtaddress in do {
        len \<leftarrow> table_dword (phys_pa rsdt) m 4;
        ok \<leftarrow> checkcrc m rsdt (sint len);
        if ok then do {
          signature \<leftarrow> table_dword (phys_pa rsdt) m 0;
          if signature = 0x54445352
          then rsdt_loop m rsdt (nat (sint ((len - 36) div 4))) 0 (0, [])
          else Some (0, []) }
        else Some (0, []) }) }"

section \<open>The multiprocessor table\<close>

text \<open>An enabled processor counts twice when the first one has hyper-threading.\<close>

fun mp_loop :: "pmem \<Rightarrow> bool \<Rightarrow> nat \<Rightarrow> UINT64 \<Rightarrow> nat \<Rightarrow> nat option" where
  "mp_loop m hasHT 0 p found = Some found"
| "mp_loop m hasHT (Suc n) p found = do {
     type \<leftarrow> table_byte (low_memory p) m 0;
     if type = 0 then do {
       bits \<leftarrow> table_byte (low_memory p) m 3;
       mp_loop m hasHT n (p + 20) (if bit bits 0 then (if hasHT then found + 2 else found + 1) else found) }
     else mp_loop m hasHT n (p + 8) found }"

definition mp_processors :: "pmem \<Rightarrow> bool \<Rightarrow> UINT64 \<Rightarrow> processors option" where
  "mp_processors m hasHT mp = do {
     pointer \<leftarrow> table_dword (low_memory mp) m 4;
     (let mpc = ucast pointer in do {
        count \<leftarrow> table_bytes (low_memory mpc) m 34 2;
        found \<leftarrow> mp_loop m hasHT (unat (le_word count :: WORD)) (mpc + 44) 0;
        if found > 1 then do {
          AddressofLocalAPIC \<leftarrow> table_dword (low_memory mpc) m 36;
          Some (found, [ucast AddressofLocalAPIC]) }
        else Some (found, []) }) }"

section \<open>All of it\<close>

text \<open>The first of some searches that finds something.\<close>

fun first_found :: "UINT64 option list \<Rightarrow> UINT64 option" where
  "first_found [] = Some 0"
| "first_found (x # xs) = do { a \<leftarrow> x; if a = 0 then first_found xs else Some a }"

definition has_HT :: "hostcpu \<Rightarrow> bool" where
  "has_HT h =
     (let (a, b, c, d) = cpuid_leaf h 0 0; (a1, b1, c1, d1) = cpuid_leaf h 1 0
      in if b = 0x68747541 \<and> d = 0x69746e65 \<and> c = 0x444d4163 then False else bit d1 28)"

definition initAPcpus :: "machine \<Rightarrow> processors option" where
  "initAPcpus s =
     (let m = mem s in do {
        seg \<leftarrow> table_bytes (low_memory 0) m 0x40e 2;
        (let EDBAlocation = push_bit 4 (ucast (le_word seg :: WORD)) in do {
           rsd_ptr \<leftarrow> first_found [find_RSDP_inrange m EDBAlocation 1024,
             find_RSDP_inrange m 0x9fc00 1024, find_RSDP_inrange m 0xf0000 65536];
           (found, calls) \<leftarrow> (if rsd_ptr \<noteq> 0 then acpi_processors m rsd_ptr else Some (0, []));
           if found > 0 then Some (found, calls)
           else do {
             mp \<leftarrow> first_found [find_MP_inrange m EDBAlocation 1024, find_MP_inrange m 0x9fc00 1024,
               find_MP_inrange m 0xf0000 65536, find_MP_inrange m 0 (1024 * 1024)];
             (found, calls) \<leftarrow> (if mp \<noteq> 0 then mp_processors m (has_HT (host s)) mp else Some (0, calls));
             Some (if found \<noteq> 0 then found else 1, calls) } }) })"

section \<open>The others are started once\<close>

text \<open>\<open>launched acc\<close>: there has been one call if two processors have been found, none before.\<close>

definition launched :: "processors \<Rightarrow> bool" where
  "launched acc \<longleftrightarrow> length (snd acc) = (if fst acc \<ge> 2 then 1 else 0)"

lemma count_launched: "count_local_apic m a acc = Some acc' \<Longrightarrow> launched acc \<Longrightarrow> launched acc'"
  by (cases acc) (auto simp: count_local_apic_def launched_def Let_def bind_Some_iff split: if_splits)

lemma madt_launched:
  assumes "madt_loop m a sz j acc = Some acc'" "launched acc"
  shows "launched acc'"
proof -
  have "launched acc \<longrightarrow> launched acc'"
    by (rule madt_loop.raw_induct [OF _ assms(1), where P = "\<lambda>m a sz j acc acc'. launched acc \<longrightarrow> launched acc'"])
      (auto simp: bind_Some_iff split: if_splits dest: count_launched)
  with assms(2) show ?thesis by blast
qed

lemma rsdt_launched: "rsdt_loop m r n i acc = Some acc' \<Longrightarrow> launched acc \<Longrightarrow> launched acc'"
proof (induction n arbitrary: i acc)
  case (Suc n)
  then show ?case by (simp add: bind_Some_iff Let_def split: if_splits) (metis madt_launched)+
qed simp

lemma acpi_launched: "acpi_processors m r = Some acc \<Longrightarrow> launched acc"
  by (auto simp: acpi_processors_def bind_Some_iff Let_def launched_def split: if_splits
      dest!: rsdt_launched)

lemma mp_launched: "mp_processors m ht p = Some acc \<Longrightarrow> launched acc"
  by (auto simp: mp_processors_def bind_Some_iff Let_def launched_def split: if_splits)

text \<open>
  C34: the other processors are started once. Whatever the firmware's tables hold, when the count
  returns it is at least 1, the other processors have been started with exactly one call when
  it is more than 1, and with none when this processor is the only one.
\<close>

theorem processors_started_once:
  assumes "initAPcpus s = Some (n, calls)"
  shows "1 \<le> n \<and> length calls = (if n > 1 then 1 else 0)"
proof -
  have first: "launched acc" if "(if r \<noteq> 0 then acpi_processors m r else Some (0, [])) = Some acc" for r m acc
    using that by (auto simp: launched_def split: if_splits dest!: acpi_launched)
  have second: "launched acc" if "(if p \<noteq> 0 then mp_processors m ht p else Some (0, l)) = Some acc"
    "launched (0, l)" for p m ht l acc
    using that by (auto split: if_splits dest: mp_launched)
  obtain found calls' where acc: "launched (found, calls')"
    and "(n, calls) = (found, calls') \<and> found > 0 \<or>
      found = 0 \<and> (\<exists>k. launched (k, calls) \<and> n = (if k \<noteq> 0 then k else 1))"
    using assms unfolding initAPcpus_def Let_def split_beta
    by (elim SomeE) (metis (no_types, lifting) first second gr0I prod.collapse)+
  then show ?thesis by (auto simp: launched_def split: if_splits)
qed

section \<open>What is counted\<close>

text \<open>The structures of an APIC table, each a type and its contents behind type and length.\<close>

type_synonym apic_structure = "BYTE \<times> BYTE list"

definition structure_bytes :: "apic_structure \<Rightarrow> BYTE list" where
  "structure_bytes x = fst x # of_nat (length (snd x) + 2) # snd x"

definition madt_bytes :: "apic_structure list \<Rightarrow> BYTE list" where
  "madt_bytes xs = concat (map structure_bytes xs)"

definition local_apics :: "apic_structure list \<Rightarrow> nat" where
  "local_apics xs = length (filter (\<lambda>x. fst x = 0) xs)"

definition table_holds :: "table_window \<Rightarrow> pmem \<Rightarrow> nat \<Rightarrow> BYTE list \<Rightarrow> bool" where
  "table_holds w m k bs \<longleftrightarrow> (\<forall>i < length bs. table_byte w m (k + i) = Some (bs ! i))"

lemma table_holds_Cons:
  "table_holds w m k (b # bs) \<longleftrightarrow> table_byte w m k = Some b \<and> table_holds w m (Suc k) bs"
  by (simp add: table_holds_def All_less_Suc2)

lemma table_holds_append:
  "table_holds w m k (as @ bs) \<longleftrightarrow> table_holds w m k as \<and> table_holds w m (k + length as) bs"
  by (induction as arbitrary: k) (auto simp: table_holds_Cons, simp add: table_holds_def)

lemma count_total:
  assumes "table_dword (phys_pa a) m 36 = Some l"
  shows "\<exists>calls'. count_local_apic m a (found, calls) = Some (found + 1, calls')"
  using assms by (simp add: count_local_apic_def Let_def)

lemma madt_counts:
  assumes "table_holds (phys_pa a) m (44 + j) (madt_bytes xs)" "table_dword (phys_pa a) m 36 = Some l"
    and "\<forall>x\<in>set xs. length (snd x) < 254" "sz = int (j + length (madt_bytes xs))"
  shows "\<exists>calls'. madt_loop m a sz j (found, calls) = Some (found + local_apics xs, calls')"
  using assms
proof (induction xs arbitrary: j found calls)
  case Nil
  then show ?case by (subst madt_loop.simps) (simp add: madt_bytes_def local_apics_def)
next
  case (Cons x xs)
  obtain t p where x: "x = (t, p)" by (cases x)
  let ?n = "length p + 2"
  have n: "unat (of_nat ?n :: BYTE) = ?n"
    using Cons.prems(3) x by (simp only: unat_of_nat) simp
  have bytes: "table_byte (phys_pa a) m (44 + j) = Some t"
      "table_byte (phys_pa a) m (44 + j + 1) = Some (of_nat ?n)"
      "table_holds (phys_pa a) m (44 + (j + ?n)) (madt_bytes xs)"
    using Cons.prems(1) x
    by (simp_all add: madt_bytes_def structure_bytes_def table_holds_Cons table_holds_append ac_simps)
  obtain calls1 where step: "(if t = 0 then count_local_apic m a (found, calls) else Some (found, calls))
      = Some (found + (if t = 0 then 1 else 0), calls1)"
    using count_total [OF Cons.prems(2)] by (cases "t = 0") auto
  have sz: "sz = int (j + ?n + length (madt_bytes xs))" "int j < sz"
    using Cons.prems(4) x by (simp_all add: madt_bytes_def structure_bytes_def)
  have "madt_loop m a sz j (found, calls)
      = madt_loop m a sz (j + ?n) (found + (if t = 0 then 1 else 0), calls1)"
    using bytes step sz(2) n by (subst madt_loop.simps) simp
  moreover have "\<exists>calls'. madt_loop m a sz (j + ?n) (found + (if t = 0 then 1 else 0), calls1)
      = Some (found + (if t = 0 then 1 else 0) + local_apics xs, calls')"
    using Cons.prems(2,3) bytes(3) sz(1) by (intro Cons.IH) simp_all
  ultimately show ?case using x by (auto simp: local_apics_def)
qed

text \<open>
  The tables the root table lists: \<open>Some xs\<close> for an APIC table with the structures \<open>xs\<close>,
  \<open>None\<close> for any other.
\<close>

definition acpi_table :: "pmem \<Rightarrow> DWORD \<times> apic_structure list option \<Rightarrow> bool" where
  "acpi_table m et \<longleftrightarrow> (let a = ucast (fst et) in
     case snd et of None \<Rightarrow> \<exists>signature. table_dword (phys_pa a) m 0 = Some signature \<and> signature \<noteq> 0x43495041
     | Some xs \<Rightarrow> table_dword (phys_pa a) m 0 = Some 0x43495041
         \<and> table_dword (phys_pa a) m 4 = Some (of_nat (44 + length (madt_bytes xs)))
         \<and> table_dword (phys_pa a) m 36 \<noteq> None \<and> length (madt_bytes xs) < 0x80000000
         \<and> table_holds (phys_pa a) m 44 (madt_bytes xs) \<and> (\<forall>x\<in>set xs. length (snd x) < 254))"

definition table_processors :: "DWORD \<times> apic_structure list option \<Rightarrow> nat" where
  "table_processors et = (case snd et of None \<Rightarrow> 0 | Some xs \<Rightarrow> local_apics xs)"

definition root_table :: "pmem \<Rightarrow> UINT64 \<Rightarrow> (DWORD \<times> apic_structure list option) list \<Rightarrow> bool" where
  "root_table m rsdt ts \<longleftrightarrow> table_dword (phys_pa rsdt) m 0 = Some 0x54445352
     \<and> table_dword (phys_pa rsdt) m 4 = Some (of_nat (36 + 4 * length ts)) \<and> length ts < 0x10000000
     \<and> checkcrc m rsdt (int (36 + 4 * length ts)) = Some True
     \<and> (\<forall>i < length ts. table_dword (phys_pa rsdt) m (36 + 4 * i) = Some (fst (ts ! i)))
     \<and> (\<forall>t\<in>set ts. acpi_table m t)"

lemma sint_of_nat_small: "n < 0x80000000 \<Longrightarrow> sint (of_nat n :: DWORD) = int n"
  by (simp add: signed_of_nat signed_take_bit_int_eq_self)

lemma rsdt_counts:
  assumes "\<forall>k < length ts. table_dword (phys_pa rsdt) m (36 + 4 * (i + k)) = Some (fst (ts ! k))"
    and "\<forall>t\<in>set ts. acpi_table m t"
  shows "\<exists>calls'. rsdt_loop m rsdt (length ts) i (found, calls)
    = Some (found + sum_list (map table_processors ts), calls')"
  using assms
proof (induction ts arbitrary: i found calls)
  case (Cons t ts)
  obtain e xs where t: "t = (e, xs)" by (cases t)
  have entry: "table_dword (phys_pa rsdt) m (36 + 4 * i) = Some e"
      "\<forall>k < length ts. table_dword (phys_pa rsdt) m (36 + 4 * (Suc i + k)) = Some (fst (ts ! k))"
    using Cons.prems(1) t by (simp_all add: All_less_Suc2)
  have table: "acpi_table m (e, xs)" using Cons.prems(2) t by simp
  note IH = Cons.IH [OF entry(2)]
  show ?case
  proof (cases xs)
    case None
    then show ?thesis using entry(1) table t IH Cons.prems(2)
      by (auto simp: acpi_table_def table_processors_def Let_def)
  next
    case (Some ys)
    have "sint (of_nat (44 + length (madt_bytes ys)) - 44 :: DWORD) = int (length (madt_bytes ys))"
      using table Some sint_of_nat_small [of "length (madt_bytes ys)"] by (simp add: acpi_table_def Let_def)
    moreover obtain calls1 where "madt_loop m (ucast e) (int (length (madt_bytes ys))) 0 (found, calls)
        = Some (found + local_apics ys, calls1)"
      using table Some madt_counts [of "ucast e" m 0 ys _ "int (length (madt_bytes ys))" found calls]
      by (auto simp: acpi_table_def Let_def)
    ultimately show ?thesis using entry(1) table t IH [of "found + local_apics ys" calls1] Cons.prems(2) Some
      by (auto simp: acpi_table_def table_processors_def Let_def add.assoc)
  qed
qed simp

text \<open>
  C33: what the processors are counted by. When the pointer structure leads to a root table with
  a valid checksum, and every table it lists is either not an APIC table or one whose structures
  are laid out as ACPI says, the count returns and is the number of local APIC structures in all
  the APIC tables together, whatever other structures stand between them.
\<close>

theorem acpi_processors_counted:
  assumes "table_dword (low_memory r) m 16 = Some rsdt" "root_table m (ucast rsdt) ts"
  shows "\<exists>calls. acpi_processors m r = Some (sum_list (map table_processors ts), calls)"
proof -
  let ?len = "of_nat (36 + 4 * length ts) :: DWORD"
  have n: "length ts < 0x10000000" using assms(2) by (simp add: root_table_def)
  then have "sint ?len = int (36 + 4 * length ts)" by (intro sint_of_nat_small) simp
  moreover have "nat (sint ((?len - 36) div 4)) = length ts"
  proof -
    have "?len - 36 = of_nat (4 * length ts)" by simp
    moreover have "(of_nat (4 * length ts) :: DWORD) div 4 = of_nat (length ts)"
      using n by (simp only: word_arith_nat_div unat_of_nat) (simp add: take_bit_nat_eq_self)
    ultimately show ?thesis using n by (simp add: sint_of_nat_small del: of_nat_mult)
  qed
  ultimately show ?thesis
    using assms rsdt_counts [of ts "ucast rsdt" m 0 0 "[]"]
    by (simp add: acpi_processors_def root_table_def Let_def)
qed

section \<open>Tables in memory\<close>

text \<open>
  The tables of a machine with two processors: the segment of the extended BIOS data area, the
  pointer structure there, the root table, and an APIC table with an IO APIC between the two
  local ones.
\<close>

definition placed :: "UINT64 \<Rightarrow> BYTE list \<Rightarrow> pmem \<Rightarrow> pmem" where
  "placed a bs m x = (if unat (x - a) < length bs then bs ! unat (x - a) else m x)"

definition two_processors :: "apic_structure list" where
  "two_processors = [(0, [0, 0, 1, 0, 0, 0]), (1, [2, 0, 0, 0, 0xc0, 0xfe, 0, 0, 0, 0]), (0, [1, 1, 1, 0, 0, 0])]"

definition firmware :: pmem where
  "firmware =
     placed 0x40e [0x00, 0x80]
    (placed 0x80000 [0x52, 0x53, 0x44, 0x20, 0x50, 0x54, 0x52, 0x20, 0xd8, 0, 0, 0, 0, 0, 0, 0, 0, 0, 9, 0]
    (placed 0x90000 ([0x52, 0x53, 0x44, 0x54, 40, 0, 0, 0, 0, 0x82] @ replicate 26 0 @ [0, 0x10, 9, 0])
    (placed 0x91000 ([0x41, 0x50, 0x49, 0x43, 72, 0, 0, 0] @ replicate 28 0 @ [0, 0, 0xe0, 0xfe, 1, 0, 0, 0]
       @ madt_bytes two_processors) (\<lambda>_. 0))))"

lemma sum_bytes_numeral: "sum_bytes w m i (numeral k) t = do {
     b \<leftarrow> table_byte w m i;
     sum_bytes w m (Suc i) (pred_numeral k) (t + b) }"
  by (simp add: numeral_eq_Suc)

lemma firmware_zeros:
  "replicate 26 (0 :: BYTE) = [0,0,0,0,0,0,0,0,0,0,0,0,0,0,0,0,0,0,0,0,0,0,0,0,0,0]"
  "replicate 28 (0 :: BYTE) = [0,0,0,0,0,0,0,0,0,0,0,0,0,0,0,0,0,0,0,0,0,0,0,0,0,0,0,0]"
  by (simp_all add: numeral_eq_Suc)

lemmas firmware_simps = table_dword_def table_bytes_def table_byte_def firmware_def placed_def firmware_zeros
  phys_pa_def two_processors_def madt_bytes_def structure_bytes_def

lemma firmware_dwords:
  "table_dword (low_memory 0x80000) firmware 16 = Some 0x90000"
  "table_dword (phys_pa 0x90000) firmware 0 = Some 0x54445352"
  "table_dword (phys_pa 0x90000) firmware 4 = Some 40" "table_dword (phys_pa 0x90000) firmware 36 = Some 0x91000"
  "table_dword (phys_pa 0x91000) firmware 0 = Some 0x43495041"
  "table_dword (phys_pa 0x91000) firmware 4 = Some 72" "table_dword (phys_pa 0x91000) firmware 36 = Some 0xfee00000"
  by (simp_all add: firmware_simps)

lemma firmware_crc: "checkcrc firmware 0x90000 40 = Some True" "checkcrc firmware 0x80000 20 = Some True"
  by (simp_all add: checkcrc_def sum_bytes_numeral firmware_simps)

lemma firmware_madt: "table_holds (phys_pa 0x91000) firmware 44 (madt_bytes two_processors)"
proof -
  have [simp]: "table_holds w m k []" for w m k by (simp add: table_holds_def)
  have "madt_bytes two_processors = [0, 8, 0, 0, 1, 0, 0, 0, 1, 12, 2, 0, 0, 0, 0xc0, 0xfe, 0, 0, 0, 0,
      0, 8, 1, 1, 1, 0, 0, 0]"
    by (simp add: madt_bytes_def structure_bytes_def two_processors_def)
  then show ?thesis
    by (simp only:) (simp add: table_holds_Cons firmware_simps)
qed

theorem acpi_processors_counted_witness: "\<exists>calls. acpi_processors firmware 0x80000 = Some (2, calls)"
proof -
  have "acpi_table firmware (0x91000, Some two_processors)"
    using firmware_dwords firmware_madt
    by (simp add: acpi_table_def) (simp add: two_processors_def madt_bytes_def structure_bytes_def)
  then have "root_table firmware 0x90000 [(0x91000, Some two_processors)]"
    using firmware_dwords firmware_crc(1) by (simp add: root_table_def)
  with acpi_processors_counted [of "0x80000" firmware "0x90000"] firmware_dwords(1) show ?thesis
    by (force simp: table_processors_def local_apics_def two_processors_def)
qed

lemma firmware_found:
  "table_bytes (low_memory 0) firmware 0x40e 2 = Some [0, 0x80]"
  "find_RSDP_inrange firmware 0x80000 (Suc n) = Some 0x80000"
proof -
  have "[0..<2] = [0, 1 :: nat]" by (simp add: upt_rec)
  then show "table_bytes (low_memory 0) firmware 0x40e 2 = Some [0, 0x80]"
    by (simp add: firmware_simps)
  have "table_bytes (low_memory 0x80000) firmware 0 8 = Some [0x52, 0x53, 0x44, 0x20, 0x50, 0x54, 0x52, 0x20]"
    by (simp add: firmware_simps)
  then show "find_RSDP_inrange firmware 0x80000 (Suc n) = Some 0x80000"
    using firmware_crc(2) by simp
qed

lemma firmware_acpi: "acpi_processors firmware 0x80000 = Some (2, [0xfee00000])"
proof -
  have b: "table_byte (phys_pa 0x91000) firmware 44 = Some 0" "table_byte (phys_pa 0x91000) firmware 45 = Some 8"
      "table_byte (phys_pa 0x91000) firmware 52 = Some 1" "table_byte (phys_pa 0x91000) firmware 53 = Some 12"
      "table_byte (phys_pa 0x91000) firmware 64 = Some 0" "table_byte (phys_pa 0x91000) firmware 65 = Some 8"
    by (simp_all add: firmware_simps)
  have "madt_loop firmware 0x91000 28 0 (0, []) = Some (2, [0xfee00000])"
    by (simp add: madt_loop.simps [of _ _ _ 0] madt_loop.simps [of _ _ _ 8] madt_loop.simps [of _ _ _ 20]
        madt_loop.simps [of _ _ _ 28] b count_local_apic_def firmware_dwords)
  then show ?thesis
    by (simp add: acpi_processors_def firmware_dwords firmware_crc numeral_eq_Suc [of num.One])
qed

theorem processors_started_once_witness:
  "initAPcpus (sample\<lparr>mem := firmware\<rparr>) = Some (2, [0xfee00000]) \<and> 1 \<le> (2 :: nat) \<and> length [0xfee00000 :: UINT64] = 1"
proof -
  have "initAPcpus (sample\<lparr>mem := firmware\<rparr>) = Some (2, [0xfee00000])"
    using firmware_found(1) firmware_found(2) [of 1023] by (simp add: initAPcpus_def Let_def firmware_acpi)
  from this processors_started_once [OF this] show ?thesis by simp
qed

section \<open>The search and its checksum\<close>

text \<open>What the search is for: the eight bytes RSD PTR and twenty bytes that add up to 0.\<close>

definition rsdp_at :: "pmem \<Rightarrow> UINT64 \<Rightarrow> bool" where
  "rsdp_at m a \<longleftrightarrow> map (\<lambda>k. m (a + of_nat k)) [0..<8] = [0x52, 0x53, 0x44, 0x20, 0x50, 0x54, 0x52, 0x20]
     \<and> sum_list (map (\<lambda>k. m (a + of_nat k)) [0..<20]) = 0"

lemma sum_bytes_all:
  "(\<And>k. k < n \<Longrightarrow> table_byte w m (i + k) = Some (f (i + k)))
     \<Longrightarrow> sum_bytes w m i n t = Some (t + sum_list (map f [i..<i + n]))"
proof (induction n arbitrary: i t)
  case (Suc n)
  have "table_byte w m i = Some (f i)" using Suc.prems [of 0] by simp
  moreover have "sum_bytes w m (Suc i) n (t + f i) = Some (t + f i + sum_list (map f [Suc i..<Suc i + n]))"
    using Suc.prems [of "Suc k" for k] by (intro Suc.IH) simp
  ultimately show ?case by (simp add: upt_conv_Cons add.assoc del: upt_Suc)
qed simp

lemma table_bytes_all:
  "(\<And>j. j < n \<Longrightarrow> table_byte w m (k + j) = Some (f j)) \<Longrightarrow> table_bytes w m k n = Some (map f [0..<n])"
proof -
  assume "\<And>j. j < n \<Longrightarrow> table_byte w m (k + j) = Some (f j)"
  then have "map (\<lambda>j. table_byte w m (k + j)) [0..<n] = map Some (map f [0..<n])" by simp
  moreover have "those (map Some xs) = Some xs" for xs :: "BYTE list" by (induction xs) simp_all
  ultimately show ?thesis by (simp only: table_bytes_def)
qed

lemma le_word_signature:
  assumes "length bs = 8"
  shows "le_word bs = (0x2052545020445352 :: UINT64) \<longleftrightarrow> bs = [0x52, 0x53, 0x44, 0x20, 0x50, 0x54, 0x52, 0x20]"
proof
  assume "le_word bs = (0x2052545020445352 :: UINT64)"
  moreover have "bs = le_bytes 8 (le_word bs :: UINT64)"
    using assms by (intro nth_equalityI bit_word_eqI) (auto simp: nth_le_bytes bit_le_word bit_simps)
  ultimately have "bs = le_bytes 8 (0x2052545020445352 :: UINT64)" by simp
  then show "bs = [0x52, 0x53, 0x44, 0x20, 0x50, 0x54, 0x52, 0x20]" by (simp add: le_bytes_def upt_rec_numeral drop_bit_eq_div)
qed simp

text \<open>
  C35: the search for the ACPI pointer structure. In low memory it returns and finds the first
  address of the range at which the signature stands and the twenty bytes of the structure add
  up to 0, and \<^verbatim>\<open>NULL\<close> when there is none; a signature with a wrong checksum is passed over.
\<close>

theorem find_RSDP_first:
  assumes "unat a + n + 20 \<le> 0x400000"
  shows "find_RSDP_inrange m a n
    = Some (case find (rsdp_at m) (map (\<lambda>i. a + of_nat i) [0..<n]) of None \<Rightarrow> 0 | Some r \<Rightarrow> r)"
  using assms
proof (induction n arbitrary: a)
  case (Suc n)
  have low: "table_byte (low_memory a) m k = Some (m (a + of_nat k))"
    "table_byte (phys_pa a) m k = Some (m (a + of_nat k))" if "k < 20" for k
    using that Suc.prems by (simp_all add: table_byte_def phys_pa_def) 
  obtain B ok where "table_bytes (low_memory a) m 0 8 = Some B" "checkcrc m a 20 = Some ok"
    "rsdp_at m a \<longleftrightarrow> le_word B = (0x2052545020445352 :: UINT64) \<and> ok"
  proof
    show "table_bytes (low_memory a) m 0 8 = Some (map (\<lambda>k. m (a + of_nat k)) [0..<8])"
      using low(1) by (intro table_bytes_all) simp
    show "checkcrc m a 20 = Some (sum_list (map (\<lambda>k. m (a + of_nat k)) [0..<20]) = 0)"
      using sum_bytes_all [of 20 "phys_pa a" m 0 "\<lambda>k. m (a + of_nat k)" 0] low(2)
      by (simp add: checkcrc_def del: upt_rec_numeral)
    show "rsdp_at m a \<longleftrightarrow> le_word (map (\<lambda>k. m (a + of_nat k)) [0..<8]) = (0x2052545020445352 :: UINT64)
        \<and> sum_list (map (\<lambda>k. m (a + of_nat k)) [0..<20]) = 0"
      unfolding rsdp_at_def by (subst le_word_signature) simp_all
  qed
  moreover have "unat (a + 1) = unat a + 1" using Suc.prems by (simp add: unat_word_ariths)
  then have "find_RSDP_inrange m (a + 1) n = Some (case find (rsdp_at m) (map (\<lambda>i. a + 1 + of_nat i) [0..<n]) of
      None \<Rightarrow> 0 | Some r \<Rightarrow> r)" using Suc.prems by (intro Suc.IH) simp
  moreover have "map (\<lambda>i. a + of_nat i) [0..<Suc n] = a # map (\<lambda>i. a + 1 + of_nat i) [0..<n]"
    by (simp add: upt_conv_Cons map_Suc_upt [symmetric] o_def ac_simps del: upt_Suc map_Suc_upt)
  ultimately show ?case
    by (simp del: upt_Suc)
qed simp

theorem find_RSDP_first_witness:
  "find_RSDP_inrange firmware 0x80000 1 = Some 0x80000 \<and> rsdp_at firmware 0x80000"
  using find_RSDP_first [of "0x80000" 1 firmware] firmware_found(2) [of 0]
  by (simp split: if_splits)

text \<open>A structure of length 0 keeps the walk over the APIC table where it is.\<close>

lemma madt_zero_length:
  assumes "int j < sz" "table_byte (phys_pa a) m (44 + j + 1) = Some 0"
  shows "madt_loop m a sz j acc = None"
proof (rule ccontr)
  assume "madt_loop m a sz j acc \<noteq> None"
  then obtain y where y: "madt_loop m a sz j acc = Some y" by blast
  have "\<not> (int j < sz \<and> table_byte (phys_pa a) m (44 + j + 1) = Some 0)"
    by (rule madt_loop.raw_induct [OF _ y, where
          P = "\<lambda>m a sz j acc y. \<not> (int j < sz \<and> table_byte (phys_pa a) m (44 + j + 1) = Some 0)"])
      (auto simp: bind_Some_iff split: if_splits)
  with assms show False by blast
qed

end
