(* ===== verification/Common_Strings.thy ===== *)
theory Common_Strings
  imports Prelude
begin

text \<open>
  The string functions of the hypervisor, \<^verbatim>\<open>dbvm/vmm/common.c\<close>: \<^verbatim>\<open>strlen\<close>,
  \<^verbatim>\<open>strcat\<close>, \<^verbatim>\<open>strcpy\<close>, \<^verbatim>\<open>appendzero\<close>, \<^verbatim>\<open>power\<close>, \<^verbatim>\<open>atoi\<close>,
  \<^verbatim>\<open>itoa\<close>, \<^verbatim>\<open>generateCRC\<close> and the formatter \<^verbatim>\<open>vbuildstring\<close>.

  A buffer is a list of bytes; an access outside it is \<open>None\<close>. A string that is only read is
  given by its bytes before the terminating 0.
\<close>

unbundle bit_operations_syntax

type_synonym buf = "BYTE list"

section \<open>Buffers\<close>

definition put_byte :: "int \<Rightarrow> BYTE \<Rightarrow> buf \<Rightarrow> buf option" where
  "put_byte k b d = (if 0 \<le> k \<and> k < int (length d) then Some (d[nat k := b]) else None)"

definition get_byte :: "int \<Rightarrow> buf \<Rightarrow> BYTE option" where
  "get_byte k d = (if 0 \<le> k \<and> k < int (length d) then Some (d ! nat k) else None)"

text \<open>\<^verbatim>\<open>copymem(&dest[k],src,n)\<close> between two buffers, byte by byte; nothing for \<open>n \<le> 0\<close>.\<close>

fun copy_bytes :: "nat \<Rightarrow> int \<Rightarrow> int \<Rightarrow> buf \<Rightarrow> buf \<Rightarrow> buf option" where
  "copy_bytes 0 k i src d = Some d"
| "copy_bytes (Suc n) k i src d = do {
     b \<leftarrow> get_byte i src;
     d1 \<leftarrow> put_byte (k + i) b d;
     copy_bytes n k (i + 1) src d1 }"

definition copy_to :: "int \<Rightarrow> buf \<Rightarrow> int \<Rightarrow> buf \<Rightarrow> buf option" where
  "copy_to k src n d = copy_bytes (nat n) k 0 src d"

definition c_memset :: "buf \<Rightarrow> BYTE \<Rightarrow> int \<Rightarrow> buf option" where
  "c_memset d c n =
     (if n \<le> int (length d) then Some (replicate (nat n) c @ drop (nat n) d) else None)"

definition zeromemory :: "buf \<Rightarrow> DWORD \<Rightarrow> buf option" where
  "zeromemory d n = c_memset d 0 (int (unat n))"

fun strlen :: "buf \<Rightarrow> nat option" where
  "strlen [] = None"
| "strlen (b # bs) = (if b = 0 then Some 0 else map_option Suc (strlen bs))"

definition strcat :: "buf \<Rightarrow> buf \<Rightarrow> buf option" where
  "strcat dest src = do {
     j \<leftarrow> strlen dest;
     n \<leftarrow> strlen src;
     d1 \<leftarrow> copy_to (int j) src (int n) dest;
     put_byte (int (j + n)) 0 d1 }"

definition strcpy :: "buf \<Rightarrow> buf \<Rightarrow> buf option" where
  "strcpy dest src = do {
     i \<leftarrow> strlen src;
     d1 \<leftarrow> copy_to 0 src (int i) dest;
     put_byte (int i) 0 d1 }"

text \<open>
  The local array \<^verbatim>\<open>newstring\<close> has \<^verbatim>\<open>wantedsize+1\<close> bytes; the bytes it starts with
  are the parameter \<open>junk\<close>.
\<close>

definition appendzero :: "buf \<Rightarrow> buf \<Rightarrow> int \<Rightarrow> int \<Rightarrow> buf option" where
  "appendzero junk string wantedsize maxstringsize = do {
     l \<leftarrow> strlen string;
     (let zerostoadd = wantedsize - int l;
          newstring = take (nat (wantedsize + 1)) (junk @ replicate (nat (wantedsize + 1)) 0) in
      if zerostoadd + int l \<ge> maxstringsize then Some string
      else do {
        n1 \<leftarrow> c_memset newstring 0x30 zerostoadd;
        n2 \<leftarrow> put_byte zerostoadd 0 n1;
        n3 \<leftarrow> put_byte wantedsize 0 n2;
        n4 \<leftarrow> strcat n3 string;
        s1 \<leftarrow> strcpy string n4;
        put_byte (maxstringsize - 1) 0 s1 }) }"

fun generateCRC :: "BYTE list \<Rightarrow> DWORD \<Rightarrow> DWORD" where
  "generateCRC [] cval = cval"
| "generateCRC (b # bs) cval = generateCRC bs (ucast b + cval)"

section \<open>Numbers\<close>

fun power_loop :: "UINT64 \<Rightarrow> nat \<Rightarrow> UINT64 \<Rightarrow> UINT64" where
  "power_loop x 0 result = result"
| "power_loop x (Suc n) result = power_loop x n (result * x)"

definition power :: "DWORD \<Rightarrow> DWORD \<Rightarrow> UINT64" where
  "power x y = power_loop (ucast x) (unat y) 1"

text \<open>
  The prefix loop of \<^verbatim>\<open>atoi\<close>: the sign, the base and the rest of the string with the number
  of characters passed.
\<close>

fun atoi_prefix :: "buf \<Rightarrow> bool \<Rightarrow> int \<Rightarrow> nat \<Rightarrow> bool \<times> int \<times> nat \<times> buf" where
  "atoi_prefix [] negative base start = (negative, base, start, [])"
| "atoi_prefix (b # bs) negative base start =
     (if b = 0x2d then atoi_prefix bs (\<not> negative) base (start + 1)
      else if b = 0x24 then atoi_prefix bs negative 16 (start + 1)
      else if b = 0x30 \<and> bs \<noteq> [] \<and> hd bs = 0x78 then
        atoi_prefix (tl bs) negative 16 (start + 2)
      else (negative, base, start, b # bs))"

definition digit_value :: "BYTE \<Rightarrow> nat option" where
  "digit_value b =
     (if 0x30 \<le> b \<and> b \<le> 0x39 then Some (unat b - 0x30)
      else if 0x61 \<le> b \<and> b \<le> 0x7a then Some (10 + unat b - 0x61)
      else if 0x41 \<le> b \<and> b \<le> 0x5a then Some (10 + unat b - 0x41)
      else None)"

text \<open>The loop over the digits from the last to the first; \<open>i\<close> is the index of the digit.\<close>

fun atoi_loop :: "int \<Rightarrow> bool \<Rightarrow> buf \<Rightarrow> int \<Rightarrow> DWORD \<Rightarrow> UINT64 \<Rightarrow> UINT64 \<times> int" where
  "atoi_loop base negative [] i j result = (result, 0)"
| "atoi_loop base negative (b # bs) i j result =
     (case digit_value b of
        None \<Rightarrow> (result, i)
      | Some c \<Rightarrow>
          if int c \<ge> base then (result, i)
          else
            (let r = result + of_nat c * power (of_int base) j;
                 r = (if negative then scast (ucast (- r) :: DWORD) else r)
             in atoi_loop base negative bs (i - 1) (j + 1) r))"

definition atoi :: "buf \<Rightarrow> int \<Rightarrow> UINT64 \<times> int" where
  "atoi input base =
     (if base < 2 \<or> base > 36 then (0, -1)
      else
        (let (negative, base, start, rest) = atoi_prefix input False base 0
         in atoi_loop base negative (rev rest) (int (length input) - 1) 0 0))"

definition digit_char :: "nat \<Rightarrow> BYTE" where
  "digit_char t = (if t \<le> 9 then 0x30 + of_nat t else 0x61 + of_nat t - 10)"

text \<open>\<^verbatim>\<open>tempbuf\<close>, of \<open>n\<close> bytes: the digits in reverse.\<close>

fun itoa_digits :: "nat \<Rightarrow> DWORD \<Rightarrow> DWORD \<Rightarrow> buf" where
  "itoa_digits 0 base value = []"
| "itoa_digits (Suc n) base value =
     (if value = 0 then []
      else digit_char (unat (value mod base)) # itoa_digits n base (value div base))"

definition itoa :: "DWORD \<Rightarrow> int \<Rightarrow> buf \<Rightarrow> nat \<Rightarrow> (int \<times> buf) option" where
  "itoa value base output maxsize =
     (if base < 2 \<or> base > 36 then Some (-1, output)
      else if value = 0 \<and> maxsize > 1 then do {
        o1 \<leftarrow> put_byte 0 0x30 output;
        o2 \<leftarrow> put_byte 1 0 o1;
        Some (2, o2) }
      else
        (let tempbuf = itoa_digits maxsize (of_int base) value; i = length tempbuf in do {
          o1 \<leftarrow> copy_to 0 (rev tempbuf) (int i) output;
          o2 \<leftarrow> put_byte (if i < maxsize then int i else int maxsize - 1) 0 o1;
          Some (int i, o2) }))"

section \<open>The formatter\<close>

datatype va_arg = ArgInt DWORD | ArgPtr buf | ArgLong UINT64

text \<open>
  The first pass: \<^verbatim>\<open>workstring\<close> with each \<^verbatim>\<open>%\<close> and the character after it zeroed,
  and the kinds in \<^verbatim>\<open>varlist\<close>, of 64 entries.
\<close>

definition spec_kind :: "BYTE \<Rightarrow> BYTE" where
  "spec_kind b =
     (if b = 0x64 then 0 else if b = 0x78 then 1 else if b = 0x38 then 3 else if b = 0x70 then 3
      else if b = 0x36 then 4 else if b = 0x32 then 6 else if b = 0x73 then 2
      else if b = 0x63 then 5 else 255)"

function vb_parse :: "nat \<Rightarrow> nat \<Rightarrow> buf \<Rightarrow> buf \<Rightarrow> (buf \<times> buf) option" where
  "vb_parse i vlc workstring varlist =
     (if i \<ge> length workstring then Some (workstring, varlist)
      else if workstring ! i = 0x25 then do {
        b \<leftarrow> get_byte (int i + 1) workstring;
        v1 \<leftarrow> (if spec_kind b = 255 then Some varlist
               else put_byte (int vlc) (spec_kind b) varlist);
        vb_parse (i + 1) (vlc + 1) (workstring[i := 0, i + 1 := 0]) v1 }
      else vb_parse (i + 1) vlc workstring varlist)"
  by pat_completeness auto
termination
  by (relation "measure (\<lambda>(i, vlc, w, v). length w - i)") auto

declare vb_parse.simps [simp del]

text \<open>\<^verbatim>\<open>if (strpos+_i>=size) _i=size-(strpos+_i-size)\<close>, and the copy that follows.\<close>

definition vb_emit :: "bool \<Rightarrow> int \<Rightarrow> int \<Rightarrow> buf \<Rightarrow> int \<Rightarrow> buf \<Rightarrow> (int \<times> buf) option" where
  "vb_emit strict sz strpos src l str =
     (let n = (if (if strict then strpos + l > sz else strpos + l \<ge> sz)
               then sz - (strpos + l - sz) else l) in do {
       s1 \<leftarrow> copy_to strpos src n str;
       Some (strpos + n, s1) })"

text \<open>\<^verbatim>\<open>itoa\<close> into \<^verbatim>\<open>temps\<close>, 100 bytes, padded to \<open>pad\<close> digits.\<close>

definition vb_number :: "DWORD \<Rightarrow> int \<Rightarrow> nat \<Rightarrow> buf \<Rightarrow> buf option" where
  "vb_number x base pad temps = do {
     (r, t1) \<leftarrow> itoa x base temps 100;
     (if pad = 0 then Some t1 else appendzero [] t1 (int pad) 100) }"

text \<open>One conversion: the new position, \<^verbatim>\<open>str\<close>, \<^verbatim>\<open>temps\<close> and whether to return at once.\<close>

definition vb_spec :: "BYTE \<Rightarrow> va_arg \<Rightarrow> int \<Rightarrow> int \<Rightarrow> buf \<Rightarrow> buf \<Rightarrow> (int \<times> buf \<times> buf \<times> bool) option" where
  "vb_spec kind arg sz strpos str temps =
     (case arg of
        ArgInt x \<Rightarrow>
          (if kind \<in> {0, 1, 3, 6} then do {
             t1 \<leftarrow> (if kind = 0 then vb_number x 10 0 temps
                    else if kind = 1 then vb_number x 16 0 temps
                    else if kind = 3 then vb_number x 16 8 temps
                    else vb_number (x AND 0xff) 16 2 temps);
             l \<leftarrow> strlen t1;
             (p, s1) \<leftarrow> vb_emit False sz strpos t1 (int l) str;
             Some (p, s1, t1, False) }
           else if kind = 5 then do {
             s1 \<leftarrow> put_byte strpos (ucast x) str;
             Some (strpos + 1, s1, temps, False) }
           else None)
      | ArgPtr s \<Rightarrow>
          (if kind = 2 then do {
             l \<leftarrow> strlen s;
             (p, s1) \<leftarrow> vb_emit True sz strpos s (int l) str;
             Some (p, s1, temps, False) }
           else None)
      | ArgLong v \<Rightarrow>
          (if kind = 4 then do {
             t1 \<leftarrow> vb_number (ucast (drop_bit 32 v)) 16 8 temps;
             (p1, s1) \<leftarrow> vb_emit True sz strpos t1 8 str;
             (if p1 \<ge> sz then do {
                s2 \<leftarrow> put_byte (sz - 1) 0 s1;
                Some (sz, s2, t1, True) }
              else do {
                t2 \<leftarrow> vb_number (ucast v) 16 8 t1;
                (p2, s2) \<leftarrow> vb_emit True sz p1 t2 8 s1;
                Some (p2, s2, t2, False) }) }
           else None))"

text \<open>The second pass. An undefined conversion (255) never returns.\<close>

function vb_loop :: "nat \<Rightarrow> buf \<Rightarrow> buf \<Rightarrow> va_arg list \<Rightarrow> int \<Rightarrow> int \<Rightarrow> buf \<Rightarrow> buf \<Rightarrow> (int \<times> buf) option" where
  "vb_loop i work varlist args sz strpos str temps =
     (if i < length work \<and> strpos < sz then
        (if work ! i = 0 then
           (case (varlist, args) of
              (k # ks, a # as) \<Rightarrow>
                (if k = 255 then None
                 else do {
                   (p, s1, t1, done) \<leftarrow> vb_spec k a sz strpos str temps;
                   (if done then Some (p, s1) else vb_loop (i + 2) work ks as sz p s1 t1) })
            | _ \<Rightarrow> None)
         else do {
           s1 \<leftarrow> put_byte strpos (work ! i) str;
           (if strpos + 1 \<ge> sz then do {
              s2 \<leftarrow> put_byte (sz - 1) 0 s1;
              Some (sz, s2) }
            else vb_loop (i + 1) work varlist args sz (strpos + 1) s1 temps) })
      else
        (let p = (if strpos \<ge> sz then sz - 1 else strpos) in do {
          s1 \<leftarrow> put_byte p 0 str;
          Some (p, s1) }))"
  by pat_completeness auto
termination
  by (relation "measure (\<lambda>(i, w, v, a, sz, p, s, t). length w - i)") auto

declare vb_loop.simps [simp del]

definition vbuildstring :: "buf \<Rightarrow> buf \<Rightarrow> int \<Rightarrow> buf \<Rightarrow> va_arg list \<Rightarrow> (int \<times> buf) option" where
  "vbuildstring temps str sz fmt args =
     (if sz = 0 then Some (0, str)
      else do {
        (work, varlist) \<leftarrow> vb_parse 0 0 fmt (replicate 64 255);
        vb_loop 0 work varlist args sz 0 str temps })"

section \<open>Buffer operations on lists\<close>

lemma put_byte_in: "k < length d \<Longrightarrow> put_byte (int k) b d = Some (d[k := b])"
  by (simp add: put_byte_def)

lemma copy_bytes_spec:
  "i + n \<le> length src \<Longrightarrow> k + i + n \<le> length d \<Longrightarrow>
    copy_bytes n (int k) (int i) src d
      = Some (take (k + i) d @ take n (drop i src) @ drop (k + i + n) d)"
proof (induction n arbitrary: i d)
  case (Suc n)
  let ?d = "d[k + i := src ! i]"
  have "copy_bytes (Suc n) (int k) (int i) src d = copy_bytes n (int k) (int (Suc i)) src ?d"
    using Suc.prems put_byte_in [of "k + i" d "src ! i"]
    by (simp add: get_byte_def add.commute)
  also have "\<dots> = Some (take (k + Suc i) ?d @ take n (drop (Suc i) src) @ drop (k + Suc i + n) ?d)"
    using Suc.prems by (intro Suc.IH) auto
  also have "take (k + Suc i) ?d = take (k + i) d @ [src ! i]"
    using Suc.prems by (simp add: take_Suc_conv_app_nth)
  finally show ?case
    using Suc.prems by (simp add: Cons_nth_drop_Suc [symmetric, of i src])
qed simp

lemma copy_to_spec:
  assumes "n \<le> length src" "k + n \<le> length d"
  shows "copy_to (int k) src (int n) d = Some (take k d @ take n src @ drop (k + n) d)"
  using copy_bytes_spec [of 0 n src k d] assms by (simp add: copy_to_def)

text \<open>A buffer that holds the string \<open>cs\<close>.\<close>

definition holds_str :: "buf \<Rightarrow> buf \<Rightarrow> bool" where
  "holds_str d cs \<longleftrightarrow> 0 \<notin> set cs \<and> (\<exists>rest. d = cs @ 0 # rest)"

lemma strlen_str: "0 \<notin> set cs \<Longrightarrow> strlen (cs @ 0 # rest) = Some (length cs)"
  by (induction cs) auto

lemma strlen_holds: "holds_str d cs \<Longrightarrow> strlen d = Some (length cs)"
  by (auto simp: holds_str_def strlen_str)

section \<open>Positional notation\<close>

text \<open>The digits of a number, least significant first, and their value.\<close>

fun nat_digits :: "nat \<Rightarrow> nat \<Rightarrow> nat \<Rightarrow> nat list" where
  "nat_digits 0 b v = []"
| "nat_digits (Suc n) b v = (if v = 0 then [] else v mod b # nat_digits n b (v div b))"

fun digits_val :: "nat \<Rightarrow> nat list \<Rightarrow> nat" where
  "digits_val b [] = 0"
| "digits_val b (d # ds) = d + b * digits_val b ds"

lemma digits_val_nat_digits: "v < b ^ n \<Longrightarrow> digits_val b (nat_digits n b v) = v"
proof (induction n arbitrary: v)
  case (Suc n)
  then have "v div b < b ^ n" by (simp add: less_mult_imp_div_less mult.commute)
  with Suc.IH show ?case by simp
qed simp

lemma nat_digits_less: "0 < b \<Longrightarrow> d \<in> set (nat_digits n b v) \<Longrightarrow> d < b"
  by (induction n arbitrary: v) (auto split: if_splits)

lemma nat_digits_last:
  "0 < v \<Longrightarrow> v < b ^ n \<Longrightarrow> nat_digits n b v \<noteq> [] \<and> last (nat_digits n b v) \<noteq> 0"
proof (induction n arbitrary: v)
  case (Suc n)
  then have lt: "v div b < b ^ n" by (simp add: less_mult_imp_div_less mult.commute)
  show ?case
  proof (cases "v div b = 0")
    case True
    then have "nat_digits n b (v div b) = []" by (cases n) simp_all
    moreover have "v mod b \<noteq> 0" using True Suc.prems(1) by (metis div_mult_mod_eq add_0 mult_0 less_irrefl)
    ultimately show ?thesis using Suc.prems(1) by simp
  next
    case False
    with Suc.IH [OF _ lt] Suc.prems(1) show ?thesis by simp
  qed
qed simp

lemma nat_digits_length: "length (nat_digits n b v) \<le> n"
  by (induction n arbitrary: v) auto

lemma nat_digits_enough:
  "v < b ^ k \<Longrightarrow> k \<le> n \<Longrightarrow> nat_digits n b v = nat_digits k b v"
proof (induction k arbitrary: n v)
  case 0
  then show ?case by (cases n) simp_all
next
  case (Suc k)
  then obtain m where "n = Suc m" "k \<le> m" by (cases n) auto
  moreover have "v div b < b ^ k" using Suc.prems by (simp add: less_mult_imp_div_less mult.commute)
  ultimately show ?case using Suc.IH [of "v div b" m] by simp
qed

lemma unat_base:
  assumes "2 \<le> b" "b \<le> 36"
  shows "unat (of_int b :: DWORD) = nat b" "unat (of_int b :: UINT64) = nat b"
proof -
  have "(of_int b :: DWORD) = of_nat (nat b)" "(of_int b :: UINT64) = of_nat (nat b)"
    using assms by simp_all
  then show "unat (of_int b :: DWORD) = nat b" "unat (of_int b :: UINT64) = nat b"
    using assms by (simp_all only: unat_of_nat) simp_all
qed

lemma itoa_digits_nat:
  assumes "2 \<le> b" "b \<le> 36"
  shows "itoa_digits n (of_int b) v = map digit_char (nat_digits n (nat b) (unat v))"
proof (induction n arbitrary: v)
  case (Suc n)
  show ?case
    using Suc unat_base(1) [OF assms] by (simp add: unat_mod unat_div unsigned_eq_0_iff)
qed simp

lemma digit_chars:
  assumes "d < 36"
  shows "digit_value (digit_char d) = Some d" and "digit_char d \<noteq> 0" "digit_char d \<noteq> 0x2d"
    "digit_char d \<noteq> 0x24" and "d \<noteq> 0 \<Longrightarrow> digit_char d \<noteq> 0x30"
proof -
  have u: "unat (digit_char d) = (if d \<le> 9 then 48 + d else 87 + d)"
  proof -
    have "(0x61 + of_nat d - 10 :: BYTE) = of_nat (87 + d)" by simp
    moreover have "(0x30 + of_nat d :: BYTE) = of_nat (48 + d)" by simp
    ultimately show ?thesis
      using assms by (simp add: digit_char_def unat_of_nat del: of_nat_add)
  qed
  then show "digit_value (digit_char d) = Some d"
    using assms by (auto simp: digit_value_def word_le_nat_alt)
  show "digit_char d \<noteq> 0" "digit_char d \<noteq> 0x2d" "digit_char d \<noteq> 0x24"
    "d \<noteq> 0 \<Longrightarrow> digit_char d \<noteq> 0x30"
    using u assms by (auto simp: word_unat_eq_iff split: if_splits)
qed

section \<open>Conversion there and back\<close>

lemma power_loop_pow: "power_loop x n r = r * x ^ n"
  by (induction n arbitrary: r) (simp_all add: ac_simps)

lemma atoi_loop_digits:
  assumes "2 \<le> b" "b \<le> 36" "\<forall>d \<in> set ds. d < nat b" "j + length ds < 2 ^ 32"
  shows "atoi_loop b False (map digit_char ds) i (of_nat j) r
    = (r + of_nat (nat b ^ j * digits_val (nat b) ds), 0)"
  using assms(3,4)
proof (induction ds arbitrary: i j r)
  case (Cons d ds)
  have d: "d < 36" "int d < b" using Cons.prems(1) assms(2) by auto
  have "power (of_int b) (of_nat j) = of_nat (nat b ^ j)"
  proof -
    have "ucast (of_int b :: DWORD) = (of_nat (nat b) :: UINT64)"
      using unat_base [OF assms(1,2)] assms(1,2)
      by (simp add: word_unat_eq_iff unat_ucast32 unat_of_nat)
    moreover have "unat (of_nat j :: DWORD) = j" using Cons.prems(2) by (simp add: unat_of_nat)
    ultimately show ?thesis by (simp add: power_def power_loop_pow)
  qed
  moreover have "atoi_loop b False (map digit_char ds) (i - 1) (of_nat (Suc j))
      (r + of_nat d * of_nat (nat b ^ j))
      = (r + of_nat d * of_nat (nat b ^ j) + of_nat (nat b ^ Suc j * digits_val (nat b) ds), 0)"
    using Cons.prems by (intro Cons.IH) auto
  ultimately show ?case
    using d by (simp add: digit_chars(1) algebra_simps)
qed simp


lemma atoi_digits:
  assumes b: "2 \<le> b" "b \<le> 36" and v: "v < nat b ^ n" "n < 2 ^ 32" "0 < v"
  shows "atoi (rev (map digit_char (nat_digits n (nat b) v))) b = (of_nat v, 0)"
proof -
  let ?ds = "nat_digits n (nat b) v"
  have ne: "?ds \<noteq> []" "last ?ds \<noteq> 0" using nat_digits_last [OF v(3,1)] by auto
  have less: "\<forall>d \<in> set ?ds. d < nat b" using nat_digits_less b by auto
  then have l36: "last ?ds < 36" using last_in_set [OF ne(1)] b by fastforce
  obtain cs where cs: "rev (map digit_char ?ds) = digit_char (last ?ds) # cs"
    using ne(1) by (metis hd_map hd_rev list.collapse map_is_Nil_conv rev_is_Nil_conv last_rev rev_map rev_rev_ident hd_Cons_tl)
  then have pre: "atoi_prefix (rev (map digit_char ?ds)) False b 0
      = (False, b, 0, rev (map digit_char ?ds))"
    using digit_chars [OF l36] ne(2) by simp
  have "length ?ds < 2 ^ 32" using nat_digits_length [of n "nat b" v] v(2) by simp
  then have "atoi_loop b False (map digit_char ?ds) (int (length ?ds) - 1) (of_nat 0) 0
      = (0 + of_nat (nat b ^ 0 * digits_val (nat b) ?ds), 0)"
    using b less by (intro atoi_loop_digits) auto
  then show ?thesis
    using b pre digits_val_nat_digits [OF v(1)] by (simp add: atoi_def)
qed

lemma digit_chars_nonzero:
  assumes "2 \<le> b" "b \<le> 36"
  shows "0 \<notin> digit_char ` set (nat_digits n (nat b) v)"
  using nat_digits_less [of "nat b"] digit_chars(2) assms by fastforce

lemma itoa_string:
  assumes b: "2 \<le> b" "b \<le> 36" and v: "unat v < nat b ^ n" "n < maxsize"
    and len: "maxsize \<le> length output" and "1 < maxsize"
  shows "\<exists>r out. itoa v b output maxsize = Some (r, out) \<and> length out = length output
    \<and> holds_str out (if v = 0 then [0x30] else rev (map digit_char (nat_digits n (nat b) (unat v))))"
proof (cases "v = 0")
  case True
  have "output[0 := 0x30, 1 := 0] = [0x30] @ 0 # drop 2 output"
    using assms(6) len by (cases "output"; cases "tl output") auto
  then show ?thesis
    using True assms by (auto simp: itoa_def put_byte_def holds_str_def)
next
  case False
  let ?ds = "nat_digits n (nat b) (unat v)" and ?t = "itoa_digits maxsize (of_int b) v"
  have t: "?t = map digit_char ?ds"
    using itoa_digits_nat [OF b] nat_digits_enough [OF v(1), of maxsize] v(2) by simp
  have l: "length ?ds < maxsize" using nat_digits_length [of n "nat b" "unat v"] v(2) by simp
  let ?o1 = "rev ?t @ drop (length ?ds) output"
  have "copy_to 0 (rev ?t) (int (length ?t)) output = Some ?o1"
    using copy_to_spec [of "length ?t" "rev ?t" 0 "output"] l len t by simp
  moreover have "put_byte (int (length ?ds)) 0 ?o1
      = Some (rev ?t @ 0 # drop (Suc (length ?ds)) output)"
    using l len t
    by (subst put_byte_in) (auto simp: list_update_append Cons_nth_drop_Suc [symmetric])
  moreover have "0 \<notin> set (rev (map digit_char ?ds))" using digit_chars_nonzero [OF b] by simp
  ultimately show ?thesis
    using False b l len t by (auto simp: itoa_def holds_str_def Let_def)
qed

text \<open>
  \<^verbatim>\<open>itoa\<close> and \<^verbatim>\<open>atoi\<close> are inverse. For every base from 2 to 36 and every number whose
  digits fit in the buffer, the string \<^verbatim>\<open>itoa\<close> writes is terminated inside the buffer
  and \<^verbatim>\<open>atoi\<close> reads it back without an error. (The prefix parsing of \<^verbatim>\<open>atoi\<close> cannot
  mistake digits for a prefix: the leading digit is not 0.)
\<close>

theorem atoi_itoa:
  assumes "2 \<le> b" "b \<le> 36" "unat v < nat b ^ n" "n < maxsize" "n < 2 ^ 32" "1 < maxsize"
    and "maxsize \<le> length output"
  shows "\<exists>r out s. itoa v b output maxsize = Some (r, out) \<and> length out = length output
    \<and> holds_str out s \<and> atoi s b = (ucast v, 0)"
proof -
  let ?s = "if v = 0 then [0x30] else rev (map digit_char (nat_digits n (nat b) (unat v)))"
  obtain r out where "itoa v b output maxsize = Some (r, out)" "length out = length output"
    "holds_str out ?s"
    using itoa_string [OF assms(1-4,7,6)] by blast
  moreover have "atoi ?s b = (ucast v, 0)"
  proof (cases "v = 0")
    case True
    then show ?thesis
      using assms(1,2) by (simp add: atoi_def digit_value_def power_def)
  next
    case False
    then have "0 < unat v" by (simp add: unat_gt_0)
    then have "atoi (rev (map digit_char (nat_digits n (nat b) (unat v)))) b = (of_nat (unat v), 0)"
      using assms by (intro atoi_digits) auto
    then show ?thesis using False by simp
  qed
  ultimately show ?thesis by blast
qed

theorem atoi_itoa_witness:
  "\<exists>r out s. itoa 0xdeadbeef 16 (replicate 20 0xff) 10 = Some (r, out) \<and> length out = 20
    \<and> holds_str out s \<and> atoi s 16 = (0xdeadbeef, 0)"
  using atoi_itoa [of 16 "0xdeadbeef" 8 10 "replicate 20 0xff"] by simp

text \<open>
  Negative numbers. \<^verbatim>\<open>atoi\<close> negates the intermediate result after every digit instead
  of once at the end: \<^verbatim>\<open>-12\<close> is read as -8. And a bad character at the start of the
  string is reported with the error code 0, which means success.
\<close>

theorem atoi_negative_wrong:
  "atoi [0x2d, 0x31, 0x32] 10 = (- 8, 0) \<and> atoi [0x2d, 0x32] 10 = (- 2, 0) \<and> atoi [0x67] 10 = (0, 0)"
proof -
  have p: "power 10 0 = 1" "power 10 1 = 10" by (simp_all add: power_def)
  have "unat (0x31 :: BYTE) = 49" "unat (0x32 :: BYTE) = 50" by simp_all
  then show ?thesis
    by (simp add: atoi_def digit_value_def p Let_def)
qed

section \<open>The formatter against a reference\<close>

text \<open>What a format string means: the text of every conversion in place of it.\<close>

definition digits_str :: "nat \<Rightarrow> nat \<Rightarrow> buf" where
  "digits_str b v = (if v = 0 then [0x30] else rev (map digit_char (nat_digits 32 b v)))"

definition pad_str :: "nat \<Rightarrow> buf \<Rightarrow> buf" where
  "pad_str n s = replicate (n - length s) 0x30 @ s"

fun convert :: "BYTE \<Rightarrow> va_arg \<Rightarrow> buf option" where
  "convert k (ArgInt x) =
     (if k = 0 then Some (digits_str 10 (unat x))
      else if k = 1 then Some (digits_str 16 (unat x))
      else if k = 3 then Some (pad_str 8 (digits_str 16 (unat x)))
      else if k = 6 then Some (pad_str 2 (digits_str 16 (unat (x AND 0xff))))
      else if k = 5 then Some [ucast x]
      else None)"
| "convert k (ArgPtr s) = (if k = 2 then map_option (\<lambda>n. take n s) (strlen s) else None)"
| "convert k (ArgLong v) =
     (if k = 4 then Some (pad_str 8 (digits_str 16 (unat (drop_bit 32 v)))
        @ pad_str 8 (digits_str 16 (unat (take_bit 32 v))))
      else None)"

fun render :: "buf \<Rightarrow> va_arg list \<Rightarrow> buf option" where
  "render [] args = Some []"
| "render [b] args = (if b = 0x25 then None else Some [b])"
| "render (b # k # bs) args =
     (if b = 0x25 then
        (case args of
           [] \<Rightarrow> None
         | a # as \<Rightarrow> do { t \<leftarrow> convert (spec_kind k) a; r \<leftarrow> render bs as; Some (t @ r) })
      else map_option ((#) b) (render (k # bs) args))"

fun zeroed :: "buf \<Rightarrow> buf" where
  "zeroed [] = []"
| "zeroed [b] = [b]"
| "zeroed (b # k # bs) = (if b = 0x25 then 0 # 0 # zeroed bs else b # zeroed (k # bs))"

fun kinds :: "buf \<Rightarrow> buf" where
  "kinds [] = []"
| "kinds [b] = []"
| "kinds (b # k # bs) = (if b = 0x25 then spec_kind k # kinds bs else kinds (k # bs))"

lemma length_zeroed [simp]: "length (zeroed fmt) = length fmt"
  by (induction fmt rule: zeroed.induct) auto

lemma convert_255: "convert 255 a = None"
  by (cases a) auto

lemma get_byte_next: "get_byte (int (length pre) + 1) (pre @ b # k # bs) = Some k"
proof -
  have "nat (int (length pre) + 1) = Suc (length pre)" by simp
  then show ?thesis by (simp add: get_byte_def nth_append)
qed

lemma vb_parse_render:
  assumes "render fmt args = Some out" "vlc + length (kinds fmt) \<le> length varlist"
  shows "vb_parse (length pre) vlc (pre @ fmt) varlist
    = Some (pre @ zeroed fmt, take vlc varlist @ kinds fmt @ drop (vlc + length (kinds fmt)) varlist)"
  using assms
proof (induction fmt args arbitrary: pre vlc varlist out rule: render.induct)
  case (1 args)
  then show ?case by (subst vb_parse.simps) simp
next
  case (2 b args)
  then have "vb_parse (length (pre @ [b])) vlc ((pre @ [b]) @ []) varlist = Some (pre @ [b], varlist)"
    by (subst vb_parse.simps) simp
  with 2 show ?case by (subst vb_parse.simps) (simp split: if_splits)
next
  case (3 b k bs args)
  show ?case
  proof (cases "b = 0x25")
    case True
    with 3(3) obtain a as t r where args: "args = a # as"
      and t: "convert (spec_kind k) a = Some t" and r: "render bs as = Some r"
      by (auto simp: bind_Some_iff split: list.splits)
    have k: "spec_kind k \<noteq> 255" using t convert_255 by auto
    have vl: "vlc < length varlist" using 3(4) True by simp
    let ?v = "varlist[vlc := spec_kind k]"
    have "vb_parse (length pre) vlc (pre @ b # k # bs) varlist
        = vb_parse (length pre + 1) (vlc + 1) ((pre @ [0]) @ 0 # bs) ?v"
      using True k vl
      by (subst vb_parse.simps) (simp add: get_byte_next put_byte_in list_update_append)
    also have "\<dots> = vb_parse (length (pre @ [0, 0])) (vlc + 1) ((pre @ [0, 0]) @ bs) ?v"
      by (subst vb_parse.simps) (simp add: nth_append)
    also have "\<dots> = Some ((pre @ [0, 0]) @ zeroed bs,
        take (vlc + 1) ?v @ kinds bs @ drop (vlc + 1 + length (kinds bs)) ?v)"
      by (rule 3(1) [OF True args t r]) (use 3(4) True in simp)
    finally show ?thesis using True vl by (simp add: take_Suc_conv_app_nth)
  next
    case False
    with 3(3) obtain r where r: "render (k # bs) args = Some r" by auto
    have "vb_parse (length pre) vlc (pre @ b # k # bs) varlist
        = vb_parse (length (pre @ [b])) vlc ((pre @ [b]) @ k # bs) varlist"
      using False by (subst vb_parse.simps) simp
    also have "\<dots> = Some ((pre @ [b]) @ zeroed (k # bs),
        take vlc varlist @ kinds (k # bs) @ drop (vlc + length (kinds (k # bs))) varlist)"
      by (rule 3(2) [OF False r]) (use 3(4) False in simp)
    finally show ?thesis using False by simp
  qed
qed

section \<open>One conversion\<close>

lemma digits_str_nonzero: "b = 10 \<or> b = 16 \<Longrightarrow> 0 \<notin> set (digits_str b v)"
  using digit_chars_nonzero [of "int b" 32 v] by (auto simp: digits_str_def)

lemma digits_str_length:
  assumes "v < b ^ k" "k \<le> 32" "0 < k"
  shows "length (digits_str b v) \<le> k"
  using nat_digits_enough [OF assms(1,2)] nat_digits_length [of k b v] assms(3)
  by (simp add: digits_str_def)

lemma unat_less32: "unat (x :: DWORD) < 0x100000000"
proof -
  have "unat x < 2 ^ LENGTH(32)" by (rule unsigned_less)
  then show ?thesis by simp
qed

lemma itoa_temps:
  assumes "b = 10 \<or> b = 16" "length temps = 100"
  shows "\<exists>r t. itoa x b temps 100 = Some (r, t) \<and> length t = 100
    \<and> holds_str t (digits_str (nat b) (unat x))"
proof -
  have "unat x < nat b ^ 32" using assms(1) unat_less32 [of x] by auto
  from itoa_string [OF _ _ this, of 100 temps] assms show ?thesis
    by (auto simp: digits_str_def unsigned_eq_0_iff)
qed

lemma appendzero_pads:
  assumes "holds_str t cs" "length t = 100" "length cs \<le> w" "w < 100"
  shows "\<exists>u. appendzero [] t (int w) 100 = Some u \<and> length u = 100 \<and> holds_str u (pad_str w cs)"
proof -
  obtain rest where t: "t = cs @ 0 # rest" and cs: "0 \<notin> set cs"
    using assms(1) by (auto simp: holds_str_def)
  let ?z = "w - length cs"
  let ?n = "replicate ?z 0x30 @ replicate (Suc w - ?z) (0 :: BYTE)"
  let ?p = "pad_str w cs"
  have z: "?z < length ?n" "length ?n = Suc w" using assms(3) by simp_all
  have zeros: "?n[?z := 0] = ?n" "?n[w := 0] = ?n"
  proof -
    show "?n[?z := 0] = ?n" by (simp add: list_update_append list_update_same_conv)
    have "?n ! w = 0" using assms(3) by (simp only: nth_append length_replicate) (auto simp: Suc_diff_le nth_Cons' not_less)
    then show "?n[w := 0] = ?n" by (metis list_update_id)
  qed
  have lp: "length ?p = w" "0 \<notin> set ?p" using assms(3) cs by (auto simp: pad_str_def)
  have sl: "strlen ?n = Some ?z"
  proof -
    have "?n = replicate ?z 0x30 @ 0 # replicate (length cs) 0"
      using assms(3) by (simp add: Suc_diff_le flip: replicate_Suc)
    moreover have "strlen (replicate ?z 0x30 @ 0 # replicate (length cs) 0) = Some (length (replicate ?z (0x30 :: BYTE)))"
      by (rule strlen_str) auto
    ultimately show ?thesis by simp
  qed
  have cat: "strcat ?n t = Some (?p @ [0])"
  proof -
    have "copy_to (int ?z) t (int (length cs)) ?n = Some (replicate ?z 0x30 @ cs @ [0])"
      using copy_to_spec [of "length cs" t ?z ?n] assms(3) t
      by (cases "length cs") (simp_all add: drop_Cons' Suc_diff_le drop_replicate)
    then show ?thesis
      using sl strlen_holds [OF assms(1)] assms(3)
      by (simp add: strcat_def pad_str_def put_byte_def list_update_append)
  qed
  have cpy: "strcpy t (?p @ [0]) = Some (?p @ 0 # drop (Suc w) t)"
  proof -
    have "strlen (?p @ [0]) = Some w" using strlen_str [OF lp(2), of "[]"] lp(1) by simp
    moreover have "copy_to 0 (?p @ [0]) (int w) t = Some (?p @ drop w t)"
      using copy_to_spec [of w "?p @ [0]" 0 t] assms(2,4) lp(1) by simp
    ultimately show ?thesis
      using assms(2,4) lp(1)
      by (simp add: strcpy_def put_byte_def list_update_append Cons_nth_drop_Suc [symmetric])
  qed
  have ms: "c_memset (replicate (Suc w) 0) 0x30 (int ?z) = Some ?n"
    unfolding c_memset_def nat_int by (simp add: drop_replicate flip: replicate_Suc)
  have "appendzero [] t (int w) 100 = put_byte 99 0 (?p @ 0 # drop (Suc w) t)"
    using strlen_holds [OF assms(1)] ms cat cpy zeros z assms(3,4)
    by (simp add: appendzero_def Let_def put_byte_in nat_add_distrib of_nat_diff [symmetric]
        del: of_nat_diff)
  moreover have "put_byte 99 0 (?p @ 0 # drop (Suc w) t) = Some (?p @ 0 # (drop (Suc w) t)[98 - w := 0])"
    using assms(2,4) lp(1) by (simp add: put_byte_def list_update_append) (auto split: nat.splits intro!: arg_cong2 [of _ _ _ _ "\<lambda>k l. l[k := 0]"])
  ultimately show ?thesis using lp assms(2,4) by (auto simp: holds_str_def)
qed

lemma vb_number_str:
  assumes "b = 10 \<or> b = 16" "length temps = 100" "length (digits_str (nat b) (unat x)) \<le> pad" "pad < 100"
  shows "\<exists>t. vb_number x b pad temps = Some t \<and> length t = 100
    \<and> holds_str t (pad_str pad (digits_str (nat b) (unat x)))"
proof -
  obtain r t1 where t1: "itoa x b temps 100 = Some (r, t1)" "length t1 = 100"
    "holds_str t1 (digits_str (nat b) (unat x))"
    using itoa_temps [OF assms(1,2)] by blast
  then show ?thesis
    using appendzero_pads [OF t1(3,2) assms(3,4)]
    by (cases "pad = 0") (auto simp: vb_number_def pad_str_def)
qed

lemma vb_number_plain:
  assumes "b = 10 \<or> b = 16" "length temps = 100"
  shows "\<exists>t. vb_number x b 0 temps = Some t \<and> length t = 100
    \<and> holds_str t (digits_str (nat b) (unat x))"
  using itoa_temps [OF assms] by (force simp: vb_number_def)

lemma strlen_Some: "strlen d = Some n \<Longrightarrow> holds_str d (take n d) \<and> n < length d"
proof (induction d arbitrary: n)
  case (Cons b d)
  then show ?case by (cases "b = 0") (fastforce simp: holds_str_def)+
qed simp

text \<open>A copy that fits: the written prefix grows by the text.\<close>

lemma vb_emit_fits:
  assumes "holds_str t cs" "length pre + length cs < n" "length pre + length post = n"
  shows "vb_emit strict (int n) (int (length pre)) t (int (length cs)) (pre @ post)
    = Some (int (length (pre @ cs)), (pre @ cs) @ drop (length cs) post)"
proof -
  obtain rest where t: "t = cs @ 0 # rest" using assms(1) by (auto simp: holds_str_def)
  have "copy_to (int (length pre)) t (int (length cs)) (pre @ post)
      = Some (pre @ cs @ drop (length cs) post)"
    using copy_to_spec [of "length cs" t "length pre" "pre @ post"] assms(2,3) t by simp
  then show ?thesis using assms(2) by (simp add: vb_emit_def Let_def)
qed

lemma digits16_len: "length (digits_str 16 (unat (x :: DWORD))) \<le> 8"
  using unat_less32 [of x] by (intro digits_str_length) simp_all

lemma digits16_byte: "length (digits_str 16 (unat ((x :: DWORD) AND 0xff))) \<le> 2"
proof -
  have "x AND 0xff = take_bit 8 x" by (simp add: take_bit_eq_mask mask_eq_exp_minus_1)
  then have "unat (x AND 0xff) < 2 ^ 8" by (metis unsigned_take_bit_eq take_bit_nat_less_exp)
  then show ?thesis by (intro digits_str_length) simp_all
qed

lemma pad_str_length: "length s \<le> n \<Longrightarrow> length (pad_str n s) = n"
  by (simp add: pad_str_def)

definition spec_ok :: "BYTE \<Rightarrow> va_arg \<Rightarrow> nat \<Rightarrow> buf \<Rightarrow> buf \<Rightarrow> buf \<Rightarrow> buf \<Rightarrow> bool" where
  "spec_ok k a n pre cs post temps \<longleftrightarrow>
     (\<exists>t. vb_spec k a (int n) (int (length pre)) (pre @ post) temps
        = Some (int (length (pre @ cs)), (pre @ cs) @ drop (length cs) post, t, False) \<and> length t = 100)"

lemma vb_spec_number:
  assumes "k \<in> {0, 1, 3, 6}" "holds_str t cs" "length t = 100"
    and "(if k = 0 then vb_number x 10 0 temps else if k = 1 then vb_number x 16 0 temps
      else if k = 3 then vb_number x 16 8 temps else vb_number (x AND 0xff) 16 2 temps) = Some t"
    and "length pre + length cs < n" "length pre + length post = n"
  shows "spec_ok k (ArgInt x) n pre cs post temps"
  using assms(1,3) vb_emit_fits [OF assms(2,5,6), of False]
  unfolding spec_ok_def vb_spec_def
  by (simp add: assms(4) strlen_holds [OF assms(2)])

lemma vb_spec_int:
  assumes "convert k (ArgInt x) = Some cs" "length temps = 100"
    and fit: "length pre + length cs < n" "length pre + length post = n"
  shows "spec_ok k (ArgInt x) n pre cs post temps"
proof -
  consider "k = 0" | "k = 1" | "k = 3" | "k = 6" | "k = 5"
    using assms(1) by (auto split: if_splits)
  then show ?thesis
  proof cases
    case 1
    with vb_number_plain [of 10 temps x] assms show ?thesis
      by (auto intro!: vb_spec_number)
  next
    case 2
    with vb_number_plain [of 16 temps x] assms show ?thesis
      by (auto intro!: vb_spec_number)
  next
    case 3
    with vb_number_str [of 16 temps x 8] digits16_len [of x] assms show ?thesis
      by (auto intro!: vb_spec_number)
  next
    case 4
    with vb_number_str [of 16 temps "x AND 0xff" 2] digits16_byte [of x] assms show ?thesis
      by (auto intro!: vb_spec_number)
  next
    case 5
    with assms show ?thesis
      by (cases post) (auto simp: spec_ok_def vb_spec_def put_byte_in list_update_append)
  qed
qed

lemma vb_spec_long:
  assumes "length temps = 100"
    and fit: "length pre + 16 < n" "length pre + length post = n"
  shows "spec_ok 4 (ArgLong v) n pre (pad_str 8 (digits_str 16 (unat (drop_bit 32 v)))
        @ pad_str 8 (digits_str 16 (unat (take_bit 32 v)))) post temps"
proof -
  let ?h = "ucast (drop_bit 32 v) :: DWORD" and ?l = "ucast v :: DWORD"
  let ?sh = "pad_str 8 (digits_str 16 (unat ?h))" and ?sl = "pad_str 8 (digits_str 16 (unat ?l))"
  have len: "length ?sh = 8" "length ?sl = 8" using digits16_len by (simp_all add: pad_str_length)
  have hi: "take_bit 32 (unat (drop_bit 32 v)) = unat (drop_bit 32 v)"
  proof -
    have "unat v < 2 ^ LENGTH(64)" by (rule unsigned_less)
    then have "unat v div 2 ^ 32 < 2 ^ 32" by (simp add: less_mult_imp_div_less)
    moreover have "unat (drop_bit 32 v) = unat v div 2 ^ 32"
      by (simp add: drop_bit_eq_div unat_div)
    ultimately show ?thesis by (simp only: take_bit_nat_eq_self_iff)
  qed
  have v: "unat ?h = unat (drop_bit 32 v)" "unat ?l = unat (take_bit 32 v)"
    by (simp_all add: unsigned_ucast_eq unsigned_take_bit_eq hi)
  obtain t1 where t1: "vb_number ?h 16 8 temps = Some t1" "length t1 = 100" "holds_str t1 ?sh"
    using vb_number_str [of 16 temps ?h 8] digits16_len [of ?h] assms(1) by auto
  obtain t2 where t2: "vb_number ?l 16 8 t1 = Some t2" "length t2 = 100" "holds_str t2 ?sl"
    using vb_number_str [of 16 t1 ?l 8] digits16_len [of ?l] t1(2) by auto
  have e1: "vb_emit True (int n) (int (length pre)) t1 8 (pre @ post)
      = Some (int (length (pre @ ?sh)), (pre @ ?sh) @ drop 8 post)"
    using vb_emit_fits [OF t1(3), of pre n post True] fit len by simp
  have e2: "vb_emit True (int n) (int (length (pre @ ?sh))) t2 8 ((pre @ ?sh) @ drop 8 post)
      = Some (int (length ((pre @ ?sh) @ ?sl)), ((pre @ ?sh) @ ?sl) @ drop 8 (drop 8 post))"
    using vb_emit_fits [OF t2(3), of "pre @ ?sh" n "drop 8 post" True] fit len by simp
  have "int (length (pre @ ?sh)) < int n" using fit len by simp
  then have "vb_spec 4 (ArgLong v) (int n) (int (length pre)) (pre @ post) temps
      = Some (int (length ((pre @ ?sh) @ ?sl)), ((pre @ ?sh) @ ?sl) @ drop 8 (drop 8 post), t2, False)"
    unfolding vb_spec_def
    by (simp only: va_arg.case t1(1) e1 t2(1) e2 bind.bind_lunit prod.case if_True if_False not_le) simp
  then show ?thesis using t2(2) len v by (simp add: spec_ok_def)
qed

lemma vb_spec_convert:
  assumes "convert k a = Some cs" "length temps = 100" "k \<noteq> 255"
    and fit: "length pre + length cs < n" "length pre + length post = n"
  shows "spec_ok k a n pre cs post temps"
proof (cases a)
  case (ArgInt x)
  with vb_spec_int assms show ?thesis by blast
next
  case (ArgPtr s)
  with assms(1) obtain l where k: "k = 2" and l: "strlen s = Some l" "cs = take l s"
    by (auto split: if_splits)
  then have "holds_str s cs" "length cs = l" using strlen_Some [OF l(1)] by auto
  with vb_emit_fits [OF this(1) fit, of True] ArgPtr k l assms(2) show ?thesis
    by (simp add: spec_ok_def vb_spec_def)
next
  case (ArgLong v)
  with assms(1) have "k = 4" "cs = pad_str 8 (digits_str 16 (unat (drop_bit 32 v)))
        @ pad_str 8 (digits_str 16 (unat (take_bit 32 v)))"
    by (auto split: if_splits)
  with vb_spec_long [of temps pre n post v] fit assms(2) ArgLong show ?thesis
    by (auto simp: pad_str_def)
qed

lemma vb_loop_render:
  assumes "render fmt args = Some out" "0 \<notin> set fmt" "length pre + length out < n"
    "length pre + length post = n" "length temps = 100"
  shows "vb_loop (length w) (w @ zeroed fmt) (kinds fmt @ ks) args (int n) (int (length pre)) (pre @ post) temps
    = Some (int (length (pre @ out)), (pre @ out) @ 0 # drop (Suc (length out)) post)"
  using assms
proof (induction fmt args arbitrary: w pre post temps out rule: render.induct)
  case (1 args)
  then obtain p ps where "post = p # ps" by (cases post) auto
  with 1 show ?case by (subst vb_loop.simps) (simp add: put_byte_in list_update_append)
next
  case (2 b args)
  then obtain p q ps where post: "post = p # q # ps"
    by (cases post; cases "tl post") (auto split: if_splits)
  have "vb_loop (length (w @ [b])) (w @ [b]) ks args (int n) (int (length (pre @ [b]))) ((pre @ [b]) @ q # ps) temps
      = Some (int (length (pre @ [b])), (pre @ [b]) @ 0 # ps)"
    using 2 post by (subst vb_loop.simps) (simp add: put_byte_def list_update_append nat_add_distrib split: if_splits)
  with 2 post show ?case
    by (subst vb_loop.simps) (auto simp: put_byte_in list_update_append nth_append add.commute split: if_splits)
next
  case (3 b k bs args)
  show ?case
  proof (cases "b = 0x25")
    case True
    with 3(3) obtain a as t r where args: "args = a # as"
      and t: "convert (spec_kind k) a = Some t" and r: "render bs as = Some r" and out: "out = t @ r"
      by (auto simp: bind_eq_Some_conv split: list.splits)
    have k: "spec_kind k \<noteq> 255" using t convert_255 by auto
    have "spec_ok (spec_kind k) a n pre t post temps"
      using vb_spec_convert [OF t _ k, of temps pre n post] 3(5-7) out by simp
    then obtain t1 where spec: "vb_spec (spec_kind k) a (int n) (int (length pre)) (pre @ post) temps
        = Some (int (length (pre @ t)), (pre @ t) @ drop (length t) post, t1, False)" "length t1 = 100"
      by (auto simp: spec_ok_def)
    have "vb_loop (length w) (w @ zeroed (b # k # bs)) (kinds (b # k # bs) @ ks) args (int n)
          (int (length pre)) (pre @ post) temps
        = vb_loop (length (w @ [0, 0])) ((w @ [0, 0]) @ zeroed bs) (kinds bs @ ks) as (int n)
          (int (length (pre @ t))) ((pre @ t) @ drop (length t) post) t1"
      using True k args spec(1) 3(5) by (subst vb_loop.simps) simp
    also have "\<dots> = Some (int (length ((pre @ t) @ r)), ((pre @ t) @ r) @ 0 # drop (Suc (length r)) (drop (length t) post))"
      by (rule 3(1) [OF True args t r]) (use 3 out spec(2) in auto)
    finally show ?thesis using out by (simp add: add.commute [of "length r"])
  next
    case False
    with 3(3) obtain r where r: "render (k # bs) args = Some r" and out: "out = b # r" by auto
    obtain p ps where post: "post = p # ps" using 3(5,6) by (cases post) auto
    have "vb_loop (length w) (w @ zeroed (b # k # bs)) (kinds (b # k # bs) @ ks) args (int n)
          (int (length pre)) (pre @ post) temps
        = vb_loop (length (w @ [b])) ((w @ [b]) @ zeroed (k # bs)) (kinds (k # bs) @ ks) args (int n)
          (int (length (pre @ [b]))) ((pre @ [b]) @ ps) temps"
      using False 3(4,5) post out
      by (subst vb_loop.simps) (simp add: put_byte_in list_update_append nth_append add.commute)
    also have "\<dots> = Some (int (length ((pre @ [b]) @ r)), ((pre @ [b]) @ r) @ 0 # drop (Suc (length r)) ps)"
      by (rule 3(2) [OF False r]) (use 3 out post in auto)
    finally show ?thesis using out post by simp
  qed
qed

text \<open>
  C38: the formatter implements its reference. When the text of a format string fits in the
  buffer with its terminating 0, \<^verbatim>\<open>vbuildstring\<close> writes exactly that text (\<open>render\<close>:
  decimal, hexadecimal, zero-padded to 2, 8 and 16 digits, strings and characters in the order of
  the arguments), terminates it, leaves the rest of the buffer alone and returns its length.
\<close>

theorem vbuildstring_renders:
  assumes "render fmt args = Some out" "0 \<notin> set fmt" "length out < length str"
    "length (kinds fmt) \<le> 64" "length temps = 100"
  shows "vbuildstring temps str (int (length str)) fmt args
    = Some (int (length out), out @ 0 # drop (Suc (length out)) str)"
proof -
  have "vb_parse 0 0 fmt (replicate 64 255)
      = Some (zeroed fmt, kinds fmt @ drop (length (kinds fmt)) (replicate 64 255))"
    using vb_parse_render [OF assms(1), of 0 "replicate 64 255" "[]"] assms(4) by simp
  moreover have "vb_loop 0 (zeroed fmt) (kinds fmt @ ks) args (int (length str)) 0 str temps
      = Some (int (length out), out @ 0 # drop (Suc (length out)) str)" for ks
    using vb_loop_render [OF assms(1,2), of "[]" "length str" str temps "[]" ks] assms(3,5) by simp
  ultimately show ?thesis using assms(3) by (auto simp: vbuildstring_def)
qed

theorem vbuildstring_renders_witness:
  "vbuildstring (replicate 100 0) [1, 2, 3, 4, 5, 6, 7, 8, 9, 10] 10
     [0x61, 0x25, 0x32, 0x2c, 0x25, 0x63, 0x25, 0x73] [ArgInt 0x1a5, ArgInt 0x7a, ArgPtr [0x68, 0x69, 0]]
   = Some (7, [0x61, 0x61, 0x35, 0x2c, 0x7a, 0x68, 0x69, 0, 9, 10])"
proof -
  let ?f = "[0x61, 0x25, 0x32, 0x2c, 0x25, 0x63, 0x25, 0x73] :: buf"
    and ?o = "[0x61, 0x61, 0x35, 0x2c, 0x7a, 0x68, 0x69] :: buf"
  have "render ?f [ArgInt 0x1a5, ArgInt 0x7a, ArgPtr [0x68, 0x69, 0]] = Some ?o" by code_simp
  moreover have "length (kinds ?f) \<le> 64" by code_simp
  ultimately show ?thesis
    using vbuildstring_renders [of ?f _ ?o "[1, 2, 3, 4, 5, 6, 7, 8, 9, 10]" "replicate 100 0"] by simp
qed

text \<open>
  A text that does not fit. The correction \<^verbatim>\<open>_i=size-(strpos+_i-size)\<close> does not give
  the room that is left: in a buffer of 10 bytes, after 3 characters, 8 hexadecimal digits are
  cut to 9 bytes, so that 12 bytes are written, past the end of the buffer.
\<close>

theorem vbuildstring_overruns:
  "vbuildstring (replicate 100 0) (replicate 10 1) 10 [0x61, 0x62, 0x63, 0x25, 0x38] [ArgInt 0x12345678] = None
   \<and> vb_emit False 10 3 (replicate 8 0x31 @ [0]) 8 (replicate 12 1) = Some (12, [1, 1, 1] @ replicate 8 0x31 @ [0])"
  by (rule conjI; code_simp)

end
