(* ===== verification/Spec2Isabelle.thy ===== *)
theory Spec2Isabelle
  imports Ultimap_View VM_Call_Effects VM_Exit VMX_Setup Multicore Common_Strings
begin

text \<open>
  Verification of DBVM, the hypervisor of Cheat Engine (the C code under
  \<^verbatim>\<open>src/dbvm/vmm\<close>).

  \<^bold>\<open>The program.\<close> DBVM is loaded under a running or booting operating system, its guest. The
  processor runs the guest and leaves it with a \<^emph>\<open>VM exit\<close> when it does something the
  hypervisor has to see; \<^verbatim>\<open>handleVMEvent\<close>, on AMD processors \<^verbatim>\<open>handleVMEvent_amd\<close>,
  handles the exit and the guest goes on. While the guest is in real mode, which
  early processors with VMX cannot run, its instructions are emulated in software. An
  application in the guest can ask for services with the instruction VMCALL, protected by two
  passwords. What the guest sees of itself (control registers, MSRs, memory map) differs from
  what the processor works with, and most of the code keeps the two apart.

  \<^bold>\<open>The state.\<close> The theory \<open>Machine\<close> has the record \<open>machine\<close>: the fields of the VMCS by
  their encodings (\<open>vmread\<close>, \<open>vmwrite\<close>, which cut a value to the width of the field), the
  guest's general registers (\<^verbatim>\<open>VMRegisters\<close>), the hypervisor's bookkeeping of the CPU
  (\<^verbatim>\<open>cpuinfo\<close> of \<^verbatim>\<open>vmmhelper.h\<close>), physical memory as bytes, MSRs, the page directory of the
  hypervisor, its heap and its globals. What belongs to the processor and not to the code
  (which MSRs exist, what CPUID answers, when XSETBV faults, which interrupts arrive) is in
  fields of the record that no function changes. Functions of the code are functions on this
  state. \<open>None\<close> is a run that does not come back or leaves the program's memory: an endless
  loop, an access outside a mapped window or an array, a fault of the hypervisor itself. An
  error the C code returns is the number it returns. Messages on the serial port are left out.

  \<^bold>\<open>Memory.\<close> \<open>Paging\<close> models the page walks of \<^verbatim>\<open>getPhysicalAddressVM\<close> for the three paging
  modes, \<^verbatim>\<open>ReadVMMemory\<close> and \<^verbatim>\<open>mapVMmemory\<close> (\<^verbatim>\<open>vmpaging.c\<close>). A pointer the code obtains from
  a mapping is a value of the type \<open>window\<close>, through which bytes are read and written.
  Shown: reads and mappings agree byte by byte with the walk, also across page boundaries;
  what is written through a mapping is read back; the error codes. The fill loop of
  \<^verbatim>\<open>mapVMmemory\<close> has fuel 514, one more than the pages of the largest accepted size with both
  ends unaligned; \<open>map_pages_enough\<close> shows that this is enough. \<open>Host_Paging\<close> has the hypervisor's own
  directory (\<^verbatim>\<open>MapPhysicalMemoryEx\<close>, \<^verbatim>\<open>VirtualToPhysical\<close>, \<^verbatim>\<open>mm.c\<close>) and that translation
  inverts mapping. \<open>Memory_Manager\<close> has the heap of \<^verbatim>\<open>mm.c\<close> as a linked list, its refinement to
  an abstract set of extents, disjointness of the blocks over any sequence of requests, first
  fit, and two overflows. \<open>Identity_Map\<close> shows that the tables \<^verbatim>\<open>setupNonPagedPaging\<close> builds
  translate the first 8 GB to themselves.

  \<^bold>\<open>The real-mode emulator\<close> (\<^verbatim>\<open>realmodeemu.c\<close>). \<open>Register_File\<close>, \<open>RM_Decode\<close> (operands, MODRM,
  SIB, prefixes), \<open>RM_Opcodes\<close> and \<open>RM_Data\<close> (one function per opcode), \<open>RM_Emulator\<close>
  (dispatch, one instruction, the main loop). An instruction is fetched as 30 bytes, as in
  the code. The main loop is a partial function, since a guest may never leave real mode.
  \<open>RM_Access\<close>, \<open>RM_Stack\<close>, \<open>RM_Interrupts\<close> and \<open>RM_Operands\<close> show the behaviour of stack
  instructions, calls, interrupts, the delay of STI, and address forms. \<open>RM_Safety\<close> has
  the locale \<open>rm_step\<close>, the contract between the emulator and its primitive effects, from which
  every opcode, the dispatcher and the loop are shown to respect a relation on states; it is
  interpreted for the VMCS fields and for the bookkeeping. \<open>Emulator_Isolation\<close> closes these
  theorems with the hypervisor's own control register handlers.

  \<^bold>\<open>The exit handlers\<close> (\<^verbatim>\<open>vmeventhandler.c\<close>, \<^verbatim>\<open>vmevent_invalidstate.c\<close>).
  \<open>Control_Registers\<close>: \<^verbatim>\<open>setVM_CR0\<close>, \<^verbatim>\<open>setVM_CR3\<close>, \<^verbatim>\<open>setVM_CR4\<close>, \<^verbatim>\<open>handleCRaccess\<close>, mode
  switches, page table switches; the real CR0 is legal for VMX and the guest reads back its own.
  \<open>Descriptors\<close>: segment descriptors in the guest's tables and \<^verbatim>\<open>change_selectors\<close>.
  \<open>Fault_Injection\<close>: the exceptions the hypervisor raises. \<open>Exception_Emulation\<close>:
  \<^verbatim>\<open>emulateExceptionInterrupt\<close>. \<open>Interrupts\<close>: \<^verbatim>\<open>handleInterruptProtectedMode\<close>, with
  redirections, ignored page faults and the double fault table. \<open>MSR_Events\<close>: MSRs, CPUID,
  XSETBV, HLT and SIPI, and what hides the hypervisor from its guest. \<open>Task_Switch\<close>:
  \<^verbatim>\<open>handleTaskswitch\<close>. \<open>RealMode_Events\<close>: \<^verbatim>\<open>handleInterruptRealMode\<close> with the BIOS memory map.
  \<open>Invalid_State\<close>: recovery from states the processor refuses to enter. \<open>Event_Dispatch\<close>:
  \<^verbatim>\<open>handleVMEvent\<close> and \<^verbatim>\<open>handleINVLPG\<close>. \<open>Host_Isolation\<close>: every handler, and so the dispatcher,
  keeps the host state of the VMCS, and an exit reported as unhandled has changed nothing.
  \<open>AMD_Events\<close>: \<^verbatim>\<open>handleVMEvent_amd\<close> of \<^verbatim>\<open>vmeventhandler_amd.c\<close>; the guest reads back its own
  EFER, the one it runs with keeps SVME, and an interrupt that is not hooked is passed on.
  \<open>VM_Exit\<close>: the entry points \<^verbatim>\<open>vmexit\<close> and \<^verbatim>\<open>vmexit_amd\<close>; an exit nobody handles becomes
  an invalid opcode exception of the guest. \<open>VMX_Setup\<close>: \<^verbatim>\<open>setupVMX\<close> for Intel processors, the
  state in which a guest is started; the controls are legal for the processor, a guest
  started from a running system continues it; which MSR accesses exit. The end of this theory
  puts set-up and exits together: the runs of a virtual machine as a step relation, over which the
  hypervisor's own state in the VMCS stays as \<^verbatim>\<open>setupVMX\<close> left it.

  \<^bold>\<open>The vmcall interface\<close> (\<^verbatim>\<open>vmcall.c\<close>, \<^verbatim>\<open>osspecific.c\<close>). \<open>VM_Call\<close> has every command;
  \<open>VM_Call_Access\<close> shows that without both passwords nothing happens but an exception in the
  guest, and that a valid request runs its command; \<open>VM_Call_Effects\<close> has the effect of single
  commands and their defects.

  \<^bold>\<open>Services.\<close> \<open>Critical_Section\<close>: the recursive lock of \<^verbatim>\<open>common.c\<close> and
  \<^verbatim>\<open>commona.asm\<close> as interleaved steps of any number of CPUs, mutual exclusion, refinement of
  the function by the steps. \<open>Common_Strings\<close>: the string routines of \<^verbatim>\<open>common.c\<close>,
  \<^verbatim>\<open>vbuildstring\<close> against a reference, \<^verbatim>\<open>itoa\<close> and \<^verbatim>\<open>atoi\<close>. \<open>Ultimap_Ops\<close> and
  \<open>Ultimap_View\<close>: the branch tracer of \<^verbatim>\<open>ultimap.c\<close>, which is invisible to the guest.
  \<open>Multicore\<close>: counting the processors in the firmware's tables (\<^verbatim>\<open>multicore.c\<close>).
  \<open>Prelude\<close> holds the lemmas on words and bytes the other theories share.

  \<^bold>\<open>Parameters and conventions.\<close> \<open>junk\<close> is the never assigned part of a local variable of
  \<^verbatim>\<open>getSegmentAttrib\<close>; \<open>intnr0\<close> and \<open>value0\<close> are two such variables of
  \<^verbatim>\<open>handleVMEvent_amd\<close>; the theorems hold for every value. \<open>vm86_tables\<close> are addresses of
  tables allocated at start-up, \<open>boot_env\<close> adds what processor and linker know of the hypervisor. \<open>sample\<close> in \<open>Paging\<close> is a small machine on which
  hypotheses are shown to be satisfiable. The build without DEBUG and without a serial port is
  modelled.

  \<^bold>\<open>Not modelled.\<close> In \<^verbatim>\<open>vmpaging.c\<close> the shadow paging behind the memory cloak
  (\<^verbatim>\<open>handleVMPageException\<close>, \<^verbatim>\<open>fillTLB\<close> and related functions), whose call is commented
  out in the exit handler, and the first allocation of the virtual TLB. \<^verbatim>\<open>handle_cr3_callback\<close>, which stops in an endless
  loop before it does anything. The set-up for AMD processors, the entry into the guest (\<^verbatim>\<open>vmxloop\<close>, assembly) and the
  debug build's prompt in \<^verbatim>\<open>vmmhelper.c\<close>, the boot code and menu
  of \<^verbatim>\<open>main.c\<close>, and the serial, keyboard and screen drivers: they program hardware through
  instructions and ports. \<^verbatim>\<open>distorm64\<close> and Lua are third-party libraries. The kernel driver,
  the UEFI loader, ceserver, the Direct3D, .NET, Mono and Java helpers call operating system
  services the repository does not contain. The graphical program is written in Pascal.
\<close>

section \<open>The virtual machine from its set-up on\<close>

text \<open>
  The runs of a virtual machine. Between two exits the guest runs: it may change everything but
  the host state area of the VMCS, which the processor neither lets it write nor updates when it
  leaves the guest. An exit is handled by \<^verbatim>\<open>vmexit\<close>.
\<close>

inductive vm_run :: "vm86_tables \<Rightarrow> machine \<Rightarrow> machine \<Rightarrow> bool" for v s where
  started: "vm_run v s s"
| guest_runs: "vm_run v s t \<Longrightarrow> host_state u = host_state t \<Longrightarrow> vm_run v s u"
| exits: "vm_run v s t \<Longrightarrow> vmexit v junk c vmcallCS t = Some (r, vmcallCS', u) \<Longrightarrow> vm_run v s u"

lemma host_vmexit: "vmexit v junk c cs s = Some (r, cs', t) \<Longrightarrow> host_state t = host_state s"
  by (auto simp: vmexit_def bind_Some_iff dest!: host_VMEvent split: if_splits)

lemma host_run: "vm_run v s t \<Longrightarrow> host_state t = host_state s"
  by (induction rule: vm_run.induct) (simp_all add: host_vmexit)

lemma host_values_read:
  assumes "(f, x) \<in> set (host_values b (setup_host b s))"
  shows "vmread (setup_host b s) f = take_bit (vm_width f) x"
proof -
  let ?s = "vmwrites [(0x2800, -1), (0x2802, 0), (vm_guest_interruptability_state, 0), (0x4828, 0), (0x6822, 0)] s"
  have "host_values b (setup_host b s) = host_values b ?s" by (simp add: setup_host_def host_values_def)
  moreover have "distinct (map fst (host_values b ?s))" by (simp add: host_values_def)
  ultimately have "map_of (rev (host_values b ?s)) f = Some x"
    using assms by (intro map_of_is_SomeI) (simp_all add: rev_map [symmetric])
  then show ?thesis by (simp add: setup_host_def vmread_vmwrites Let_def)
qed

lemma setup_ends: "setupVMX_inner b os sel (g, s) = Some (g', t) \<Longrightarrow> \<exists>u. t = setup_host b u"
  by (auto simp: setupVMX_inner_def Let_def bind_Some_iff split_beta split: if_splits)

text \<open>
  C1: isolation of the hypervisor over the life of a virtual machine. Once \<^verbatim>\<open>setupVMX\<close> has
  returned, whatever the guest does and whatever exits it causes, in any number and order, every
  field of the host state area keeps the value it had then; so the processor always returns to
  the hypervisor with the segments, control registers, descriptor tables, task state segment and
  MSRs that the set-up chose for it.
\<close>

theorem hypervisor_isolated:
  assumes "setupVMX b loadedOS ldtselector c (lock, g, s) = Some (lock', g', t)" "vm_run v t u"
  shows "(\<forall>f. host_field f \<longrightarrow> vmread u f = vmread t f)
    \<and> (\<forall>(f, x) \<in> set (host_values b t). vmread u f = take_bit (vm_width f) x)"
proof -
  have keep: "vmread u f = vmread t f" if "host_field f" for f
    using fun_cong [OF host_run [OF assms(2)], of f] that by (simp add: host_state_def)
  moreover obtain w where "t = setup_host b w"
    using assms(1) by (auto simp: setupVMX_def bind_Some_iff dest!: setup_ends)
  ultimately show ?thesis using host_values_read host_values_area by auto
qed

text \<open>A machine that boots, whose guest executes CPUID.\<close>

theorem hypervisor_isolated_witness:
  "\<exists>lock g t u. setupVMX sample_boot 0 0 0 (free_lock, sample_vmx, booting) = Some (lock, g, t)
     \<and> vmexit sample_vm86 0 0 free_lock (vmwrite vm_exit_reason 10 t) = Some (0, free_lock, u)
     \<and> vmread u 0x6c02 = 0x330000 \<and> vmread u 0xc02 = 80"
proof -
  obtain g t where inner: "setupVMX_inner sample_boot 0 0 (sample_vmx, booting) = Some (g, t)"
    using booting_setup by auto
  have set: "\<exists>l. setupVMX sample_boot 0 0 0 (free_lock, sample_vmx, booting) = Some (l, g, t)"
    using inner by (simp add: setupVMX_def csEnter_def)
  let ?t = "vmwrite vm_exit_reason 10 t"
  have ex: "vmexit sample_vm86 0 0 free_lock ?t = Some (0, free_lock, handleCPUID ?t)"
    by (simp add: vmexit_def handleVMEvent_def vm_width_def)
  have "vm_run sample_vm86 t (handleCPUID ?t)"
    by (intro exits [OF guest_runs [OF started] ex]) simp
  then have "\<forall>(f, x) \<in> set (host_values sample_boot t). vmread (handleCPUID ?t) f = take_bit (vm_width f) x"
    using hypervisor_isolated set by blast
  then have "vmread (handleCPUID ?t) 0x6c02 = 0x330000" "vmread (handleCPUID ?t) 0xc02 = 80"
    by (simp_all add: host_values_def sample_boot_def vm_width_def)
  then show ?thesis using set ex by blast
qed

end
